(* ===== verification/Go_Prelude.thy ===== *)
theory Go_Prelude
  imports Main "HOL-Library.State_Monad" "HOL-Library.Char_ord"
begin

text \<open>
  The parts of the Go language and of its standard library that the pv-snapshotter sources
  rely on, shared by every component theory.

  \<^item> Go strings are byte sequences; they are modelled as \<^typ>\<open>string\<close>, one \<^typ>\<open>char\<close> per byte.
  \<^item> Functions of the packages strings and bytes (HasPrefix, CutPrefix, SplitN, TrimRight, \<dots>),
    each with the lemma that characterises it by concatenation.
  \<^item> Errors: \<open>Errorf\<close> is a fresh error value of fmt.Errorf (its format string and its
    operands, the text is not rendered), \<open>Wrapf\<close> is fmt.Errorf with a \<open>%w\<close> operand, and
    \<open>Sentinel\<close> is one of the error classes of containerd's errdefs; \<open>errors_Is\<close> walks
    the chain as errors.Is does.
  \<^item> Go maps: association lists with distinct keys. The order of the list is the (arbitrary)
    iteration order of one run, so a statement that holds for every permutation of the list
    says that the code does not depend on that order.
  \<^item> Effects: \<^typ>\<open>('w, 'a) state\<close>, a function from the state of the world to a result and
    the next state.
\<close>

named_theorems go_string \<open>characterisations of the string functions\<close>
named_theorems go_run \<open>equations that run a state action\<close>


section \<open>Strings\<close>

text \<open>\<^verbatim>\<open>strings.HasPrefix(s, prefix)\<close>\<close>

fun has_prefix :: "string \<Rightarrow> string \<Rightarrow> bool" where
  "has_prefix s [] = True"
| "has_prefix [] (p # ps) = False"
| "has_prefix (c # s) (p # ps) = (c = p \<and> has_prefix s ps)"

lemma has_prefix_iff [go_string]: "has_prefix s p \<longleftrightarrow> (\<exists>t. s = p @ t)"
  by (induction s p rule: has_prefix.induct) auto

lemma has_prefix_append [simp]: "has_prefix (p @ t) p"
  by (auto simp: has_prefix_iff)

lemma has_prefix_append_same [simp]: "has_prefix (p @ s) (p @ q) = has_prefix s q"
  by (auto simp: has_prefix_iff)

lemma has_prefixE:
  assumes "has_prefix s p"
  obtains t where "s = p @ t"
  using assms by (auto simp: has_prefix_iff)

text \<open>\<^verbatim>\<open>strings.HasSuffix(s, suffix)\<close>\<close>

definition has_suffix :: "string \<Rightarrow> string \<Rightarrow> bool" where
  "has_suffix s p = has_prefix (rev s) (rev p)"

lemma has_suffix_iff [go_string]: "has_suffix s p \<longleftrightarrow> (\<exists>t. s = t @ p)"
  by (auto simp: has_suffix_def has_prefix_iff rev_swap) (metis rev_append rev_rev_ident)

text \<open>\<^verbatim>\<open>strings.CutPrefix(s, prefix)\<close>, with \<open>None\<close> for \<open>ok = false\<close>.\<close>

definition cut_prefix :: "string \<Rightarrow> string \<Rightarrow> string option" where
  "cut_prefix s p = (if has_prefix s p then Some (drop (length p) s) else None)"

lemma cut_prefix_Some [go_string]: "cut_prefix s p = Some t \<longleftrightarrow> s = p @ t"
  by (auto simp: cut_prefix_def has_prefix_iff)

lemma cut_prefix_None [go_string]: "cut_prefix s p = None \<longleftrightarrow> \<not> has_prefix s p"
  by (auto simp: cut_prefix_def)

lemma cut_prefix_append [simp]: "cut_prefix (p @ t) p = Some t"
  by (simp add: cut_prefix_Some)

text \<open>\<^verbatim>\<open>strings.TrimPrefix(s, prefix)\<close>\<close>

definition trim_prefix :: "string \<Rightarrow> string \<Rightarrow> string" where
  "trim_prefix s p = (if has_prefix s p then drop (length p) s else s)"

lemma trim_prefix_append [simp]: "trim_prefix (p @ t) p = t"
  by (simp add: trim_prefix_def)

text \<open>\<^verbatim>\<open>strings.Cut(s, sep)\<close> for a one-byte separator: before, after, found.\<close>

fun str_cut :: "string \<Rightarrow> char \<Rightarrow> string \<times> string \<times> bool" where
  "str_cut [] sep = ([], [], False)"
| "str_cut (c # s) sep =
     (if c = sep then ([], s, True)
      else case str_cut s sep of (b, a, ok) \<Rightarrow> (c # b, a, ok))"

lemma cut_append [simp]: "sep \<notin> set b \<Longrightarrow> str_cut (b @ sep # a) sep = (b, a, True)"
  by (induction b) auto

lemma cut_not_found [go_string]: "sep \<notin> set s \<Longrightarrow> str_cut s sep = (s, [], False)"
  by (induction s) auto

lemma cut_cases:
  obtains (found) b a where "s = b @ sep # a" "sep \<notin> set b" "str_cut s sep = (b, a, True)"
  | (missing) "sep \<notin> set s" "str_cut s sep = (s, [], False)"
  by (metis cut_append cut_not_found split_list_first)

lemma cut_found [go_string]:
  "str_cut s sep = (b, a, True) \<longleftrightarrow> s = b @ sep # a \<and> sep \<notin> set b"
proof
  assume "str_cut s sep = (b, a, True)"
  then show "s = b @ sep # a \<and> sep \<notin> set b" by (cases s sep rule: cut_cases) auto
qed simp

lemma cut_before: "fst (str_cut s sep) = takeWhile (\<lambda>c. c \<noteq> sep) s"
  by (induction s) (auto split: prod.splits)

text \<open>\<^verbatim>\<open>strings.SplitN(s, sep, n)\<close> for a one-byte separator and \<open>n \<ge> 0\<close>.\<close>

fun split_n :: "nat \<Rightarrow> string \<Rightarrow> char \<Rightarrow> string list" where
  "split_n 0 s sep = []"
| "split_n (Suc 0) s sep = [s]"
| "split_n (Suc (Suc n)) s sep =
     (case str_cut s sep of (b, a, ok) \<Rightarrow> if ok then b # split_n (Suc n) a sep else [s])"

text \<open>\<^verbatim>\<open>strings.Split(s, sep)\<close> for a one-byte separator.\<close>

fun split_all :: "string \<Rightarrow> char \<Rightarrow> string list" where
  "split_all [] sep = [[]]"
| "split_all (c # s) sep =
     (if c = sep then [] # split_all s sep
      else case split_all s sep of [] \<Rightarrow> [[c]] | l # ls \<Rightarrow> (c # l) # ls)"

lemma split_all_nonempty [simp]: "split_all s sep \<noteq> []"
  by (induction s) (auto split: list.splits)

lemma split_all_no_sep: "sep \<notin> set s \<Longrightarrow> split_all s sep = [s]"
  by (induction s) auto

lemma split_all_append:
  "sep \<notin> set a \<Longrightarrow> split_all (a @ sep # b) sep = a # split_all b sep"
  by (induction a) auto

text \<open>\<^verbatim>\<open>strings.Contains(s, sub)\<close>\<close>

fun contains :: "string \<Rightarrow> string \<Rightarrow> bool" where
  "contains [] sub = (sub = [])"
| "contains (c # s) sub = (has_prefix (c # s) sub \<or> contains s sub)"

lemma contains_iff [go_string]: "contains s sub \<longleftrightarrow> (\<exists>a b. s = a @ sub @ b)"
proof (induction s)
  case (Cons c s)
  have "(\<exists>a b. c # s = a @ sub @ b) \<longleftrightarrow> (\<exists>b. c # s = sub @ b) \<or> (\<exists>a b. s = a @ sub @ b)"
    by (metis append_Cons append_Nil append_eq_Cons_conv)
  then show ?case by (simp add: Cons.IH has_prefix_iff)
qed auto

lemma contains_char [simp]: "contains s [c] \<longleftrightarrow> c \<in> set s"
  by (auto simp: contains_iff in_set_conv_decomp)

text \<open>\<^verbatim>\<open>strings.TrimRight(s, cutset)\<close> for a one-byte cutset.\<close>

definition trim_right :: "string \<Rightarrow> char \<Rightarrow> string" where
  "trim_right s c = rev (dropWhile (\<lambda>x. x = c) (rev s))"

text \<open>\<^verbatim>\<open>strings.LastIndex(s, substr)\<close> for a one-byte substring: \<open>-1\<close> when it is absent.\<close>

definition last_index :: "string \<Rightarrow> char \<Rightarrow> int" where
  "last_index s c = int (length s) - 1 - int (length (takeWhile (\<lambda>x. x \<noteq> c) (rev s)))"

text \<open>\<^verbatim>\<open>strings.ReplaceAll(s, old, new)\<close> for a one-byte \<open>old\<close>.\<close>

definition replace_all :: "string \<Rightarrow> char \<Rightarrow> string \<Rightarrow> string" where
  "replace_all s old new = concat (map (\<lambda>c. if c = old then new else [c]) s)"

lemma replace_all_simps [simp]:
  "replace_all [] old new = []"
  "replace_all (c # s) old new = (if c = old then new else [c]) @ replace_all s old new"
  by (simp_all add: replace_all_def)

text \<open>\<^verbatim>\<open>strings.TrimSpace(s)\<close> and \<^verbatim>\<open>bytes.TrimSpace(s)\<close> on the ASCII white space.\<close>

definition is_space :: "char \<Rightarrow> bool" where
  "is_space c = (c \<in> {CHR 0x09, CHR 0x0A, CHR 0x0B, CHR 0x0C, CHR 0x0D, CHR 0x20})"

definition trim_space :: "string \<Rightarrow> string" where
  "trim_space s = rev (dropWhile is_space (rev (dropWhile is_space s)))"

text \<open>
  The verb \<^verbatim>\<open>%q\<close> of package fmt (strconv.Quote): a double-quoted string literal. ASCII is
  exact; bytes above 0x7F are copied, as strconv.Quote does for printable UTF-8.
\<close>

definition hex_digit :: "nat \<Rightarrow> char" where
  "hex_digit n = ''0123456789abcdef'' ! n"

definition quote_char :: "char \<Rightarrow> string" where
  "quote_char c =
     (if c = CHR 0x22 then [CHR 0x5C, CHR 0x22]
      else if c = CHR 0x5C then [CHR 0x5C, CHR 0x5C]
      else if c = CHR 0x07 then [CHR 0x5C, CHR ''a'']
      else if c = CHR 0x08 then [CHR 0x5C, CHR ''b'']
      else if c = CHR 0x0C then [CHR 0x5C, CHR ''f'']
      else if c = CHR 0x0A then [CHR 0x5C, CHR ''n'']
      else if c = CHR 0x0D then [CHR 0x5C, CHR ''r'']
      else if c = CHR 0x09 then [CHR 0x5C, CHR ''t'']
      else if c = CHR 0x0B then [CHR 0x5C, CHR ''v'']
      else let n = (of_char c :: nat) in
      if n < 32 \<or> n = 127 then [CHR 0x5C, CHR ''x'', hex_digit (n div 16), hex_digit (n mod 16)]
      else [c])"

definition quote :: "string \<Rightarrow> string" where
  "quote s = CHR 0x22 # concat (map quote_char s) @ [CHR 0x22]"

text \<open>The verb \<^verbatim>\<open>%d\<close> on a non-negative number.\<close>

fun itoa :: "nat \<Rightarrow> string" where
  "itoa n = (if n < 10 then [''0123456789'' ! n] else itoa (n div 10) @ [''0123456789'' ! (n mod 10)])"

declare itoa.simps [simp del]

text \<open>\<^verbatim>\<open>strings.Join(xs, sep)\<close>\<close>

fun join :: "string list \<Rightarrow> string \<Rightarrow> string" where
  "join [] sep = []"
| "join [x] sep = x"
| "join (x # y # xs) sep = x @ sep @ join (y # xs) sep"

lemma last_index_absent: "c \<notin> set s \<Longrightarrow> last_index s c = -1"
proof -
  assume "c \<notin> set s"
  then have "takeWhile (\<lambda>x. x \<noteq> c) (rev s) = rev s"
    by (subst takeWhile_eq_all_conv) auto
  then show ?thesis unfolding last_index_def by (metis add.inverse_inverse add_diff_cancel_left' diff_add_cancel diff_minus_eq_add length_rev minus_diff_eq)
qed

lemma last_index_append: "c \<notin> set b \<Longrightarrow> last_index (a @ c # b) c = int (length a)"
proof -
  assume "c \<notin> set b"
  then have "takeWhile (\<lambda>x. x \<noteq> c) (rev b @ c # rev a) = rev b"
    by (subst takeWhile_append2) auto
  then show ?thesis by (simp add: last_index_def)
qed

lemma trim_right_replicate: "trim_right (s @ replicate n c) c = trim_right s c"
  by (simp add: trim_right_def) (induction n; simp)

lemma trim_right_id: "s = [] \<or> last s \<noteq> c \<Longrightarrow> trim_right s c = s"
  by (auto simp: trim_right_def) (cases s rule: rev_cases; simp)


subsection \<open>Quoting is injective\<close>

text \<open>
  A reader for one quoted character; it gives back the character that \<open>quote_char\<close> printed, so
  two quoted strings that agree up to what follows them are quotations of the same string.
\<close>

definition hex_value :: "char \<Rightarrow> nat" where
  "hex_value c = (let n = of_char c :: nat in if n < 58 then n - 48 else n - 87)"

definition unescape_char :: "char \<Rightarrow> char" where
  "unescape_char c =
     (if c = CHR ''a'' then CHR 0x07 else if c = CHR ''b'' then CHR 0x08
      else if c = CHR ''f'' then CHR 0x0C else if c = CHR ''n'' then CHR 0x0A
      else if c = CHR ''r'' then CHR 0x0D else if c = CHR ''t'' then CHR 0x09
      else if c = CHR ''v'' then CHR 0x0B else c)"

definition unquote_char :: "string \<Rightarrow> (char \<times> string) option" where
  "unquote_char s =
     (case s of
        [] \<Rightarrow> None
      | c # r \<Rightarrow>
          if c = CHR 0x22 then None
          else if c \<noteq> CHR 0x5C then Some (c, r)
          else (case r of
                  [] \<Rightarrow> None
                | d # r' \<Rightarrow>
                    if d = CHR ''x'' then
                      Some (char_of (16 * hex_value (r' ! 0) + hex_value (r' ! 1)), drop 2 r')
                    else Some (unescape_char d, r')))"

lemma hex_value_digit: "n < 16 \<Longrightarrow> hex_value (hex_digit n) = n"
  by (auto simp: hex_value_def hex_digit_def less_Suc_eq numeral_eq_Suc)

lemma unquote_quote_char: "unquote_char (quote_char c @ r) = Some (c, r)"
proof (cases "quote_char c = [c]")
  case True
  then have "c \<noteq> CHR 0x22" and "c \<noteq> CHR 0x5C" by (auto simp: quote_char_def)
  with True show ?thesis by (simp add: unquote_char_def)
next
  case False
  show ?thesis
  proof (cases "\<exists>d. quote_char c = [CHR 0x5C, d] \<and> d \<noteq> CHR ''x'' \<and> unescape_char d = c")
    case True
    then show ?thesis by (auto simp: unquote_char_def)
  next
    case esc: False
    let ?n = "of_char c :: nat"
    have hex: "quote_char c = [CHR 0x5C, CHR ''x'', hex_digit (?n div 16), hex_digit (?n mod 16)]"
      using False esc by (auto simp: quote_char_def unescape_char_def Let_def split: if_splits)
    have "?n < 256" by (metis mod_less_divisor of_char_mod_256 zero_less_numeral)
    then have "?n div 16 < 16" by (intro less_mult_imp_div_less) simp
    then show ?thesis by (simp add: hex unquote_char_def hex_value_digit)
  qed
qed

lemma unquote_close: "unquote_char (CHR 0x22 # r) = None"
  by (simp add: unquote_char_def)

lemma quote_append_inject: "quote a @ x = quote b @ y \<longleftrightarrow> a = b \<and> x = y"
proof
  assume "quote a @ x = quote b @ y"
  then have "concat (map quote_char a) @ CHR 0x22 # x = concat (map quote_char b) @ CHR 0x22 # y"
    by (simp add: quote_def)
  then show "a = b \<and> x = y"
  proof (induction a arbitrary: b)
    case Nil
    show ?case
    proof (cases b)
      case (Cons d b')
      with Nil have "CHR 0x22 # x = quote_char d @ (concat (map quote_char b') @ CHR 0x22 # y)" by simp
      then show ?thesis by (metis option.distinct(1) unquote_close unquote_quote_char)
    qed (use Nil in simp)
  next
    case (Cons c a)
    then show ?case
    proof (cases b)
      case Nil
      with Cons.prems have "CHR 0x22 # y = quote_char c @ (concat (map quote_char a) @ CHR 0x22 # x)"
        by simp
      then show ?thesis by (metis option.distinct(1) unquote_close unquote_quote_char)
    next
      case b: (Cons d b')
      have "quote_char c @ (concat (map quote_char a) @ CHR 0x22 # x) =
            quote_char d @ (concat (map quote_char b') @ CHR 0x22 # y)"
        using Cons.prems b by simp
      then have "(c, concat (map quote_char a) @ CHR 0x22 # x) = (d, concat (map quote_char b') @ CHR 0x22 # y)"
        by (metis unquote_quote_char option.inject)
      then show ?thesis using Cons.IH [of b'] b by simp
    qed
  qed
qed simp


section \<open>Errors\<close>

datatype gerr =
    Sentinel string
  | Errorf string "string list"
  | Wrapf string "string list" gerr

text \<open>\<^verbatim>\<open>errors.Is(err, target)\<close> for a sentinel target.\<close>

fun errors_Is :: "gerr \<Rightarrow> string \<Rightarrow> bool" where
  "errors_Is (Sentinel c) t = (c = t)"
| "errors_Is (Errorf f xs) t = False"
| "errors_Is (Wrapf f xs e) t = errors_Is e t"

abbreviation ErrNotFound :: string where "ErrNotFound \<equiv> ''not found''"
abbreviation ErrAlreadyExists :: string where "ErrAlreadyExists \<equiv> ''already exists''"
abbreviation ErrUnavailable :: string where "ErrUnavailable \<equiv> ''unavailable''"


section \<open>Maps\<close>

type_synonym ('k, 'v) gomap = "('k \<times> 'v) list"

definition gomap_ok :: "('k, 'v) gomap \<Rightarrow> bool" where
  "gomap_ok m = distinct (map fst m)"

text \<open>\<^verbatim>\<open>m[k]\<close> of a \<^verbatim>\<open>map[string]string\<close>: the zero value for a missing key.\<close>

definition map_get :: "('k, string) gomap \<Rightarrow> 'k \<Rightarrow> string" where
  "map_get m k = (case map_of m k of None \<Rightarrow> [] | Some v \<Rightarrow> v)"

text \<open>\<^verbatim>\<open>m[k] = v\<close>: replace the entry in place, or add it.\<close>

fun map_put :: "('k, 'v) gomap \<Rightarrow> 'k \<Rightarrow> 'v \<Rightarrow> ('k, 'v) gomap" where
  "map_put [] k v = [(k, v)]"
| "map_put ((k', v') # m) k v = (if k' = k then (k, v) # m else (k', v') # map_put m k v)"

lemma map_of_map_put [simp]: "map_of (map_put m k v) = (map_of m)(k \<mapsto> v)"
  by (induction m k v rule: map_put.induct) (auto simp: fun_eq_iff)

lemma keys_map_put: "fst ` set (map_put m k v) = insert k (fst ` set m)"
  by (induction m k v rule: map_put.induct) auto

lemma gomap_ok_map_put: "gomap_ok m \<Longrightarrow> gomap_ok (map_put m k v)"
  unfolding gomap_ok_def
proof (induction m k v rule: map_put.induct)
  case (2 k' v' m k v)
  then show ?case using keys_map_put [of m k v] by (auto simp: image_iff)
qed simp

lemma map_get_in: "gomap_ok m \<Longrightarrow> (k, v) \<in> set m \<Longrightarrow> map_get m k = v"
  by (simp add: map_get_def gomap_ok_def)


section \<open>Effects\<close>

lemma run_bind [go_run]:
  "run_state (State_Monad.bind m f) s =
     (case run_state m s of (a, s') \<Rightarrow> run_state (f a) s')"
  by (simp add: State_Monad.bind_def)

lemma run_return [go_run]: "run_state (State_Monad.return a) s = (a, s)"
  by (simp add: State_Monad.return_def)

lemma fst_run: "fst (run_state m s) = a \<Longrightarrow> run_state m s = (a, snd (run_state m s))"
  by (metis prod.collapse)



section \<open>State machines\<close>

text \<open>
  An invariant of a step relation: what every step preserves holds in every state that is
  reached from one where it holds.
\<close>

locale step_invariant =
  fixes step :: "'s \<Rightarrow> 's \<Rightarrow> bool" and inv :: "'s \<Rightarrow> bool"
  assumes preserved: "inv s \<Longrightarrow> step s s' \<Longrightarrow> inv s'"
begin

lemma reachable: "step\<^sup>*\<^sup>* s s' \<Longrightarrow> inv s \<Longrightarrow> inv s'"
  by (induction rule: rtranclp_induct) (auto intro: preserved)

end

end
