(* ===== verification/Annotation.thy ===== *)
theory Annotation
  imports Go_Prelude
begin

text \<open>
  pkg/annotation/prefix.go: the DNS-subdomain prefix shared by the resolver and the webhook,
  its validation, and the derivation of annotation keys.

  \<^verbatim>\<open>validation.IsDNS1123Subdomain\<close> (k8s.io/apimachinery) and \<^verbatim>\<open>viper.GetString\<close> are not part
  of the repository: the first is the parameter \<open>isDNS1123Subdomain\<close> (the list of its
  complaints), the second the parameter \<open>getString\<close>.
\<close>


section \<open>Definitions\<close>

definition flagPrefix :: string where "flagPrefix = ''annotation-prefix''"
definition defaultPrefix :: string where "defaultPrefix = ''pv-snapshotter.humble-mun.io''"
definition reservedPrefixKubernetes :: string where "reservedPrefixKubernetes = ''kubernetes.io''"
definition reservedPrefixK8s :: string where "reservedPrefixK8s = ''k8s.io''"

definition validatePrefix :: "(string \<Rightarrow> string list) \<Rightarrow> string \<Rightarrow> gerr option" where
  "validatePrefix isDNS1123Subdomain prefix =
     (if has_suffix prefix ''/'' then
        Some (Errorf ''annotation prefix must not include a trailing slash: %q'' [prefix])
      else let errs = isDNS1123Subdomain prefix in
      if length errs > 0 then
        Some (Errorf ''annotation prefix %q is not a valid DNS subdomain: %s''
                [prefix, join errs ''; ''])
      else if prefix = reservedPrefixKubernetes \<or> prefix = reservedPrefixK8s \<or>
              has_suffix prefix (''.'' @ reservedPrefixKubernetes) \<or>
              has_suffix prefix (''.'' @ reservedPrefixK8s) then
        Some (Errorf ''annotation prefix %q uses a reserved Kubernetes domain'' [prefix])
      else None)"

definition ResolvePrefix ::
  "(string \<Rightarrow> string list) \<Rightarrow> (string \<Rightarrow> string) \<Rightarrow> gerr + string" where
  "ResolvePrefix isDNS1123Subdomain getString =
     (let prefix = getString flagPrefix in
      case validatePrefix isDNS1123Subdomain prefix of
        Some err \<Rightarrow> Inl (Wrapf ''invalid --%s: %w'' [flagPrefix] err)
      | None \<Rightarrow> Inr prefix)"

definition Key :: "string \<Rightarrow> string \<Rightarrow> string" where
  "Key prefix suffix = prefix @ ''/'' @ suffix"


section \<open>The key scheme\<close>

text \<open>
  What the consumers of the package rely on: under one prefix, distinct suffixes give
  distinct keys, and a key extends another exactly when its suffix does.
\<close>

locale key_scheme =
  fixes key :: "string \<Rightarrow> string \<Rightarrow> string"
  assumes key_inject: "key p s = key p t \<longleftrightarrow> s = t"
    and key_extends: "has_prefix (key p s) (key p t) \<longleftrightarrow> has_prefix s t"
    and key_strip: "trim_prefix (key p (t @ v)) (key p t) = v"
begin

lemma key_separated: "\<not> has_prefix s t \<Longrightarrow> \<not> has_prefix (key p s) (key p t)"
  by (simp add: key_extends)

lemma key_strip_inject:
  assumes "has_prefix (key p s) (key p t)" and "has_prefix (key p s') (key p t)"
    and "trim_prefix (key p s) (key p t) = trim_prefix (key p s') (key p t)"
  shows "s = s'"
proof -
  obtain v where v: "s = t @ v" using assms(1) unfolding key_extends by (rule has_prefixE)
  obtain v' where v': "s' = t @ v'" using assms(2) unfolding key_extends by (rule has_prefixE)
  show ?thesis using assms(3) by (simp add: v v' key_strip)
qed

end

interpretation annotation_key: key_scheme Key
  by unfold_locales (simp_all add: Key_def trim_prefix_def)

lemmas annotation_key_simps = Key_def


section \<open>Properties\<close>

text \<open>An accepted prefix is one the DNS check has no complaint about, carries no trailing
  slash and is neither one of the two reserved Kubernetes domains nor a subdomain of one;
  every other prefix is rejected.\<close>

theorem validatePrefix_accepts_iff:
  "validatePrefix isDNS prefix = None \<longleftrightarrow>
     isDNS prefix = [] \<and>
     (\<nexists>p. prefix = p @ ''/'') \<and>
     prefix \<noteq> ''kubernetes.io'' \<and> prefix \<noteq> ''k8s.io'' \<and>
     (\<nexists>p. prefix = p @ ''.kubernetes.io'') \<and> (\<nexists>p. prefix = p @ ''.k8s.io'')"
  by (simp add: validatePrefix_def Let_def has_suffix_iff reservedPrefixKubernetes_def
      reservedPrefixK8s_def)

end
