(* ===== verification/Go_Template.thy ===== *)
theory Go_Template
  imports Go_Prelude
begin

text \<open>
  Go's text/template as the repository uses it.

  The resolver and the webhook take the package as a parameter of type
  \<open>('t, 'd) text_template\<close> (Parse and Execute, for compiled templates \<open>'t\<close> and data
  \<open>'d\<close>), so their definitions and most of their properties hold for any template language.
  For the properties that follow an annotation value through both rendering layers, this
  theory also defines the fragment of the language that the repository's own templates, its
  flag defaults and its documentation use: literal text, field actions \<^verbatim>\<open>{{.Name}}\<close> and the
  pipeline \<^verbatim>\<open>{{.Name | sha256}}\<close>. An action outside the fragment is a parse error here.
\<close>


section \<open>The package interface\<close>

record ('t, 'd) text_template =
  tt_Parse :: "string \<Rightarrow> gerr + 't"
  tt_Execute :: "'t \<Rightarrow> 'd \<Rightarrow> gerr + string"

text \<open>Parse followed by Execute, as a caller that needs only the text sees it.\<close>

definition tt_render :: "('t, 'd) text_template \<Rightarrow> string \<Rightarrow> 'd \<Rightarrow> gerr + string" where
  "tt_render T s d = (case tt_Parse T s of Inl e \<Rightarrow> Inl e | Inr t \<Rightarrow> tt_Execute T t d)"


section \<open>The fragment\<close>

datatype tnode = TText string | TField string | TPipe string string

fun cut_str :: "string \<Rightarrow> string \<Rightarrow> (string \<times> string) option" where
  "cut_str [] sub = (if sub = [] then Some ([], []) else None)"
| "cut_str (c # s) sub =
     (if has_prefix (c # s) sub then Some ([], drop (length sub) (c # s))
      else map_option (\<lambda>(b, a). (c # b, a)) (cut_str s sub))"

lemma cut_str_sound: "cut_str s sub = Some (b, a) \<Longrightarrow> s = b @ sub @ a"
  by (induction s sub arbitrary: b a rule: cut_str.induct)
     (auto simp: has_prefix_iff split: if_splits)

lemma cut_str_length: "cut_str s sub = Some (b, a) \<Longrightarrow> sub \<noteq> [] \<Longrightarrow> length a < length s"
  by (auto dest!: cut_str_sound)

definition in_range :: "char \<Rightarrow> char \<Rightarrow> char \<Rightarrow> bool" where
  "in_range lo hi c = (lo \<le> c \<and> c \<le> hi)"

definition ident_start :: "char \<Rightarrow> bool" where
  "ident_start c =
     (c = CHR ''_'' \<or> in_range (CHR ''A'') (CHR ''Z'') c \<or> in_range (CHR ''a'') (CHR ''z'') c)"

definition ident_char :: "char \<Rightarrow> bool" where
  "ident_char c = (in_range (CHR ''0'') (CHR ''9'') c \<or> ident_start c)"

definition is_ident :: "string \<Rightarrow> bool" where
  "is_ident s = (case s of [] \<Rightarrow> False | c # cs \<Rightarrow> ident_start c \<and> list_all ident_char cs)"

definition action_space :: "char \<Rightarrow> bool" where
  "action_space c = (c \<in> {CHR 0x09, CHR 0x0A, CHR 0x0D, CHR 0x20})"

definition trim_action :: "string \<Rightarrow> string" where
  "trim_action s = rev (dropWhile action_space (rev (dropWhile action_space s)))"

definition parse_field :: "string \<Rightarrow> string option" where
  "parse_field s =
     (case trim_action s of
        [] \<Rightarrow> None
      | c # f \<Rightarrow> if c = CHR ''.'' \<and> is_ident f then Some f else None)"

definition parse_action :: "string list \<Rightarrow> string \<Rightarrow> gerr + tnode" where
  "parse_action funcs act =
     (case parse_field act of
        Some f \<Rightarrow> Inr (TField f)
      | None \<Rightarrow>
          (case str_cut act (CHR ''|'') of (l, r, ok) \<Rightarrow>
             case parse_field l of
               Some f \<Rightarrow>
                 if ok \<and> trim_action r \<in> set funcs then Inr (TPipe f (trim_action r))
                 else Inl (Errorf ''function %q not defined'' [trim_action r])
             | None \<Rightarrow> Inl (Errorf ''unexpected action %q'' [act])))"

definition text_node :: "string \<Rightarrow> tnode list" where
  "text_node s = (if s = [] then [] else [TText s])"

function parse_nodes :: "string list \<Rightarrow> string \<Rightarrow> gerr + tnode list" where
  "parse_nodes funcs s =
     (case cut_str s ''{{'' of
        None \<Rightarrow> Inr (text_node s)
      | Some (b, rest) \<Rightarrow>
          (case cut_str rest ''}}'' of
             None \<Rightarrow> Inl (Errorf ''unclosed action'' [])
           | Some (act, rest') \<Rightarrow>
               (case parse_action funcs act of
                  Inl e \<Rightarrow> Inl e
                | Inr n \<Rightarrow>
                    (case parse_nodes funcs rest' of
                       Inl e \<Rightarrow> Inl e
                     | Inr ns \<Rightarrow> Inr (text_node b @ n # ns)))))"
  by pat_completeness auto
termination
  by (relation "measure (\<lambda>(funcs, s). length s)")
     (auto dest!: cut_str_length intro: less_trans)

declare parse_nodes.simps [simp del]

fun exec_nodes ::
  "(string \<Rightarrow> gerr + string) \<Rightarrow> (string \<Rightarrow> string \<Rightarrow> string) \<Rightarrow> tnode list \<Rightarrow> gerr + string" where
  "exec_nodes field call [] = Inr []"
| "exec_nodes field call (TText s # ns) =
     (case exec_nodes field call ns of Inl e \<Rightarrow> Inl e | Inr x \<Rightarrow> Inr (s @ x))"
| "exec_nodes field call (TField f # ns) =
     (case field f of Inl e \<Rightarrow> Inl e | Inr v \<Rightarrow>
        (case exec_nodes field call ns of Inl e \<Rightarrow> Inl e | Inr x \<Rightarrow> Inr (v @ x)))"
| "exec_nodes field call (TPipe f g # ns) =
     (case field f of Inl e \<Rightarrow> Inl e | Inr v \<Rightarrow>
        (case exec_nodes field call ns of Inl e \<Rightarrow> Inl e | Inr x \<Rightarrow> Inr (call g v @ x)))"

text \<open>
  The fragment as an instance of the package: the registered functions with their
  implementation, and how a field of the data is evaluated.
\<close>

definition fragment ::
  "string list \<Rightarrow> (string \<Rightarrow> string \<Rightarrow> string) \<Rightarrow> ('d \<Rightarrow> string \<Rightarrow> gerr + string) \<Rightarrow>
   (tnode list, 'd) text_template" where
  "fragment funcs call field =
     \<lparr>tt_Parse = parse_nodes funcs, tt_Execute = (\<lambda>ns d. exec_nodes (field d) call ns)\<rparr>"

text \<open>
  Execution with a \<^verbatim>\<open>map[string]string\<close> (the resolver's data): a missing key prints as
  \<^verbatim>\<open><no value>\<close>.
\<close>

definition map_field :: "(string, string) gomap \<Rightarrow> string \<Rightarrow> gerr + string" where
  "map_field d f = Inr (case map_of d f of None \<Rightarrow> ''<no value>'' | Some v \<Rightarrow> v)"


section \<open>What a client of the package relies on\<close>

text \<open>
  A renderer is a template engine when text without braces renders as itself and a field
  action between two pieces of template is replaced by the field's value.
\<close>

locale template_engine =
  fixes render :: "string \<Rightarrow> 'd \<Rightarrow> gerr + string"
    and field :: "'d \<Rightarrow> string \<Rightarrow> gerr + string"
  assumes render_text: "CHR ''{'' \<notin> set s \<Longrightarrow> render s d = Inr s"
    and render_field:
      "CHR ''{'' \<notin> set a \<Longrightarrow> is_ident f \<Longrightarrow> field d f = Inr v \<Longrightarrow> render r d = Inr x \<Longrightarrow>
       render (a @ ''{{.'' @ f @ ''}}'' @ r) d = Inr (a @ v @ x)"

text \<open>Templates given by their nodes: printing and plain templates (text and fields only).\<close>

fun print_node :: "tnode \<Rightarrow> string" where
  "print_node (TText s) = s"
| "print_node (TField f) = ''{{.'' @ f @ ''}}''"
| "print_node (TPipe f g) = ''{{.'' @ f @ '' | '' @ g @ ''}}''"

definition print_nodes :: "tnode list \<Rightarrow> string" where
  "print_nodes ns = concat (map print_node ns)"

fun plain_node :: "tnode \<Rightarrow> bool" where
  "plain_node (TText s) = (CHR ''{'' \<notin> set s)"
| "plain_node (TField f) = is_ident f"
| "plain_node (TPipe f g) = False"

lemma print_nodes_simps [simp]:
  "print_nodes [] = []"
  "print_nodes (n # ns) = print_node n @ print_nodes ns"
  by (simp_all add: print_nodes_def)

context template_engine
begin

lemma render_text_append:
  assumes "CHR ''{'' \<notin> set a" and "list_all plain_node ns"
    and "exec_nodes (field d) call ns = Inr x"
  shows "render (a @ print_nodes ns) d = Inr (a @ x)"
  using assms
proof (induction ns arbitrary: a x)
  case Nil
  then show ?case by (simp add: render_text)
next
  case (Cons n ns)
  show ?case
  proof (cases n)
    case (TText s)
    then obtain y where "exec_nodes (field d) call ns = Inr y" "x = s @ y"
      using Cons.prems(3) by (auto split: sum.splits)
    then show ?thesis using Cons.IH [of "a @ s" y] Cons.prems TText by simp
  next
    case (TField f)
    then obtain v y where "field d f = Inr v" "exec_nodes (field d) call ns = Inr y" "x = v @ y"
      using Cons.prems(3) by (auto split: sum.splits)
    then show ?thesis
      using Cons.IH [of "[]" y] Cons.prems TField render_field [of a f d v "print_nodes ns" y] by simp
  next
    case (TPipe f g)
    then show ?thesis using Cons.prems by simp
  qed
qed

lemma render_plain:
  "list_all plain_node ns \<Longrightarrow> exec_nodes (field d) call ns = Inr x \<Longrightarrow>
   render (print_nodes ns) d = Inr x"
  using render_text_append [of "[]" ns d call x] by simp

end


section \<open>The fragment is a template engine\<close>

lemma cut_str_none: "c \<notin> set s \<Longrightarrow> cut_str s (c # cs) = None"
  by (induction s) auto

lemma cut_str_first: "c \<notin> set a \<Longrightarrow> cut_str (a @ c # cs @ r) (c # cs) = Some (a, r)"
  by (induction a) auto

lemma ident_char_not_special:
  "ident_char c \<Longrightarrow> c \<notin> set ''{}|. '' \<and> \<not> action_space c"
  by (auto simp: ident_char_def ident_start_def in_range_def action_space_def less_eq_char_def)

lemma is_ident_chars: "is_ident f \<Longrightarrow> list_all ident_char f \<and> f \<noteq> []"
  by (auto simp: is_ident_def ident_char_def split: list.splits)

lemma parse_action_field: "is_ident f \<Longrightarrow> parse_action funcs (CHR ''.'' # f) = Inr (TField f)"
proof -
  assume f: "is_ident f"
  have ne: "f \<noteq> []" and id: "ident_char (last f)"
    using is_ident_chars [OF f] by (auto simp: list_all_iff)
  have "\<not> action_space (last f)" using ident_char_not_special [OF id] by simp
  then have "trim_action (CHR ''.'' # f) = CHR ''.'' # f"
    using ne by (cases f rule: rev_cases) (auto simp: trim_action_def action_space_def)
  then show ?thesis using f by (simp add: parse_action_def parse_field_def)
qed

lemma parse_nodes_text: "CHR ''{'' \<notin> set s \<Longrightarrow> parse_nodes funcs s = Inr (text_node s)"
  by (simp add: parse_nodes.simps [of funcs s] cut_str_none)

lemma parse_nodes_field:
  assumes a: "CHR ''{'' \<notin> set a" and f: "is_ident f"
  shows "parse_nodes funcs (a @ ''{{.'' @ f @ ''}}'' @ r) =
           (case parse_nodes funcs r of Inl e \<Rightarrow> Inl e
            | Inr ns \<Rightarrow> Inr (text_node a @ TField f # ns))"
proof -
  have "CHR ''}'' \<notin> set f"
    using is_ident_chars [OF f] ident_char_not_special by (auto simp: list_all_iff)
  then have close: "cut_str (CHR ''.'' # f @ ''}}'' @ r) ''}}'' = Some (CHR ''.'' # f, r)"
    using cut_str_first [of "CHR ''}''" "CHR ''.'' # f" "''}''" r] by simp
  have opn: "cut_str (a @ ''{{.'' @ f @ ''}}'' @ r) ''{{'' = Some (a, CHR ''.'' # f @ ''}}'' @ r)"
    using cut_str_first [OF a, of "''{''" "CHR ''.'' # f @ ''}}'' @ r"] by simp
  show ?thesis
    by (subst parse_nodes.simps) (simp only: opn close parse_action_field [OF f] option.case prod.case sum.case)
qed

lemma exec_text_node:
  "exec_nodes field call (text_node a @ ns) =
     (case exec_nodes field call ns of Inl e \<Rightarrow> Inl e | Inr x \<Rightarrow> Inr (a @ x))"
  by (simp add: text_node_def split: sum.splits)

interpretation fragment_engine:
  template_engine "tt_render (fragment funcs call field)" field for funcs call field
proof unfold_locales
  show "tt_render (fragment funcs call field) s d = Inr s" if "CHR ''{'' \<notin> set s" for s d
    using that exec_text_node [of "field d" call s "[]"]
    by (simp add: tt_render_def fragment_def parse_nodes_text)
next
  show "tt_render (fragment funcs call field) (a @ ''{{.'' @ f @ ''}}'' @ r) d = Inr (a @ v @ x)"
    if "CHR ''{'' \<notin> set a" and "is_ident f" and "field d f = Inr v"
      and "tt_render (fragment funcs call field) r d = Inr x" for a f d v r x
    using that parse_nodes_field [OF that(1,2), of funcs r]
    by (cases "parse_nodes funcs r") (auto simp: tt_render_def fragment_def exec_text_node)
qed



section \<open>Functions in pipelines\<close>

text \<open>An engine with registered functions: a field piped into one of them.\<close>

locale template_funcs = template_engine +
  fixes funcs :: "string list" and call :: "string \<Rightarrow> string \<Rightarrow> string"
  assumes render_call:
      "CHR ''{'' \<notin> set a \<Longrightarrow> is_ident f \<Longrightarrow> is_ident g \<Longrightarrow> g \<in> set funcs \<Longrightarrow> field d f = Inr v \<Longrightarrow>
       render r d = Inr x \<Longrightarrow> render (a @ ''{{.'' @ f @ '' | '' @ g @ ''}}'' @ r) d = Inr (a @ call g v @ x)"
begin

lemma render_call_text:
  assumes "CHR ''{'' \<notin> set a" and "CHR ''{'' \<notin> set b" and "is_ident f" and "is_ident g" and "g \<in> set funcs"
    and "field d f = Inr v"
  shows "render (a @ ''{{.'' @ f @ '' | '' @ g @ ''}}'' @ b) d = Inr (a @ call g v @ b)"
  using render_call [OF assms(1,3-6) render_text [OF assms(2)]] .

end

lemma trim_action_solid:
  assumes "s \<noteq> []" and "\<not> action_space (hd s)" and "\<not> action_space (last s)"
  shows "trim_action s = s"
proof -
  have "dropWhile action_space s = s" using assms(1,2) by (cases s) auto
  moreover have "dropWhile action_space (rev s) = rev s"
    using assms(1,3) by (cases s rule: rev_cases) auto
  ultimately show ?thesis by (simp add: trim_action_def)
qed

lemma action_space_blank: "action_space (CHR '' '')"
  by (simp add: action_space_def)

lemma is_ident_ends: "is_ident f \<Longrightarrow> f \<noteq> [] \<and> \<not> action_space (hd f) \<and> \<not> action_space (last f)"
  using is_ident_chars [of f] ident_char_not_special by (auto simp: list_all_iff)

lemma parse_action_call:
  assumes f: "is_ident f" and g: "is_ident g" "g \<in> set funcs"
  shows "parse_action funcs (CHR ''.'' # f @ '' | '' @ g) = Inr (TPipe f g)"
proof -
  note ends = is_ident_ends [OF f] is_ident_ends [OF g(1)]
  have dot: "\<not> action_space (CHR ''.'')" by (simp add: action_space_def)
  have "\<not> is_ident (f @ '' | '' @ g)"
    using is_ident_chars [of "f @ '' | '' @ g"] ident_char_not_special [of "CHR '' ''"] by auto
  moreover have "trim_action (CHR ''.'' # f @ '' | '' @ g) = CHR ''.'' # f @ '' | '' @ g"
    by (rule trim_action_solid) (use ends dot in auto)
  ultimately have whole: "parse_field (CHR ''.'' # f @ '' | '' @ g) = None" by (simp add: parse_field_def)
  have bar: "CHR ''|'' \<notin> set (CHR ''.'' # f @ '' '')"
    using is_ident_chars [OF f] ident_char_not_special by (auto simp: list_all_iff)
  have cut: "str_cut (CHR ''.'' # f @ '' | '' @ g) (CHR ''|'') = (CHR ''.'' # f @ '' '', CHR '' '' # g, True)"
    using cut_append [OF bar, of "CHR '' '' # g"] by simp
  have "trim_action (CHR ''.'' # f @ '' '') = trim_action (CHR ''.'' # f)"
    by (simp add: trim_action_def action_space_blank dot)
  also have "\<dots> = CHR ''.'' # f" by (rule trim_action_solid) (use ends dot in auto)
  finally have left: "parse_field (CHR ''.'' # f @ '' '') = Some f" using f by (simp add: parse_field_def)
  have "trim_action (CHR '' '' # g) = trim_action g" by (simp add: trim_action_def action_space_blank)
  also have "\<dots> = g" by (rule trim_action_solid) (use ends in auto)
  finally have "trim_action (CHR '' '' # g) = g" .
  then show ?thesis using whole cut left g(2) by (simp add: parse_action_def)
qed

lemma parse_nodes_call:
  assumes a: "CHR ''{'' \<notin> set a" and f: "is_ident f" and g: "is_ident g" "g \<in> set funcs"
  shows "parse_nodes funcs (a @ ''{{.'' @ f @ '' | '' @ g @ ''}}'' @ r) =
           (case parse_nodes funcs r of Inl e \<Rightarrow> Inl e
            | Inr ns \<Rightarrow> Inr (text_node a @ TPipe f g # ns))"
proof -
  have "CHR ''}'' \<notin> set (CHR ''.'' # f @ '' | '' @ g)"
    using is_ident_chars [OF f] is_ident_chars [OF g(1)] ident_char_not_special by (auto simp: list_all_iff)
  then have close: "cut_str (CHR ''.'' # f @ '' | '' @ g @ ''}}'' @ r) ''}}'' = Some (CHR ''.'' # f @ '' | '' @ g, r)"
    using cut_str_first [of "CHR ''}''" "CHR ''.'' # f @ '' | '' @ g" "''}''" r] by simp
  have opn: "cut_str (a @ ''{{.'' @ f @ '' | '' @ g @ ''}}'' @ r) ''{{'' = Some (a, CHR ''.'' # f @ '' | '' @ g @ ''}}'' @ r)"
    using cut_str_first [OF a, of "''{''" "CHR ''.'' # f @ '' | '' @ g @ ''}}'' @ r"] by simp
  show ?thesis
    by (subst parse_nodes.simps) (simp only: opn close parse_action_call [OF f g] option.case prod.case sum.case)
qed

interpretation fragment_funcs:
  template_funcs "tt_render (fragment funcs call field)" field funcs call for funcs call field
proof unfold_locales
  show "tt_render (fragment funcs call field) (a @ ''{{.'' @ f @ '' | '' @ g @ ''}}'' @ r) d = Inr (a @ call g v @ x)"
    if "CHR ''{'' \<notin> set a" and "is_ident f" and "is_ident g" and "g \<in> set funcs" and "field d f = Inr v"
      and "tt_render (fragment funcs call field) r d = Inr x" for a f g d v r x
    using that parse_nodes_call [OF that(1-4), of r]
    by (cases "parse_nodes funcs r") (auto simp: tt_render_def fragment_def exec_text_node)
qed

end
