(* ===== verification/Host_API.thy ===== *)
theory Host_API
  imports Go_Prelude
begin

text \<open>
  The code outside the repository that pv-snapshotter calls, as parameters: containerd's
  snapshotter interface, its leases service and its container records, and the operating
  system. Each interface is a record of operations; an operation takes the state \<open>'w\<close> of
  the world outside the daemon and returns its result with the next state, so that an
  operation may fail, may change the world and may see what other processes did meanwhile.
  No operation is defined here. The definitions of the components take these records as
  arguments; where a property needs documented behaviour of an operation, the behaviour is
  a named predicate and a hypothesis of the property.
\<close>


section \<open>Data\<close>

text \<open>A \<^verbatim>\<open>context.Context\<close>: only the containerd namespace it carries is read.\<close>

type_synonym ctx = "string option"

text \<open>\<^verbatim>\<open>namespaces.WithNamespace(context.Background(), ns)\<close>\<close>

definition WithNamespace :: "string \<Rightarrow> ctx" where
  "WithNamespace ns = Some ns"

text \<open>\<^verbatim>\<open>namespaces.Namespace(ctx)\<close>: the empty string when the context carries none.\<close>

definition Namespace :: "ctx \<Rightarrow> string" where
  "Namespace c = (case c of None \<Rightarrow> [] | Some ns \<Rightarrow> ns)"

type_synonym labels = "(string, string) gomap"

record mount =
  m_Type :: string
  m_Source :: string
  m_Target :: string
  m_Options :: "string list"

datatype kind = KindUnknown | KindView | KindActive | KindCommitted

record info =
  i_Kind :: kind
  i_Name :: string
  i_Parent :: string
  i_Labels :: labels

record usage =
  u_Inodes :: int
  u_Size :: int

text \<open>\<^verbatim>\<open>snapshots.Opt\<close>: a function that edits an Info and may fail.\<close>

type_synonym snap_opt = "info \<Rightarrow> info \<times> gerr option"

text \<open>A point in time, by its UTC calendar fields.\<close>

record utc_time =
  t_year :: nat
  t_month :: nat
  t_day :: nat
  t_hour :: nat
  t_minute :: nat
  t_second :: nat

record lease =
  l_ID :: string
  l_CreatedAt :: utc_time
  l_Labels :: labels

record lease_resource =
  r_ID :: string
  r_Type :: string

datatype lease_opt = WithRandomID | WithLabels labels

text \<open>A container handle of the containerd client, by its ID.\<close>

type_synonym container = string

record container_info =
  c_Labels :: labels
  c_SandboxID :: string


section \<open>Interfaces\<close>

text \<open>\<^verbatim>\<open>snapshots.Snapshotter\<close>\<close>

record 'w snapshotter_api =
  sn_Stat :: "ctx \<Rightarrow> string \<Rightarrow> ('w, gerr + info) state"
  sn_Update :: "ctx \<Rightarrow> info \<Rightarrow> string list \<Rightarrow> ('w, gerr + info) state"
  sn_Usage :: "ctx \<Rightarrow> string \<Rightarrow> ('w, gerr + usage) state"
  sn_Mounts :: "ctx \<Rightarrow> string \<Rightarrow> ('w, gerr + mount list) state"
  sn_Prepare :: "ctx \<Rightarrow> string \<Rightarrow> string \<Rightarrow> snap_opt list \<Rightarrow> ('w, gerr + mount list) state"
  sn_View :: "ctx \<Rightarrow> string \<Rightarrow> string \<Rightarrow> snap_opt list \<Rightarrow> ('w, gerr + mount list) state"
  sn_Commit :: "ctx \<Rightarrow> string \<Rightarrow> string \<Rightarrow> snap_opt list \<Rightarrow> ('w, gerr option) state"
  sn_Remove :: "ctx \<Rightarrow> string \<Rightarrow> ('w, gerr option) state"
  sn_Walk :: "ctx \<Rightarrow> (ctx \<Rightarrow> info \<Rightarrow> gerr option) \<Rightarrow> string list \<Rightarrow> ('w, gerr option) state"
  sn_Close :: "('w, gerr option) state"

text \<open>\<^verbatim>\<open>leases.Manager\<close>\<close>

record 'w leases_api =
  ls_Create :: "ctx \<Rightarrow> lease_opt list \<Rightarrow> ('w, gerr + lease) state"
  ls_AddResource :: "ctx \<Rightarrow> lease \<Rightarrow> lease_resource \<Rightarrow> ('w, gerr option) state"
  ls_Delete :: "ctx \<Rightarrow> lease \<Rightarrow> ('w, gerr option) state"
  ls_List :: "ctx \<Rightarrow> string \<Rightarrow> ('w, gerr + lease list) state"

text \<open>\<^verbatim>\<open>containerd.Client\<close>\<close>

record 'w client =
  cl_Containers :: "ctx \<Rightarrow> string \<Rightarrow> ('w, gerr + container list) state"
  cl_Info :: "ctx \<Rightarrow> container \<Rightarrow> ('w, gerr + container_info) state"
  cl_Extensions :: "ctx \<Rightarrow> container \<Rightarrow> ('w, gerr + (string, string) gomap) state"
  cl_SnapshotService :: "string \<Rightarrow> 'w snapshotter_api"
  cl_LeasesService :: "'w leases_api"
  cl_Close :: "('w, gerr option) state"

text \<open>The packages os and syscall, and reading and appending to a file.\<close>

record 'w os_api =
  os_Stat :: "string \<Rightarrow> ('w, gerr option) state"
  sys_Stat_Dev :: "string \<Rightarrow> ('w, gerr + nat) state"
  os_MkdirAll :: "string \<Rightarrow> nat \<Rightarrow> ('w, gerr option) state"
  os_RemoveAll :: "string \<Rightarrow> ('w, gerr option) state"
  os_Symlink :: "string \<Rightarrow> string \<Rightarrow> ('w, gerr option) state"


section \<open>The state of the daemon\<close>

text \<open>
  The daemon's own state is its three Prometheus metrics (service.go); everything else it
  acts on is in the world. The gauge pv_snapshotter_pinned_snapshots_total may go below
  zero, so it is an integer.
\<close>

record 'w node =
  world :: 'w
  pinnedSnapshotsTotal :: int
  unpinFailuresTotal :: nat
  orphanLeasesTotal :: int

text \<open>An operation on the world, run by the daemon.\<close>

definition ext :: "('w, 'a) state \<Rightarrow> ('w node, 'a) state" where
  "ext m = State (\<lambda>s. case run_state m (world s) of (a, w) \<Rightarrow> (a, s\<lparr>world := w\<rparr>))"

definition pinned_Inc :: "('w node, unit) state" where
  "pinned_Inc = State (\<lambda>s. ((), s\<lparr>pinnedSnapshotsTotal := pinnedSnapshotsTotal s + 1\<rparr>))"

definition pinned_Dec :: "('w node, unit) state" where
  "pinned_Dec = State (\<lambda>s. ((), s\<lparr>pinnedSnapshotsTotal := pinnedSnapshotsTotal s - 1\<rparr>))"

definition unpinFailures_Inc :: "('w node, unit) state" where
  "unpinFailures_Inc = State (\<lambda>s. ((), s\<lparr>unpinFailuresTotal := unpinFailuresTotal s + 1\<rparr>))"

definition orphanLeases_Set :: "int \<Rightarrow> ('w node, unit) state" where
  "orphanLeases_Set n = State (\<lambda>s. ((), s\<lparr>orphanLeasesTotal := n\<rparr>))"

lemma run_ext [go_run]:
  "run_state (ext m) s = (case run_state m (world s) of (a, w) \<Rightarrow> (a, s\<lparr>world := w\<rparr>))"
  by (simp add: ext_def)

lemma run_metrics [go_run]:
  "run_state pinned_Inc s = ((), s\<lparr>pinnedSnapshotsTotal := pinnedSnapshotsTotal s + 1\<rparr>)"
  "run_state pinned_Dec s = ((), s\<lparr>pinnedSnapshotsTotal := pinnedSnapshotsTotal s - 1\<rparr>)"
  "run_state unpinFailures_Inc s = ((), s\<lparr>unpinFailuresTotal := unpinFailuresTotal s + 1\<rparr>)"
  "run_state (orphanLeases_Set n) s = ((), s\<lparr>orphanLeasesTotal := n\<rparr>)"
  by (simp_all add: pinned_Inc_def pinned_Dec_def unpinFailures_Inc_def orphanLeases_Set_def)

text \<open>An operation that only reads: it leaves the world as it is.\<close>

definition read_only :: "('w, 'a) state \<Rightarrow> bool" where
  "read_only m \<longleftrightarrow> (\<forall>w. snd (run_state m w) = w)"

lemma read_onlyD: "read_only m \<Longrightarrow> run_state m w = (fst (run_state m w), w)"
  by (metis prod.collapse read_only_def)



section \<open>Frames\<close>

text \<open>
  An operation keeps what is observed of the world by \<open>obs\<close>. The rules of the collection
  \<open>frames\<close> reduce that for a composed operation to its external calls.
\<close>

named_theorems frames

definition keeps :: "('w \<Rightarrow> 'k) \<Rightarrow> ('w, 'a) state \<Rightarrow> bool" where
  "keeps obs m \<longleftrightarrow> (\<forall>w. obs (snd (run_state m w)) = obs w)"

lemma keepsD: "keeps obs m \<Longrightarrow> run_state m w = (a, w') \<Longrightarrow> obs w' = obs w"
  by (metis keeps_def snd_conv)

lemma keeps_return [simp, frames]: "keeps obs (State_Monad.return a)"
  by (simp add: keeps_def go_run)

lemma keeps_bind [frames]: "keeps obs m \<Longrightarrow> (\<And>a. keeps obs (f a)) \<Longrightarrow> keeps obs (State_Monad.bind m f)"
  unfolding keeps_def go_run by (metis (no_types, lifting) prod.case prod.collapse)

lemma keeps_if [frames]: "(b \<Longrightarrow> keeps obs m) \<Longrightarrow> (\<not> b \<Longrightarrow> keeps obs n) \<Longrightarrow> keeps obs (if b then m else n)"
  by simp

lemma keeps_option [frames]:
  "(x = None \<Longrightarrow> keeps obs m) \<Longrightarrow> (\<And>a. x = Some a \<Longrightarrow> keeps obs (f a)) \<Longrightarrow>
   keeps obs (case x of None \<Rightarrow> m | Some a \<Rightarrow> f a)"
  by (cases x) auto

lemma keeps_sum [frames]:
  "(\<And>a. x = Inl a \<Longrightarrow> keeps obs (f a)) \<Longrightarrow> (\<And>b. x = Inr b \<Longrightarrow> keeps obs (g b)) \<Longrightarrow>
   keeps obs (case x of Inl a \<Rightarrow> f a | Inr b \<Rightarrow> g b)"
  by (cases x) auto

lemma keeps_prod [frames]: "(\<And>a b. x = (a, b) \<Longrightarrow> keeps obs (f a b)) \<Longrightarrow> keeps obs (case x of (a, b) \<Rightarrow> f a b)"
  by (cases x) auto

lemma keeps_list [frames]:
  "(x = [] \<Longrightarrow> keeps obs m) \<Longrightarrow> (\<And>a as. x = a # as \<Longrightarrow> keeps obs (f a as)) \<Longrightarrow>
   keeps obs (case x of [] \<Rightarrow> m | a # as \<Rightarrow> f a as)"
  by (cases x) auto

lemma keeps_let [frames]: "(\<And>a. a = x \<Longrightarrow> keeps obs (f a)) \<Longrightarrow> keeps obs (let a = x in f a)"
  by simp

lemma keeps_ext [frames]: "keeps obs m \<Longrightarrow> keeps (\<lambda>s. obs (world s)) (ext m)"
  by (simp add: keeps_def go_run split_beta)

lemma keeps_read_only: "read_only m \<Longrightarrow> keeps obs m"
  by (simp add: keeps_def read_only_def)

text \<open>The world apart, an operation on it leaves the metrics alone.\<close>

lemma keeps_gauge_ext [frames]: "keeps pinnedSnapshotsTotal (ext m)"
  by (simp add: keeps_def go_run split_beta)

end
