(* ===== verification/Resolver.thy ===== *)
theory Resolver
  imports Annotation Go_Template Host_API
begin

text \<open>
  pkg/containerd/snapshotter/resolver.go: from the key of an active snapshot to the upperdir
  path its pod asks for.

  The container records come from the containerd client (\<open>'w client\<close>); the JSON decoder of
  the sandbox extension and the template package are parameters. Log output is not modelled.
\<close>


section \<open>Definitions\<close>

definition annotationSuffixUpperdirPath :: string where
  "annotationSuffixUpperdirPath = ''upperdir-path''"
definition annotationSuffixUpperdirPathTemplate :: string where
  "annotationSuffixUpperdirPathTemplate = ''upperdir-path-template''"
definition annotationSuffixVarSubPrefix :: string where
  "annotationSuffixVarSubPrefix = ''var.''"
definition criSandboxMetadataExtension :: string where
  "criSandboxMetadataExtension = ''io.cri-containerd.sandbox.metadata''"
definition criKindLabel :: string where "criKindLabel = ''io.cri-containerd.kind''"
definition criKindSandbox :: string where "criKindSandbox = ''sandbox''"
definition criKindContainer :: string where "criKindContainer = ''container''"
definition containerdNamespaceK8s :: string where "containerdNamespaceK8s = ''k8s.io''"

lemmas resolver_consts =
  annotationSuffixUpperdirPath_def annotationSuffixUpperdirPathTemplate_def
  annotationSuffixVarSubPrefix_def criSandboxMetadataExtension_def criKindLabel_def
  criKindSandbox_def criKindContainer_def containerdNamespaceK8s_def

record podObjectMeta =
  om_Name :: string
  om_UID :: string
  om_Namespace :: string

record podSandboxConfig =
  psc_Metadata :: "podObjectMeta option"
  psc_Annotations :: "(string, string) gomap"

record sandboxMetadataInner =
  smi_Config :: "podSandboxConfig option"

record sandboxMetadata =
  sm_Metadata :: sandboxMetadataInner

record 'w resolver =
  res_client :: "'w client"
  keyLiteral :: string
  keyTemplate :: string
  keyVarPrefix :: string

definition newResolver ::
  "(string \<Rightarrow> string list) \<Rightarrow> (string \<Rightarrow> string) \<Rightarrow> 'w client \<Rightarrow> gerr + 'w resolver" where
  "newResolver isDNS1123Subdomain getString cl =
     (case ResolvePrefix isDNS1123Subdomain getString of
        Inl err \<Rightarrow> Inl err
      | Inr prefix \<Rightarrow>
          Inr \<lparr>res_client = cl,
               keyLiteral = Key prefix annotationSuffixUpperdirPath,
               keyTemplate = Key prefix annotationSuffixUpperdirPathTemplate,
               keyVarPrefix = Key prefix annotationSuffixVarSubPrefix\<rparr>)"

definition parseSnapshotKey :: "string \<Rightarrow> (string \<times> string) option" where
  "parseSnapshotKey key =
     (case split_n 3 key (CHR ''/'') of
        [ns, _, containerID] \<Rightarrow>
          if contains containerID '' '' \<or> has_prefix containerID ''extract-'' then None
          else Some (ns, containerID)
      | _ \<Rightarrow> None)"

text \<open>The custom fields of the template data, in the iteration order of the annotations.\<close>

fun collectVars ::
  "string \<Rightarrow> (string, string) gomap \<Rightarrow> (string, string) gomap \<Rightarrow> (string, string) gomap" where
  "collectVars varPrefix [] data = data"
| "collectVars varPrefix ((k, v) # annotations) data =
     (if \<not> has_prefix k varPrefix then collectVars varPrefix annotations data
      else collectVars varPrefix annotations (map_put data (trim_prefix k varPrefix) v))"

definition templateVars :: "'w resolver \<Rightarrow> podSandboxConfig \<Rightarrow> (string, string) gomap" where
  "templateVars r cfg =
     (let data = (case psc_Metadata cfg of
                    None \<Rightarrow> []
                  | Some md \<Rightarrow> map_put (map_put (map_put [] ''PodUID'' (om_UID md))
                                  ''PodName'' (om_Name md)) ''PodNamespace'' (om_Namespace md))
      in collectVars (keyVarPrefix r) (psc_Annotations cfg) data)"

definition renderUpperdirTemplate ::
  "('t, (string, string) gomap) text_template \<Rightarrow> 'w resolver \<Rightarrow> string \<Rightarrow> podSandboxConfig \<Rightarrow>
   string \<Rightarrow> string \<times> gerr option" where
  "renderUpperdirTemplate T r tmplStr cfg key =
     (case tt_Parse T tmplStr of
        Inl err \<Rightarrow> ([], Some (Wrapf ''parsing upperdir-path-template (key=%s): %w'' [key] err))
      | Inr tmpl \<Rightarrow>
          (case tt_Execute T tmpl (templateVars r cfg) of
             Inl err \<Rightarrow> ([], Some (Wrapf ''rendering upperdir-path-template (key=%s): %w'' [key] err))
           | Inr result \<Rightarrow> (result, None)))"

text \<open>The annotations of a decoded sandbox record: the literal path first, then the template.\<close>

definition upperdirFromConfig ::
  "('t, (string, string) gomap) text_template \<Rightarrow> 'w resolver \<Rightarrow> podSandboxConfig \<Rightarrow>
   string \<Rightarrow> string \<times> gerr option" where
  "upperdirFromConfig T r cfg key =
     (let v = map_get (psc_Annotations cfg) (keyLiteral r) in
      if v \<noteq> [] then (v, None)
      else let tmplStr = map_get (psc_Annotations cfg) (keyTemplate r) in
      if tmplStr = [] then ([], None)
      else renderUpperdirTemplate T r tmplStr cfg key)"

definition upperdirFromSandboxContainer ::
  "('t, (string, string) gomap) text_template \<Rightarrow> (string \<Rightarrow> gerr + sandboxMetadata) \<Rightarrow>
   'w resolver \<Rightarrow> ctx \<Rightarrow> container \<Rightarrow> string \<Rightarrow> ('w, string \<times> gerr option) state" where
  "upperdirFromSandboxContainer T unmarshal r ctx ctr key =
     do {
       x \<leftarrow> cl_Extensions (res_client r) ctx ctr;
       case x of
         Inl err \<Rightarrow>
           State_Monad.return ([], Some (Wrapf ''reading extensions for sandbox (key=%s): %w'' [key] err))
       | Inr exts \<Rightarrow>
           (case map_of exts criSandboxMetadataExtension of
              None \<Rightarrow> State_Monad.return ([], None)
            | Some raw \<Rightarrow>
                (case unmarshal raw of
                   Inl err \<Rightarrow>
                     State_Monad.return
                       ([], Some (Wrapf ''unmarshaling sandbox metadata (key=%s): %w'' [key] err))
                 | Inr meta \<Rightarrow>
                     (case smi_Config (sm_Metadata meta) of
                        None \<Rightarrow> State_Monad.return ([], None)
                      | Some cfg \<Rightarrow> State_Monad.return (upperdirFromConfig T r cfg key))))
     }"

definition upperdirFromSandboxID ::
  "('t, (string, string) gomap) text_template \<Rightarrow> (string \<Rightarrow> gerr + sandboxMetadata) \<Rightarrow>
   'w resolver \<Rightarrow> ctx \<Rightarrow> string \<Rightarrow> string \<Rightarrow> ('w, string \<times> gerr option) state" where
  "upperdirFromSandboxID T unmarshal r ctx sandboxID key =
     do {
       x \<leftarrow> cl_Containers (res_client r) ctx (''id=='' @ sandboxID);
       case x of
         Inl err \<Rightarrow>
           State_Monad.return ([], Some (Wrapf ''querying sandbox container %s: %w'' [sandboxID] err))
       | Inr [] \<Rightarrow> State_Monad.return ([], None)
       | Inr (ctr # _) \<Rightarrow> upperdirFromSandboxContainer T unmarshal r ctx ctr key
     }"

definition resolveAtMountsTime ::
  "('t, (string, string) gomap) text_template \<Rightarrow> (string \<Rightarrow> gerr + sandboxMetadata) \<Rightarrow>
   'w resolver \<Rightarrow> string \<Rightarrow> ('w, string \<times> gerr option) state" where
  "resolveAtMountsTime T unmarshal r key =
     (case parseSnapshotKey key of
        None \<Rightarrow> State_Monad.return ([], None)
      | Some (ns, containerID) \<Rightarrow>
          do {
            let nsCtx = WithNamespace ns;
            x \<leftarrow> cl_Containers (res_client r) nsCtx (''id=='' @ containerID);
            case x of
              Inl err \<Rightarrow>
                State_Monad.return ([], Some (Wrapf ''querying container %s: %w'' [containerID] err))
            | Inr [] \<Rightarrow> State_Monad.return ([], None)
            | Inr (ctr # _) \<Rightarrow> do {
                y \<leftarrow> cl_Info (res_client r) nsCtx ctr;
                case y of
                  Inl err \<Rightarrow>
                    State_Monad.return
                      ([], Some (Wrapf ''getting container info %s: %w'' [containerID] err))
                | Inr info \<Rightarrow>
                    (let kind = map_get (c_Labels info) criKindLabel in
                     if kind = criKindSandbox then State_Monad.return ([], None)
                     else if kind = criKindContainer then
                       (if c_SandboxID info = [] then State_Monad.return ([], None)
                        else upperdirFromSandboxID T unmarshal r nsCtx (c_SandboxID info) key)
                     else State_Monad.return ([], None))
              }
          })"

end
