(* ===== verification/Dedup.thy ===== *)
theory Dedup
  imports Resolver
begin

text \<open>
  pkg/containerd/snapshotter/dedup.go: sharing of read-only layers with the host's overlayfs
  snapshotter (reference snapshots) and the containerd leases that pin the shared layers.

  The operations act on the daemon's state (\<open>'w node\<close>): the metrics of service.go and the
  world behind the containerd client, the local snapshotter and the operating system. The
  mutex of the manager is the subject of the theory on concurrent materialisation; here a
  call runs on its own.
\<close>


section \<open>Definitions\<close>

definition leaseLabelOwnerKey :: string where
  "leaseLabelOwnerKey = ''pv-snapshotter.io/owner-snapshot''"
definition leaseLabelManagedBy :: string where
  "leaseLabelManagedBy = ''pv-snapshotter.io/managed-by''"
definition leaseLabelManagedByValue :: string where
  "leaseLabelManagedByValue = ''pv-snapshotter''"
definition overlayfsSnapshotterName :: string where
  "overlayfsSnapshotterName = ''overlayfs''"

lemmas dedup_consts =
  leaseLabelOwnerKey_def leaseLabelManagedBy_def leaseLabelManagedByValue_def
  overlayfsSnapshotterName_def

record 'w dedupManager =
  dm_nodeName :: string
  dm_client :: "'w client"
  dm_localSn :: "'w snapshotter_api"

definition newDedupManager :: "string \<Rightarrow> 'w client \<Rightarrow> 'w snapshotter_api \<Rightarrow> 'w dedupManager" where
  "newDedupManager nodeName cl localSn =
     \<lparr>dm_nodeName = nodeName, dm_client = cl, dm_localSn = localSn\<rparr>"


subsection \<open>Layer paths\<close>

fun firstLowerdir :: "string list \<Rightarrow> string option" where
  "firstLowerdir [] = None"
| "firstLowerdir (opt # opts) =
     (case cut_prefix opt ''lowerdir='' of
        Some after \<Rightarrow> Some (fst (str_cut after (CHR '':'')))
      | None \<Rightarrow> firstLowerdir opts)"

text \<open>\<open>None\<close> is the panic of \<^verbatim>\<open>mounts[0]\<close> on an empty slice.\<close>

definition layerPathFromMounts :: "mount list \<Rightarrow> (gerr + string) option" where
  "layerPathFromMounts mounts =
     (case mounts of
        [] \<Rightarrow> None
      | m # _ \<Rightarrow>
          Some
           (if m_Type m = ''overlay'' then
              (case firstLowerdir (m_Options m) of
                 Some first \<Rightarrow> Inr first
               | None \<Rightarrow> Inl (Errorf ''overlay mount missing lowerdir option: %v'' (m_Options m)))
            else if m_Type m = ''bind'' then Inr (m_Source m)
            else Inl (Errorf ''unexpected mount type %q for probe view'' [m_Type m])))"

fun firstUpperdir :: "string list \<Rightarrow> string option" where
  "firstUpperdir [] = None"
| "firstUpperdir (opt # opts) =
     (case cut_prefix opt ''upperdir='' of
        Some after \<Rightarrow> Some after
      | None \<Rightarrow> firstUpperdir opts)"

definition upperdirFromMounts :: "mount list \<Rightarrow> gerr + string" where
  "upperdirFromMounts mounts =
     (case mounts of
        [] \<Rightarrow> Inl (Errorf ''no mounts'' [])
      | m # _ \<Rightarrow>
          (case firstUpperdir (m_Options m) of
             Some after \<Rightarrow> Inr after
           | None \<Rightarrow> Inl (Errorf ''no upperdir option in mounts: %v'' (m_Options m))))"

text \<open>\<open>Inr []\<close> is the result \<^verbatim>\<open>("", nil)\<close> of a miss; the outer \<open>None\<close> a panic.\<close>

definition overlayfsLayerPath ::
  "'w dedupManager \<Rightarrow> string \<Rightarrow> string \<Rightarrow> ('w, (gerr + string) option) state" where
  "overlayfsLayerPath m ns chainID =
     do {
       let nsCtx = WithNamespace ns;
       let ovlSvc = cl_SnapshotService (dm_client m) overlayfsSnapshotterName;
       st \<leftarrow> sn_Stat ovlSvc nsCtx chainID;
       case st of
         Inl _ \<Rightarrow> State_Monad.return (Some (Inr []))
       | Inr _ \<Rightarrow> do {
           let viewKey = ''pv-snapshotter-probe-'' @ chainID;
           v \<leftarrow> sn_View ovlSvc nsCtx viewKey chainID [];
           case v of
             Inl viewErr \<Rightarrow>
               State_Monad.return
                 (Some (Inl (Wrapf ''creating probe view for chainID %s: %w'' [chainID] viewErr)))
           | Inr mounts \<Rightarrow> do {
               let res = (if length mounts = 0 then
                            Some (Inl (Errorf ''no mounts returned for probe view of chainID %s'' [chainID]))
                          else layerPathFromMounts mounts);
               _ \<leftarrow> sn_Remove ovlSvc nsCtx viewKey;
               State_Monad.return res
             }
         }
     }"


subsection \<open>Reference snapshots\<close>

definition replaceWithSymlink :: "'w os_api \<Rightarrow> string \<Rightarrow> string \<Rightarrow> ('w, gerr option) state" where
  "replaceWithSymlink os path target =
     do {
       e \<leftarrow> os_RemoveAll os path;
       case e of
         Some err \<Rightarrow> State_Monad.return (Some (Wrapf ''removing %s: %w'' [path] err))
       | None \<Rightarrow> do {
           e' \<leftarrow> os_Symlink os target path;
           case e' of
             Some err \<Rightarrow> State_Monad.return (Some (Wrapf ''symlinking %s to %s: %w'' [path, target] err))
           | None \<Rightarrow> State_Monad.return None
         }
     }"

definition refTmpKey :: "string \<Rightarrow> string" where
  "refTmpKey chainID = ''pv-snapshotter-ref-tmp-'' @ chainID"

text \<open>Best-effort removal of the temporary snapshot, then the error of the failed step.\<close>

definition abandonReference ::
  "'w dedupManager \<Rightarrow> ctx \<Rightarrow> string \<Rightarrow> gerr \<Rightarrow> ('w, gerr option) state" where
  "abandonReference m ctx tmpKey err =
     do {
       _ \<leftarrow> sn_Remove (dm_localSn m) ctx tmpKey;
       State_Monad.return (Some err)
     }"

definition materializeReference ::
  "'w os_api \<Rightarrow> 'w dedupManager \<Rightarrow> ctx \<Rightarrow> string \<Rightarrow> string \<Rightarrow> string \<Rightarrow> ('w, gerr option) state" where
  "materializeReference os m ctx chainID parent ovlLayerPath =
     do {
       let tmpKey = refTmpKey chainID;
       p \<leftarrow> sn_Prepare (dm_localSn m) ctx tmpKey parent [];
       case p of
         Inl err \<Rightarrow>
           State_Monad.return (Some (Wrapf ''preparing reference snapshot for chainID %s: %w'' [chainID] err))
       | Inr _ \<Rightarrow> do {
           lm \<leftarrow> sn_Mounts (dm_localSn m) ctx tmpKey;
           case lm of
             Inl err \<Rightarrow>
               abandonReference m ctx tmpKey
                 (Wrapf ''getting local mounts for tmp reference %s: %w'' [tmpKey] err)
           | Inr localMounts \<Rightarrow>
               (case upperdirFromMounts localMounts of
                  Inl err \<Rightarrow>
                    abandonReference m ctx tmpKey
                      (Wrapf ''extracting upperdir from local mounts for %s: %w'' [tmpKey] err)
                | Inr localFSPath \<Rightarrow> do {
                    e \<leftarrow> replaceWithSymlink os localFSPath ovlLayerPath;
                    case e of
                      Some err \<Rightarrow>
                        abandonReference m ctx tmpKey
                          (Wrapf ''creating symlink %s to %s: %w'' [localFSPath, ovlLayerPath] err)
                    | None \<Rightarrow> do {
                        c \<leftarrow> sn_Commit (dm_localSn m) ctx chainID tmpKey [];
                        case c of
                          Some err \<Rightarrow>
                            abandonReference m ctx tmpKey
                              (Wrapf ''committing reference snapshot for chainID %s: %w'' [chainID] err)
                        | None \<Rightarrow> State_Monad.return None
                      }
                  })
         }
     }"

definition is_hex :: "char \<Rightarrow> bool" where
  "is_hex c = (\<not> ((c < CHR ''0'' \<or> c > CHR ''9'') \<and> (c < CHR ''a'' \<or> c > CHR ''f'')))"

definition isChainID :: "string \<Rightarrow> bool" where
  "isChainID s =
     (case cut_prefix s ''sha256:'' of
        None \<Rightarrow> False
      | Some hex \<Rightarrow> if length hex \<noteq> 64 then False else list_all is_hex hex)"

definition resolveParentChainID ::
  "'w dedupManager \<Rightarrow> string \<Rightarrow> string \<Rightarrow> ('w, gerr + string) state" where
  "resolveParentChainID m ns chainID =
     do {
       st \<leftarrow> sn_Stat (cl_SnapshotService (dm_client m) overlayfsSnapshotterName) (WithNamespace ns) chainID;
       State_Monad.return (case st of Inl err \<Rightarrow> Inl err | Inr info \<Rightarrow> Inr (i_Parent info))
     }"

text \<open>The part of statWithLazyMaterialise that runs with the mutex held.\<close>

definition materialiseLocked ::
  "'w os_api \<Rightarrow> 'w dedupManager \<Rightarrow> ctx \<Rightarrow> string \<Rightarrow> string \<Rightarrow> string \<Rightarrow> 'w snapshotter_api \<Rightarrow>
   ('w, gerr + info) state" where
  "materialiseLocked os m ctx ns key ovlPath localSn =
     do {
       st \<leftarrow> sn_Stat localSn ctx key;
       case st of
         Inr info \<Rightarrow> State_Monad.return (Inr info)
       | Inl _ \<Rightarrow> do {
           pr \<leftarrow> resolveParentChainID m ns key;
           let parent = (case pr of Inl _ \<Rightarrow> [] | Inr parentInfo \<Rightarrow> parentInfo);
           e \<leftarrow> materializeReference os m ctx key parent ovlPath;
           case e of
             Some err \<Rightarrow> State_Monad.return (Inl (Wrapf ''materialising reference for %s: %w'' [key] err))
           | None \<Rightarrow> sn_Stat localSn ctx key
         }
     }"

text \<open>The outer \<open>None\<close> is a panic of \<open>overlayfsLayerPath\<close>; it does not happen, as a lemma below shows.\<close>

definition statWithLazyMaterialise ::
  "'w os_api \<Rightarrow> 'w dedupManager \<Rightarrow> ctx \<Rightarrow> string \<Rightarrow> 'w snapshotter_api \<Rightarrow>
   ('w, (gerr + info) option) state" where
  "statWithLazyMaterialise os m ctx key localSn =
     (if \<not> isChainID key then State_Monad.return (Some (Inl (Errorf ''not a chainID: %s'' [key])))
      else do {
        let ns = Namespace ctx;
        let ns = (if ns = [] then containerdNamespaceK8s else ns);
        p \<leftarrow> overlayfsLayerPath m ns key;
        case p of
          None \<Rightarrow> State_Monad.return None
        | Some (Inl err) \<Rightarrow>
            State_Monad.return
              (Some (Inl (Wrapf ''resolving overlayfs layer path for %s: %w'' [key] err)))
        | Some (Inr ovlPath) \<Rightarrow>
            if ovlPath = [] then
              State_Monad.return
                (Some (Inl (Errorf ''chainID %s not found in overlayfs (dedup miss)'' [key])))
            else do {
              r \<leftarrow> materialiseLocked os m ctx ns key ovlPath localSn;
              State_Monad.return (Some r)
            }
      })"


subsection \<open>Leases\<close>

definition labelFilter :: "string \<Rightarrow> string \<Rightarrow> string" where
  "labelFilter k v = ''labels.'' @ quote k @ ''=='' @ quote v"

definition pinLayer ::
  "'w dedupManager \<Rightarrow> string \<Rightarrow> string \<Rightarrow> string \<Rightarrow> ('w node, gerr + lease) state" where
  "pinLayer m ns chainID activeSnapshotKey =
     do {
       let nsCtx = WithNamespace ns;
       let leaseSvc = cl_LeasesService (dm_client m);
       r \<leftarrow> ext (ls_Create leaseSvc nsCtx
              [WithRandomID,
               WithLabels [(leaseLabelManagedBy, leaseLabelManagedByValue),
                           (leaseLabelOwnerKey, activeSnapshotKey)]]);
       case r of
         Inl err \<Rightarrow>
           State_Monad.return
             (Inl (Wrapf ''creating dedup lease for chainID %s (owner=%s): %w''
                     [chainID, activeSnapshotKey] err))
       | Inr l \<Rightarrow> do {
           let res = \<lparr>r_ID = chainID, r_Type = ''snapshots/'' @ overlayfsSnapshotterName\<rparr>;
           e \<leftarrow> ext (ls_AddResource leaseSvc nsCtx l res);
           case e of
             Some err \<Rightarrow> do {
               _ \<leftarrow> ext (ls_Delete leaseSvc nsCtx l);
               State_Monad.return
                 (Inl (Wrapf ''adding snapshot resource to dedup lease (owner=%s): %w''
                         [activeSnapshotKey] err))
             }
           | None \<Rightarrow> do { _ \<leftarrow> pinned_Inc; State_Monad.return (Inr l) }
         }
     }"

fun unpinLeases :: "'w leases_api \<Rightarrow> ctx \<Rightarrow> lease list \<Rightarrow> ('w node, unit) state" where
  "unpinLeases leaseSvc nsCtx [] = State_Monad.return ()"
| "unpinLeases leaseSvc nsCtx (l # ls) =
     do {
       e \<leftarrow> ext (ls_Delete leaseSvc nsCtx l);
       _ \<leftarrow> (case e of Some _ \<Rightarrow> unpinFailures_Inc | None \<Rightarrow> pinned_Dec);
       unpinLeases leaseSvc nsCtx ls
     }"

definition unpinByActiveKey :: "'w dedupManager \<Rightarrow> string \<Rightarrow> string \<Rightarrow> ('w node, unit) state" where
  "unpinByActiveKey m ns activeSnapshotKey =
     do {
       let nsCtx = WithNamespace ns;
       let leaseSvc = cl_LeasesService (dm_client m);
       r \<leftarrow> ext (ls_List leaseSvc nsCtx (labelFilter leaseLabelOwnerKey activeSnapshotKey));
       case r of
         Inl _ \<Rightarrow> State_Monad.return ()
       | Inr ls \<Rightarrow>
           if length ls = 0 then State_Monad.return ()
           else unpinLeases leaseSvc nsCtx ls
     }"

definition listManagedLeases :: "'w dedupManager \<Rightarrow> string \<Rightarrow> ('w, gerr + lease list) state" where
  "listManagedLeases m ns =
     ls_List (cl_LeasesService (dm_client m)) (WithNamespace ns)
       (labelFilter leaseLabelManagedBy leaseLabelManagedByValue)"

text \<open>\<^verbatim>\<open>leases.Lease{ID: leaseID}\<close>: the other fields are zero values.\<close>

definition leaseOfID :: "string \<Rightarrow> lease" where
  "leaseOfID leaseID =
     \<lparr>l_ID = leaseID,
      l_CreatedAt = \<lparr>t_year = 1, t_month = 1, t_day = 1, t_hour = 0, t_minute = 0, t_second = 0\<rparr>,
      l_Labels = []\<rparr>"

definition deleteLease :: "'w dedupManager \<Rightarrow> string \<Rightarrow> string \<Rightarrow> ('w node, gerr option) state" where
  "deleteLease m ns leaseID =
     do {
       e \<leftarrow> ext (ls_Delete (cl_LeasesService (dm_client m)) (WithNamespace ns) (leaseOfID leaseID));
       case e of
         Some err \<Rightarrow> State_Monad.return (Some (Wrapf ''deleting lease %s: %w'' [leaseID] err))
       | None \<Rightarrow> do { _ \<leftarrow> pinned_Dec; State_Monad.return None }
     }"

fun countOrphans :: "'w snapshotter_api \<Rightarrow> ctx \<Rightarrow> lease list \<Rightarrow> nat \<Rightarrow> ('w, nat) state" where
  "countOrphans localSn ctx [] count = State_Monad.return count"
| "countOrphans localSn ctx (l # ls) count =
     (let ownerKey = map_get (l_Labels l) leaseLabelOwnerKey in
      if ownerKey = [] then countOrphans localSn ctx ls count
      else do {
        st \<leftarrow> sn_Stat localSn ctx ownerKey;
        countOrphans localSn ctx ls (case st of Inl _ \<Rightarrow> count + 1 | Inr _ \<Rightarrow> count)
      })"

definition countOrphanLeases :: "'w dedupManager \<Rightarrow> ctx \<Rightarrow> string \<Rightarrow> ('w, nat) state" where
  "countOrphanLeases m ctx ns =
     do {
       r \<leftarrow> ls_List (cl_LeasesService (dm_client m)) (WithNamespace ns)
              (labelFilter leaseLabelManagedBy leaseLabelManagedByValue);
       case r of
         Inl _ \<Rightarrow> State_Monad.return 0
       | Inr ls \<Rightarrow> countOrphans (dm_localSn m) ctx ls 0
     }"

fun gcOrphans ::
  "'w dedupManager \<Rightarrow> ctx \<Rightarrow> ctx \<Rightarrow> lease list \<Rightarrow> nat \<Rightarrow> ('w node, nat) state" where
  "gcOrphans m ctx nsCtx [] deleted = State_Monad.return deleted"
| "gcOrphans m ctx nsCtx (l # ls) deleted =
     (let ownerKey = map_get (l_Labels l) leaseLabelOwnerKey in
      if ownerKey = [] then gcOrphans m ctx nsCtx ls deleted
      else do {
        st \<leftarrow> ext (sn_Stat (dm_localSn m) ctx ownerKey);
        case st of
          Inr _ \<Rightarrow> gcOrphans m ctx nsCtx ls deleted
        | Inl _ \<Rightarrow> do {
            e \<leftarrow> ext (ls_Delete (cl_LeasesService (dm_client m)) nsCtx l);
            case e of
              Some _ \<Rightarrow> gcOrphans m ctx nsCtx ls deleted
            | None \<Rightarrow> do { _ \<leftarrow> pinned_Dec; gcOrphans m ctx nsCtx ls (deleted + 1) }
          }
      })"

definition gcOrphanLeases :: "'w dedupManager \<Rightarrow> ctx \<Rightarrow> string \<Rightarrow> ('w node, nat) state" where
  "gcOrphanLeases m ctx ns =
     do {
       let nsCtx = WithNamespace ns;
       r \<leftarrow> ext (ls_List (cl_LeasesService (dm_client m)) nsCtx
                  (labelFilter leaseLabelManagedBy leaseLabelManagedByValue));
       case r of
         Inl _ \<Rightarrow> State_Monad.return 0
       | Inr ls \<Rightarrow> gcOrphans m ctx nsCtx ls 0
     }"

end
