(* ===== verification/Mount_Options.thy ===== *)
theory Mount_Options
  imports Host_API
begin

text \<open>
  pkg/containerd/snapshotter/mount.go: the check that a redirect target is a mounted volume,
  the creation of its upper/ and work/ directories, and the rewriting of the overlay mount
  options.
\<close>


section \<open>Definitions\<close>

text \<open>The parent of the upperdir root, as the lines after \<^verbatim>\<open>syscall.Stat\<close> derive it.\<close>

definition parentPath :: "string \<Rightarrow> string" where
  "parentPath upperdirRoot =
     (let parent = trim_right upperdirRoot (CHR ''/'');
          idx = last_index parent (CHR ''/'');
          parent = (if idx \<ge> 0 then take (nat idx) parent else parent)
      in if parent = [] then ''/'' else parent)"

fun makeSubdirs :: "'w os_api \<Rightarrow> string \<Rightarrow> string list \<Rightarrow> ('w, gerr option) state" where
  "makeSubdirs os upperdirRoot [] = State_Monad.return None"
| "makeSubdirs os upperdirRoot (sub # subs) =
     do {
       let dir = upperdirRoot @ ''/'' @ sub;
       e \<leftarrow> os_MkdirAll os dir 493;
       case e of
         Some err \<Rightarrow> State_Monad.return (Some (Wrapf ''creating %s dir %q: %w'' [sub, dir] err))
       | None \<Rightarrow> makeSubdirs os upperdirRoot subs
     }"

definition ensureUpperdirReady :: "'w os_api \<Rightarrow> string \<Rightarrow> ('w, gerr option) state" where
  "ensureUpperdirReady os upperdirRoot =
     do {
       e \<leftarrow> os_Stat os upperdirRoot;
       case e of
         Some err \<Rightarrow>
           State_Monad.return (Some (Wrapf ''upperdir root %q not accessible: %w'' [upperdirRoot] err))
       | None \<Rightarrow> do {
           r \<leftarrow> sys_Stat_Dev os upperdirRoot;
           case r of
             Inl err \<Rightarrow>
               State_Monad.return (Some (Wrapf ''stat upperdir root %q: %w'' [upperdirRoot] err))
           | Inr rootDev \<Rightarrow> do {
               p \<leftarrow> sys_Stat_Dev os (parentPath upperdirRoot);
               case p of
                 Inl err \<Rightarrow>
                   State_Monad.return
                     (Some (Wrapf ''stat parent of upperdir root %q: %w'' [upperdirRoot] err))
               | Inr parentDev \<Rightarrow>
                   if rootDev = parentDev then
                     State_Monad.return
                       (Some (Errorf ''upperdir root %q is not a mountpoint (CSI volume not yet mounted)''
                                [upperdirRoot]))
                   else makeSubdirs os upperdirRoot [''upper'', ''work'']
             }
         }
     }"

fun hasUpperdir :: "string list \<Rightarrow> bool" where
  "hasUpperdir [] = False"
| "hasUpperdir (opt # opts) = (if has_prefix opt ''upperdir='' then True else hasUpperdir opts)"

definition rewriteOption :: "string \<Rightarrow> string \<Rightarrow> string" where
  "rewriteOption upperdirRoot opt =
     (if has_prefix opt ''upperdir='' then ''upperdir='' @ upperdirRoot @ ''/upper''
      else if has_prefix opt ''workdir='' then ''workdir='' @ upperdirRoot @ ''/work''
      else opt)"

definition replaceUpperdirOptions :: "mount list \<Rightarrow> string \<Rightarrow> mount list" where
  "replaceUpperdirOptions mounts upperdirRoot =
     (case mounts of
        [] \<Rightarrow> mounts
      | m # rest \<Rightarrow>
          if m_Type m \<noteq> ''overlay'' then mounts
          else if \<not> hasUpperdir (m_Options m) then mounts
          else m\<lparr>m_Options := map (rewriteOption upperdirRoot) (m_Options m)\<rparr> # rest)"


section \<open>The rewriting as an interface\<close>

text \<open>
  What Mounts relies on: a rewriter keeps the shape of the mount list, acts on the options of
  the first mount one by one, and only when that mount is a writable overlay.
\<close>

definition writableOverlay :: "mount list \<Rightarrow> bool" where
  "writableOverlay mounts =
     (case mounts of
        [] \<Rightarrow> False
      | m # _ \<Rightarrow> m_Type m = ''overlay'' \<and> (\<exists>opt \<in> set (m_Options m). has_prefix opt ''upperdir=''))"

lemma writableOverlay_Nil [simp]: "\<not> writableOverlay []"
  by (simp add: writableOverlay_def)

locale mount_rewriter =
  fixes rewrite :: "mount list \<Rightarrow> string \<Rightarrow> mount list"
    and option_map :: "string \<Rightarrow> string \<Rightarrow> string"
  assumes rewrite_other: "\<not> writableOverlay mounts \<Longrightarrow> rewrite mounts root = mounts"
    and rewrite_overlay: "writableOverlay (m # rest) \<Longrightarrow>
          rewrite (m # rest) root = m\<lparr>m_Options := map (option_map root) (m_Options m)\<rparr> # rest"
    and option_upper: "has_prefix (option_map root opt) ''upperdir='' = has_prefix opt ''upperdir=''"
    and option_absorb: "option_map b (option_map a opt) = option_map b opt"
begin

lemma rewrite_length [simp]: "length (rewrite mounts root) = length mounts"
  by (cases "writableOverlay mounts"; cases mounts) (simp_all add: rewrite_overlay rewrite_other)

lemma rewrite_empty_iff [simp]: "rewrite mounts root = [] \<longleftrightarrow> mounts = []"
  by (metis length_0_conv rewrite_length)

lemma rewrite_writable: "writableOverlay (rewrite mounts root) = writableOverlay mounts"
proof (cases "writableOverlay mounts")
  case True
  then show ?thesis
    by (cases mounts) (auto simp: rewrite_overlay, auto simp: writableOverlay_def option_upper)
qed (simp add: rewrite_other)

lemma rewrite_absorb: "rewrite (rewrite mounts a) b = rewrite mounts b"
proof (cases "writableOverlay mounts")
  case True
  then obtain m rest where ms: "mounts = m # rest" by (cases mounts) (auto simp: writableOverlay_def)
  have "writableOverlay (m\<lparr>m_Options := map (option_map a) (m_Options m)\<rparr> # rest)"
    using True rewrite_writable [of mounts a] by (simp add: ms rewrite_overlay)
  then show ?thesis using True by (simp add: ms rewrite_overlay option_absorb)
qed (simp add: rewrite_other)

end

lemma hasUpperdir_iff: "hasUpperdir opts \<longleftrightarrow> (\<exists>opt \<in> set opts. has_prefix opt ''upperdir='')"
  by (induction opts) auto

lemma rewriteOption_upper:
  "has_prefix (rewriteOption root opt) ''upperdir='' = has_prefix opt ''upperdir=''"
  by (auto simp: rewriteOption_def)

lemma rewriteOption_work:
  "has_prefix opt ''workdir='' \<Longrightarrow> has_prefix (rewriteOption root opt) ''workdir=''"
  by (auto simp: rewriteOption_def has_prefix_iff)

lemma rewriteOption_absorb: "rewriteOption b (rewriteOption a opt) = rewriteOption b opt"
  by (auto simp: rewriteOption_def has_prefix_iff)

interpretation upperdir_rewrite: mount_rewriter replaceUpperdirOptions rewriteOption
proof unfold_locales
  show "replaceUpperdirOptions mounts root = mounts" if "\<not> writableOverlay mounts" for mounts root
    using that by (auto simp: replaceUpperdirOptions_def writableOverlay_def hasUpperdir_iff split: list.splits)
next
  show "replaceUpperdirOptions (m # rest) root =
      m\<lparr>m_Options := map (rewriteOption root) (m_Options m)\<rparr> # rest"
    if "writableOverlay (m # rest)" for m rest root
    using that by (simp add: replaceUpperdirOptions_def writableOverlay_def hasUpperdir_iff)
qed (simp_all add: rewriteOption_upper rewriteOption_absorb)


section \<open>File systems\<close>

text \<open>
  Documented behaviour of the calls of mount.go, for the device \<open>dev w p\<close> of a path and the
  directories \<open>isdir w p\<close> of a file system state: stat reads only and reports the device,
  a successful MkdirAll makes the directory, and MkdirAll removes no directory and changes no
  device.
\<close>

definition fs_laws ::
  "'w os_api \<Rightarrow> ('w \<Rightarrow> string \<Rightarrow> nat option) \<Rightarrow> ('w \<Rightarrow> string \<Rightarrow> bool) \<Rightarrow> bool" where
  "fs_laws os dev isdir \<longleftrightarrow>
     (\<forall>p. read_only (os_Stat os p)) \<and>
     (\<forall>p. read_only (sys_Stat_Dev os p)) \<and>
     (\<forall>p w d. fst (run_state (sys_Stat_Dev os p) w) = Inr d \<longrightarrow> dev w p = Some d) \<and>
     (\<forall>p m w w'. run_state (os_MkdirAll os p m) w = (None, w') \<longrightarrow> isdir w' p) \<and>
     (\<forall>p m w e w' q. run_state (os_MkdirAll os p m) w = (e, w') \<longrightarrow>
        (isdir w q \<longrightarrow> isdir w' q) \<and> (\<forall>d. dev w q = Some d \<longrightarrow> dev w' q = Some d))"

lemma fs_stat:
  assumes "fs_laws os dev isdir"
  shows "run_state (os_Stat os p) w = (fst (run_state (os_Stat os p) w), w)"
    and "run_state (sys_Stat_Dev os p) w = (fst (run_state (sys_Stat_Dev os p) w), w)"
  using assms by (auto simp: fs_laws_def intro: read_onlyD)

lemma fs_dev:
  "fs_laws os dev isdir \<Longrightarrow> fst (run_state (sys_Stat_Dev os p) w) = Inr d \<Longrightarrow> dev w p = Some d"
  by (simp add: fs_laws_def)

lemma fs_mkdir:
  assumes "fs_laws os dev isdir" and "run_state (os_MkdirAll os p m) w = (e, w')"
  shows "e = None \<Longrightarrow> isdir w' p" and "isdir w q \<Longrightarrow> isdir w' q"
    and "dev w q = Some d \<Longrightarrow> dev w' q = Some d"
  using assms unfolding fs_laws_def by blast+

text \<open>What success of makeSubdirs and of the whole check amounts to.\<close>

lemma makeSubdirs_ok:
  assumes laws: "fs_laws os dev isdir"
    and "run_state (makeSubdirs os root subs) w = (None, w')"
  shows "(\<forall>sub \<in> set subs. isdir w' (root @ ''/'' @ sub)) \<and>
         (\<forall>q d. dev w q = Some d \<longrightarrow> dev w' q = Some d) \<and> (\<forall>q. isdir w q \<longrightarrow> isdir w' q)"
  using assms(2)
proof (induction subs arbitrary: w)
  case Nil
  then show ?case by (simp add: go_run)
next
  case (Cons sub subs)
  obtain e w1 where mk: "run_state (os_MkdirAll os (root @ ''/'' @ sub) 493) w = (e, w1)"
    by (cases "run_state (os_MkdirAll os (root @ ''/'' @ sub) 493) w")
  from Cons.prems mk have e: "e = None" and rest: "run_state (makeSubdirs os root subs) w1 = (None, w')"
    by (cases e; simp add: go_run Let_def)+
  note IH = Cons.IH [OF rest]
  have "isdir w1 (root @ ''/'' @ sub)" using fs_mkdir(1) [OF laws mk] e by simp
  then show ?case using IH fs_mkdir(2,3) [OF laws mk] by auto
qed

lemma ensureUpperdirReady_cases:
  assumes laws: "fs_laws os dev isdir"
  obtains (refused) err where "run_state (ensureUpperdirReady os root) w = (Some err, w)"
  | (mountpoint) dr dp where "dev w root = Some dr" "dev w (parentPath root) = Some dp" "dr \<noteq> dp"
      "run_state (ensureUpperdirReady os root) w = run_state (makeSubdirs os root [''upper'', ''work'']) w"
proof -
  obtain a where a: "run_state (os_Stat os root) w = (a, w)"
    using fs_stat(1) [OF laws] by blast
  obtain b where b: "run_state (sys_Stat_Dev os root) w = (b, w)"
    using fs_stat(2) [OF laws] by blast
  obtain c where c: "run_state (sys_Stat_Dev os (parentPath root)) w = (c, w)"
    using fs_stat(2) [OF laws] by blast
  note run = ensureUpperdirReady_def go_run a b c
  consider (fail) "a \<noteq> None \<or> (\<exists>err. b = Inl err) \<or> (\<exists>err. c = Inl err) \<or> b = c"
    | (ok) dr dp where "a = None" "b = Inr dr" "c = Inr dp" "dr \<noteq> dp"
    by (cases b; cases c) auto
  then show thesis
  proof cases
    case fail
    then have "\<exists>err. run_state (ensureUpperdirReady os root) w = (Some err, w)"
      by (cases a; cases b; cases c) (auto simp: run)
    then show thesis using refused by blast
  next
    case ok
    then have "run_state (ensureUpperdirReady os root) w =
        run_state (makeSubdirs os root [''upper'', ''work'']) w"
      by (simp add: run del: makeSubdirs.simps)
    moreover have "dev w root = Some dr" "dev w (parentPath root) = Some dp"
      using fs_dev [OF laws] b c ok by (metis fst_conv)+
    ultimately show thesis using mountpoint ok(4) by blast
  qed
qed


lemma ensureUpperdirReady_ok:
  assumes laws: "fs_laws os dev isdir"
    and run: "run_state (ensureUpperdirReady os root) w = (None, w')"
  shows "\<exists>dr dp. dev w' root = Some dr \<and> dev w' (parentPath root) = Some dp \<and> dr \<noteq> dp"
    and "isdir w' (root @ ''/upper'')" and "isdir w' (root @ ''/work'')"
proof -
  obtain dr dp where m: "dev w root = Some dr" "dev w (parentPath root) = Some dp" "dr \<noteq> dp"
    "run_state (makeSubdirs os root [''upper'', ''work'']) w = (None, w')"
    using laws run by (cases rule: ensureUpperdirReady_cases [where root = root and w = w]) auto
  note ok = makeSubdirs_ok [OF laws m(4)]
  then show "\<exists>dr dp. dev w' root = Some dr \<and> dev w' (parentPath root) = Some dp \<and> dr \<noteq> dp"
    using m(1-3) by blast
  show "isdir w' (root @ ''/upper'')" and "isdir w' (root @ ''/work'')" using ok by auto
qed

end
