(* ===== verification/Service.thy ===== *)
theory Service
  imports Dedup Mount_Options
begin

text \<open>
  pkg/containerd/snapshotter/service.go and overlay.go: the gRPC snapshotter that wraps the
  native overlay snapshotter, its construction, and the HTTP endpoints of the dedup leases.

  The template package, the JSON decoder and the operating system are bundled in the record
  \<open>('w, 't) packages\<close>; everything else is as in the theories of the parts it calls.
\<close>


section \<open>Definitions\<close>

record ('w, 't) packages =
  pk_template :: "('t, (string, string) gomap) text_template"
  pk_unmarshal :: "string \<Rightarrow> gerr + sandboxMetadata"
  pk_os :: "'w os_api"

record 'w snapshotter =
  ss_resolver :: "'w resolver"
  ss_dedup :: "'w dedupManager option"
  ss_Snapshotter :: "'w snapshotter_api"
  ss_client :: "'w client"

text \<open>A result or the Go panic that ends the call.\<close>

datatype 'a outcome = Panic string | Returns 'a


subsection \<open>Snapshotter methods\<close>

definition svc_Stat ::
  "('w, 't) packages \<Rightarrow> 'w snapshotter \<Rightarrow> ctx \<Rightarrow> string \<Rightarrow> ('w node, (gerr + info) outcome) state" where
  "svc_Stat P sn ctx key =
     do {
       st \<leftarrow> ext (sn_Stat (ss_Snapshotter sn) ctx key);
       case st of
         Inr info \<Rightarrow> State_Monad.return (Returns (Inr info))
       | Inl err \<Rightarrow>
           (case ss_dedup sn of
              None \<Rightarrow> State_Monad.return (Returns (Inl err))
            | Some m \<Rightarrow> do {
                r \<leftarrow> ext (statWithLazyMaterialise (pk_os P) m ctx key (ss_Snapshotter sn));
                State_Monad.return
                  (case r of None \<Rightarrow> Panic ''index out of range'' | Some res \<Rightarrow> Returns res)
              })
     }"

definition svc_Update ::
  "'w snapshotter \<Rightarrow> ctx \<Rightarrow> info \<Rightarrow> string list \<Rightarrow> ('w node, gerr + info) state" where
  "svc_Update sn ctx info fieldpaths = ext (sn_Update (ss_Snapshotter sn) ctx info fieldpaths)"

definition svc_Usage :: "'w snapshotter \<Rightarrow> ctx \<Rightarrow> string \<Rightarrow> ('w node, gerr + usage) state" where
  "svc_Usage sn ctx key = ext (sn_Usage (ss_Snapshotter sn) ctx key)"

text \<open>
  Mounts. The named results are returned together: when \<^verbatim>\<open>ensureUpperdirReady\<close> fails, the
  native mounts are still in \<^verbatim>\<open>mounts\<close> beside the error. The log call after the rewriting
  evaluates \<^verbatim>\<open>mounts[0]\<close> whatever the log level.
\<close>

definition svc_Mounts ::
  "('w, 't) packages \<Rightarrow> 'w snapshotter \<Rightarrow> ctx \<Rightarrow> string \<Rightarrow>
   ('w node, (mount list \<times> gerr option) outcome) state" where
  "svc_Mounts P sn ctx key =
     do {
       r \<leftarrow> ext (sn_Mounts (ss_Snapshotter sn) ctx key);
       case r of
         Inl err \<Rightarrow> State_Monad.return (Returns ([], Some err))
       | Inr mounts \<Rightarrow> do {
           (upperdirPath, resolveErr) \<leftarrow>
             ext (resolveAtMountsTime (pk_template P) (pk_unmarshal P) (ss_resolver sn) key);
           if upperdirPath \<noteq> [] then do {
             e \<leftarrow> ext (ensureUpperdirReady (pk_os P) upperdirPath);
             case e of
               Some err \<Rightarrow> State_Monad.return (Returns (mounts, Some err))
             | None \<Rightarrow>
                 (let mounts' = replaceUpperdirOptions mounts upperdirPath in
                  if mounts' = [] then State_Monad.return (Panic ''index out of range'')
                  else State_Monad.return (Returns (mounts', None)))
           }
           else State_Monad.return (Returns (mounts, None))
         }
     }"

text \<open>The condition under which Prepare pins the parent layer: namespace and chainID.\<close>

definition pinTarget :: "string \<Rightarrow> string \<Rightarrow> (string \<times> string) option" where
  "pinTarget key parent =
     (case parseSnapshotKey key of
        None \<Rightarrow> None
      | Some (ns, activeID) \<Rightarrow>
          (case parseSnapshotKey parent of
             None \<Rightarrow> None
           | Some (_, parentChainID) \<Rightarrow>
               if \<not> isChainID activeID \<and> isChainID parentChainID then Some (ns, parentChainID)
               else None))"

definition svc_Prepare ::
  "'w snapshotter \<Rightarrow> ctx \<Rightarrow> string \<Rightarrow> string \<Rightarrow> snap_opt list \<Rightarrow> ('w node, gerr + mount list) state" where
  "svc_Prepare sn ctx key parent opts =
     do {
       r \<leftarrow> ext (sn_Prepare (ss_Snapshotter sn) ctx key parent opts);
       case ss_dedup sn of
         None \<Rightarrow> State_Monad.return r
       | Some m \<Rightarrow>
           (case pinTarget key parent of
              None \<Rightarrow> State_Monad.return r
            | Some (ns, parentChainID) \<Rightarrow> do {
                _ \<leftarrow> pinLayer m ns parentChainID key;
                State_Monad.return r
              })
     }"

definition svc_View ::
  "'w snapshotter \<Rightarrow> ctx \<Rightarrow> string \<Rightarrow> string \<Rightarrow> snap_opt list \<Rightarrow> ('w node, gerr + mount list) state" where
  "svc_View sn ctx key parent opts = ext (sn_View (ss_Snapshotter sn) ctx key parent opts)"

definition svc_Commit ::
  "'w snapshotter \<Rightarrow> ctx \<Rightarrow> string \<Rightarrow> string \<Rightarrow> snap_opt list \<Rightarrow> ('w node, gerr option) state" where
  "svc_Commit sn ctx name key opts = ext (sn_Commit (ss_Snapshotter sn) ctx name key opts)"

definition svc_Remove :: "'w snapshotter \<Rightarrow> ctx \<Rightarrow> string \<Rightarrow> ('w node, gerr option) state" where
  "svc_Remove sn ctx key =
     do {
       e \<leftarrow> ext (sn_Remove (ss_Snapshotter sn) ctx key);
       case ss_dedup sn of
         None \<Rightarrow> State_Monad.return e
       | Some m \<Rightarrow>
           (case parseSnapshotKey key of
              None \<Rightarrow> State_Monad.return e
            | Some (ns, _) \<Rightarrow> do {
                _ \<leftarrow> unpinByActiveKey m ns key;
                State_Monad.return e
              })
     }"

definition svc_Walk ::
  "'w snapshotter \<Rightarrow> ctx \<Rightarrow> (ctx \<Rightarrow> info \<Rightarrow> gerr option) \<Rightarrow> string list \<Rightarrow> ('w node, gerr option) state" where
  "svc_Walk sn ctx fn filters = ext (sn_Walk (ss_Snapshotter sn) ctx fn filters)"

text \<open>Close: the second assignment to \<^verbatim>\<open>err\<close> replaces the result of closing the client.\<close>

definition svc_Close :: "'w snapshotter \<Rightarrow> ('w node, gerr option) state" where
  "svc_Close sn =
     do {
       _ \<leftarrow> ext (cl_Close (ss_client sn));
       ext (sn_Close (ss_Snapshotter sn))
     }"


subsection \<open>Cleanup\<close>

record 'w cleanerSnapshotter =
  cs_snapshotter :: "'w snapshotter"
  cs_cleaner :: "ctx \<Rightarrow> ('w, gerr option) state"

definition svc_Cleanup :: "'w cleanerSnapshotter \<Rightarrow> ctx \<Rightarrow> ('w node, gerr option) state" where
  "svc_Cleanup cs ctx = ext (cs_cleaner cs ctx)"


subsection \<open>Metrics hook and HTTP endpoints\<close>

definition RegisterScrapeHook :: "'w snapshotter \<Rightarrow> ctx \<Rightarrow> ('w node, unit) state" where
  "RegisterScrapeHook sn ctx =
     (case ss_dedup sn of
        None \<Rightarrow> State_Monad.return ()
      | Some m \<Rightarrow> do {
          count \<leftarrow> ext (countOrphanLeases m ctx containerdNamespaceK8s);
          orphanLeases_Set (int count)
        })"

record leaseEntry =
  le_ID :: string
  le_CreatedAt :: string
  le_Labels :: labels

datatype http_body =
    ErrorMessage string
  | ErrorOf gerr
  | Leases "leaseEntry list"
  | Deleted nat
  | NoBody

type_synonym http_response = "nat \<times> http_body"

fun digits :: "nat \<Rightarrow> nat \<Rightarrow> string" where
  "digits 0 n = []"
| "digits (Suc w) n = digits w (n div 10) @ [''0123456789'' ! (n mod 10)]"

text \<open>\<^verbatim>\<open>Format("2006-01-02T15:04:05Z")\<close> of a UTC time (years of four digits).\<close>

definition formatUTC :: "utc_time \<Rightarrow> string" where
  "formatUTC t =
     digits 4 (t_year t) @ ''-'' @ digits 2 (t_month t) @ ''-'' @ digits 2 (t_day t) @ ''T'' @
     digits 2 (t_hour t) @ '':'' @ digits 2 (t_minute t) @ '':'' @ digits 2 (t_second t) @ ''Z''"

definition dedupDisabled :: http_response where
  "dedupDisabled = (501, ErrorMessage ''dedup not enabled (--share-overlayfs-lowers=false)'')"

definition handleListLeases :: "'w snapshotter \<Rightarrow> ('w node, http_response) state" where
  "handleListLeases sn =
     (case ss_dedup sn of
        None \<Rightarrow> State_Monad.return dedupDisabled
      | Some m \<Rightarrow> do {
          r \<leftarrow> ext (listManagedLeases m containerdNamespaceK8s);
          State_Monad.return
            (case r of
               Inl err \<Rightarrow> (500, ErrorOf err)
             | Inr all \<Rightarrow>
                 (200, Leases (map (\<lambda>l. \<lparr>le_ID = l_ID l, le_CreatedAt = formatUTC (l_CreatedAt l),
                                         le_Labels = l_Labels l\<rparr>) all)))
        })"

definition handleDeleteLease :: "'w snapshotter \<Rightarrow> string \<Rightarrow> ('w node, http_response) state" where
  "handleDeleteLease sn leaseID =
     (case ss_dedup sn of
        None \<Rightarrow> State_Monad.return dedupDisabled
      | Some m \<Rightarrow>
          if leaseID = [] then State_Monad.return (400, ErrorMessage ''leaseID is required'')
          else do {
            e \<leftarrow> deleteLease m containerdNamespaceK8s leaseID;
            State_Monad.return (case e of Some err \<Rightarrow> (500, ErrorOf err) | None \<Rightarrow> (204, NoBody))
          })"

definition handleGCLeases :: "'w snapshotter \<Rightarrow> ctx \<Rightarrow> ('w node, http_response) state" where
  "handleGCLeases sn ctx =
     (case ss_dedup sn of
        None \<Rightarrow> State_Monad.return dedupDisabled
      | Some m \<Rightarrow> do {
          deleted \<leftarrow> gcOrphanLeases m ctx containerdNamespaceK8s;
          State_Monad.return (200, Deleted deleted)
        })"


subsection \<open>Construction\<close>

record overlay_config =
  RootPath :: string
  UpperDirLabel :: bool
  SyncRemove :: bool
  SlowChown :: bool
  MountOptions :: "string list"

datatype overlay_opt =
    WithUpperdirLabel
  | AsynchronousRemove
  | WithMountOptions "string list"
  | WithRemapIDs
  | WithSlowChown

definition flagOverlaySnapshotterConfig :: string where
  "flagOverlaySnapshotterConfig = ''overlay-snapshotter''"

definition defaultRootPath :: string where
  "defaultRootPath = ''/var/lib/containerd/io.containerd.snapshotter.v1.pv-snapshotter''"

text \<open>The root path and the options handed to \<^verbatim>\<open>overlay.NewSnapshotter\<close>.\<close>

definition overlayOptions :: "overlay_config \<Rightarrow> (gerr + bool) \<Rightarrow> string \<times> overlay_opt list" where
  "overlayOptions cfg supportsIDMappedMounts =
     (if RootPath cfg = [] then defaultRootPath else RootPath cfg,
      (if UpperDirLabel cfg then [WithUpperdirLabel] else []) @
      (if \<not> SyncRemove cfg then [AsynchronousRemove] else []) @
      (if length (MountOptions cfg) > 0 then [WithMountOptions (MountOptions cfg)] else []) @
      (case supportsIDMappedMounts of Inr True \<Rightarrow> [WithRemapIDs] | _ \<Rightarrow> []) @
      (if SlowChown cfg then [WithSlowChown] else []))"

text \<open>
  What construction calls outside the repository: the decoded configuration, the probe for
  ID-mapped mounts, \<^verbatim>\<open>overlay.NewSnapshotter\<close>, the type assertion to snapshots.Cleaner and
  \<^verbatim>\<open>containerd.New\<close>.
\<close>

record 'w constructors =
  k_UnmarshalKey :: "string \<Rightarrow> gerr + overlay_config"
  k_SupportsIDMappedMounts :: "gerr + bool"
  k_NewSnapshotter :: "string \<Rightarrow> overlay_opt list \<Rightarrow> ('w, gerr + 'w snapshotter_api) state"
  k_asCleaner :: "'w snapshotter_api \<Rightarrow> (ctx \<Rightarrow> ('w, gerr option) state) option"
  k_NewClient :: "string \<Rightarrow> ('w, gerr + 'w client) state"
  k_isDNS1123Subdomain :: "string \<Rightarrow> string list"
  k_getString :: "string \<Rightarrow> string"
  k_shareOverlayfsLowers :: bool

definition flagContainerdSocket :: string where "flagContainerdSocket = ''containerd-socket''"

definition createNativeOverlaySnapshotter ::
  "'w constructors \<Rightarrow> ('w, gerr + 'w snapshotter_api) state" where
  "createNativeOverlaySnapshotter K =
     (case k_UnmarshalKey K flagOverlaySnapshotterConfig of
        Inl err \<Rightarrow> State_Monad.return (Inl err)
      | Inr cfg \<Rightarrow>
          (case overlayOptions cfg (k_SupportsIDMappedMounts K) of
             (root, opts) \<Rightarrow> k_NewSnapshotter K root opts))"

datatype 'w wrapped = PlainSnapshotter "'w snapshotter" | CleanerSnapshotter "'w cleanerSnapshotter"

text \<open>
  RegisterGRPCService up to the registration of the wrapped snapshotter. On an error the
  deferred function closes what was opened before it, in the iteration order of a Go map:
  \<open>snFirst\<close> tells which of the two entries the iteration meets first.
\<close>

definition closeBoth :: "bool \<Rightarrow> 'w snapshotter_api \<Rightarrow> 'w client \<Rightarrow> ('w, unit) state" where
  "closeBoth snFirst sn cl =
     (if snFirst then do { _ \<leftarrow> sn_Close sn; _ \<leftarrow> cl_Close cl; State_Monad.return () }
      else do { _ \<leftarrow> cl_Close cl; _ \<leftarrow> sn_Close sn; State_Monad.return () })"

definition RegisterGRPCService ::
  "'w constructors \<Rightarrow> bool \<Rightarrow> string \<Rightarrow> ('w, gerr + ('w snapshotter \<times> 'w wrapped)) state" where
  "RegisterGRPCService K snFirst nodeName =
     do {
       s \<leftarrow> createNativeOverlaySnapshotter K;
       case s of
         Inl err \<Rightarrow> State_Monad.return (Inl err)
       | Inr sn \<Rightarrow> do {
           c \<leftarrow> k_NewClient K (k_getString K flagContainerdSocket);
           case c of
             Inl err \<Rightarrow> do { _ \<leftarrow> sn_Close sn; State_Monad.return (Inl err) }
           | Inr cl \<Rightarrow>
               (case newResolver (k_isDNS1123Subdomain K) (k_getString K) cl of
                  Inl err \<Rightarrow> do {
                    _ \<leftarrow> closeBoth snFirst sn cl;
                    State_Monad.return (Inl err)
                  }
                | Inr res \<Rightarrow>
                    (let dedup = (if k_shareOverlayfsLowers K
                                  then Some (newDedupManager nodeName (res_client res) sn) else None);
                         ss = \<lparr>ss_resolver = res, ss_dedup = dedup, ss_Snapshotter = sn,
                               ss_client = cl\<rparr>
                     in State_Monad.return
                          (Inr (ss, case k_asCleaner K sn of
                                      Some cleaner \<Rightarrow>
                                        CleanerSnapshotter
                                          \<lparr>cs_snapshotter = ss, cs_cleaner = cleaner\<rparr>
                                    | None \<Rightarrow> PlainSnapshotter ss))))
         }
     }"

end
