(* ===== verification/Leases.thy ===== *)
theory Leases
  imports Dedup
begin

text \<open>
  The lease bookkeeping of dedup.go against a lease service that behaves as documented.

  \<open>store w ns\<close> is the list of leases the service holds for a namespace in world \<open>w\<close>, and
  \<open>present w k\<close> says whether the local snapshotter has a snapshot with key \<open>k\<close>. The laws
  allow every call to fail; what they exclude is that another client changes the leases
  between two calls of one operation.
\<close>


section \<open>Laws of the lease service\<close>

fun optLabels :: "lease_opt list \<Rightarrow> labels" where
  "optLabels [] = []"
| "optLabels (WithRandomID # opts) = optLabels opts"
| "optLabels (WithLabels ls # opts) = ls @ optLabels opts"

text \<open>A new lease has a fresh ID and the requested labels; a failed call creates nothing.\<close>

definition create_law :: "'w leases_api \<Rightarrow> ('w \<Rightarrow> string \<Rightarrow> lease list) \<Rightarrow> bool" where
  "create_law L store \<longleftrightarrow>
     (\<forall>ns opts w r w'. run_state (ls_Create L (Some ns) opts) w = (r, w') \<longrightarrow>
        (case r of
           Inl e \<Rightarrow> store w' = store w
         | Inr l \<Rightarrow> l_Labels l = optLabels opts \<and> l_ID l \<notin> l_ID ` set (store w ns) \<and>
                    store w' = (store w)(ns := store w ns @ [l])))"

text \<open>A resource is added to a lease; the set of leases stays.\<close>

definition resource_law :: "'w leases_api \<Rightarrow> ('w \<Rightarrow> string \<Rightarrow> lease list) \<Rightarrow> bool" where
  "resource_law L store \<longleftrightarrow>
     (\<forall>ns l r w e w'. run_state (ls_AddResource L (Some ns) l r) w = (e, w') \<longrightarrow> store w' = store w)"

text \<open>Delete removes the lease with the given ID, which has to exist, or changes nothing.\<close>

definition delete_law :: "'w leases_api \<Rightarrow> ('w \<Rightarrow> string \<Rightarrow> lease list) \<Rightarrow> bool" where
  "delete_law L store \<longleftrightarrow>
     (\<forall>ns l w e w'. run_state (ls_Delete L (Some ns) l) w = (e, w') \<longrightarrow>
        (case e of
           Some err \<Rightarrow> store w' = store w
         | None \<Rightarrow> l_ID l \<in> l_ID ` set (store w ns) \<and>
                   store w' = (store w)(ns := filter (\<lambda>k. l_ID k \<noteq> l_ID l) (store w ns))))"

text \<open>List with a label filter reads the leases of the namespace that carry the label.\<close>

definition list_law :: "'w leases_api \<Rightarrow> ('w \<Rightarrow> string \<Rightarrow> lease list) \<Rightarrow> bool" where
  "list_law L store \<longleftrightarrow>
     (\<forall>ns k v w r w'. run_state (ls_List L (Some ns) (labelFilter k v)) w = (r, w') \<longrightarrow>
        w' = w \<and> (\<forall>ls. r = Inr ls \<longrightarrow> ls = filter (\<lambda>l. map_of (l_Labels l) k = Some v) (store w ns)))"

definition lease_laws :: "'w leases_api \<Rightarrow> ('w \<Rightarrow> string \<Rightarrow> lease list) \<Rightarrow> bool" where
  "lease_laws L store \<longleftrightarrow>
     create_law L store \<and> resource_law L store \<and> delete_law L store \<and> list_law L store"

text \<open>
  The local snapshotter as the sweeps see it: Stat reads only, it finds nothing that is not
  there, and lease deletions do not touch snapshots. Stat may fail on a snapshot that exists, for
  instance when its store is busy or the context has expired.
\<close>

definition stat_laws ::
  "'w snapshotter_api \<Rightarrow> 'w leases_api \<Rightarrow> ('w \<Rightarrow> string \<Rightarrow> bool) \<Rightarrow> bool" where
  "stat_laws S L present \<longleftrightarrow>
     (\<forall>c k. read_only (sn_Stat S c k)) \<and>
     (\<forall>c k w i. fst (run_state (sn_Stat S c k) w) = Inr i \<longrightarrow> present w k) \<and>
     (\<forall>c l w. present (snd (run_state (ls_Delete L c l) w)) = present w)"

text \<open>A further assumption, named where it is needed: Stat answers for every snapshot that exists.\<close>

definition stat_total :: "'w snapshotter_api \<Rightarrow> ('w \<Rightarrow> string \<Rightarrow> bool) \<Rightarrow> bool" where
  "stat_total S present \<longleftrightarrow> (\<forall>c k w. present w k \<longrightarrow> (\<exists>i. fst (run_state (sn_Stat S c k) w) = Inr i))"

text \<open>The worlds a sweep passes through: some deletions of leases in one namespace, with any result.\<close>

definition deletions :: "'w leases_api \<Rightarrow> string \<Rightarrow> 'w \<Rightarrow> 'w \<Rightarrow> bool" where
  "deletions L ns = (\<lambda>a b. \<exists>l e. run_state (ls_Delete L (Some ns) l) a = (e, b))\<^sup>*\<^sup>*"

text \<open>A Stat of \<open>k\<close> failed, with whatever error, in a world the sweep passed through.\<close>

definition statFailed :: "'w snapshotter_api \<Rightarrow> 'w leases_api \<Rightarrow> ctx \<Rightarrow> string \<Rightarrow> 'w \<Rightarrow> string \<Rightarrow> bool" where
  "statFailed S L c ns w k \<longleftrightarrow>
     (\<exists>w' err. deletions L ns w w' \<and> run_state (sn_Stat S c k) w' = (Inl err, w'))"


section \<open>Labels\<close>

lemma labelFilter_inject: "labelFilter k v = labelFilter k' v' \<longleftrightarrow> k = k' \<and> v = v'"
proof
  assume "labelFilter k v = labelFilter k' v'"
  then have "quote k @ ''=='' @ quote v = quote k' @ ''=='' @ quote v'" by (simp add: labelFilter_def)
  then have "k = k'" and "quote v @ [] = quote v' @ []" by (simp_all add: quote_append_inject)
  then show "k = k' \<and> v = v'" by (simp only: quote_append_inject)
qed simp

definition managed :: "lease \<Rightarrow> bool" where
  "managed l = (map_of (l_Labels l) leaseLabelManagedBy = Some leaseLabelManagedByValue)"

definition owner :: "lease \<Rightarrow> string" where
  "owner l = map_get (l_Labels l) leaseLabelOwnerKey"

definition orphan :: "('w \<Rightarrow> string \<Rightarrow> bool) \<Rightarrow> 'w \<Rightarrow> lease \<Rightarrow> bool" where
  "orphan present w l = (managed l \<and> owner l \<noteq> [] \<and> \<not> present w (owner l))"


section \<open>Running the lease operations\<close>

lemma delete_lawD:
  assumes "lease_laws L store" and "run_state (ls_Delete L (Some ns) l) w = (e, w')"
  shows "e = Some err \<Longrightarrow> store w' = store w"
    and "e = None \<Longrightarrow> store w' = (store w)(ns := filter (\<lambda>k. l_ID k \<noteq> l_ID l) (store w ns))"
    and "e = None \<Longrightarrow> l_ID l \<in> l_ID ` set (store w ns)"
proof -
  have "case e of Some err \<Rightarrow> store w' = store w
        | None \<Rightarrow> l_ID l \<in> l_ID ` set (store w ns) \<and>
                  store w' = (store w)(ns := filter (\<lambda>k. l_ID k \<noteq> l_ID l) (store w ns))"
    using assms unfolding lease_laws_def delete_law_def by blast
  then show "e = Some err \<Longrightarrow> store w' = store w"
    and "e = None \<Longrightarrow> store w' = (store w)(ns := filter (\<lambda>k. l_ID k \<noteq> l_ID l) (store w ns))"
    and "e = None \<Longrightarrow> l_ID l \<in> l_ID ` set (store w ns)"
    by simp_all
qed

lemma list_lawD:
  assumes "lease_laws L store" and "run_state (ls_List L (Some ns) (labelFilter k v)) w = (r, w')"
  shows "w' = w"
    and "r = Inr ls \<Longrightarrow> ls = filter (\<lambda>l. map_of (l_Labels l) k = Some v) (store w ns)"
  using assms unfolding lease_laws_def list_law_def by blast+

lemma create_lawD:
  assumes "lease_laws L store" and "run_state (ls_Create L (Some ns) opts) w = (r, w')"
  shows "r = Inl e \<Longrightarrow> store w' = store w"
    and "r = Inr l \<Longrightarrow> l_Labels l = optLabels opts \<and> l_ID l \<notin> l_ID ` set (store w ns) \<and>
           store w' = (store w)(ns := store w ns @ [l])"
proof -
  have "case r of Inl e \<Rightarrow> store w' = store w
        | Inr l \<Rightarrow> l_Labels l = optLabels opts \<and> l_ID l \<notin> l_ID ` set (store w ns) \<and>
                   store w' = (store w)(ns := store w ns @ [l])"
    using assms unfolding lease_laws_def create_law_def by blast
  then show "r = Inl e \<Longrightarrow> store w' = store w"
    and "r = Inr l \<Longrightarrow> l_Labels l = optLabels opts \<and> l_ID l \<notin> l_ID ` set (store w ns) \<and>
           store w' = (store w)(ns := store w ns @ [l])"
    by simp_all
qed

lemma resource_lawD:
  "lease_laws L store \<Longrightarrow> run_state (ls_AddResource L (Some ns) l r) w = (e, w') \<Longrightarrow> store w' = store w"
  unfolding lease_laws_def resource_law_def by blast

lemma filter_fresh_id:
  "l_ID l \<notin> l_ID ` set ls \<Longrightarrow> filter (\<lambda>k. l_ID k \<noteq> l_ID l) (ls @ [l]) = ls"
  by (auto simp: filter_id_conv) (metis image_eqI)

text \<open>
  A sweep over a list of leases deletes those with IDs in some set \<open>D\<close>: what is left of the
  store, the frame, and the gauge.
\<close>

definition swept ::
  "('w \<Rightarrow> string \<Rightarrow> lease list) \<Rightarrow> string \<Rightarrow> string set \<Rightarrow> 'w node \<Rightarrow> 'w node \<Rightarrow> bool" where
  "swept store ns D s s' \<longleftrightarrow>
     finite D \<and> D \<subseteq> l_ID ` set (store (world s) ns) \<and>
     store (world s') = (store (world s))(ns := filter (\<lambda>k. l_ID k \<notin> D) (store (world s) ns)) \<and>
     pinnedSnapshotsTotal s' = pinnedSnapshotsTotal s - int (card D)"

lemma swept_refl: "store (world s') = store (world s) \<Longrightarrow>
    pinnedSnapshotsTotal s' = pinnedSnapshotsTotal s \<Longrightarrow> swept store ns {} s s'"
  by (simp add: swept_def)

lemma swept_step:
  assumes laws: "lease_laws L store"
    and del: "run_state (ls_Delete L (Some ns) l) (world s) = (None, w1)"
    and s1: "world s1 = w1" "pinnedSnapshotsTotal s1 = pinnedSnapshotsTotal s - 1"
    and rest: "swept store ns D s1 s'"
  shows "swept store ns (insert (l_ID l) D) s s' \<and> l_ID l \<notin> D"
proof -
  have st: "store w1 = (store (world s))(ns := filter (\<lambda>k. l_ID k \<noteq> l_ID l) (store (world s) ns))"
    and mem: "l_ID l \<in> l_ID ` set (store (world s) ns)"
    using delete_lawD(2,3) [OF laws del] by auto
  have D: "D \<subseteq> l_ID ` {k \<in> set (store (world s) ns). l_ID k \<noteq> l_ID l}"
    using rest by (auto simp: swept_def s1 st)
  then have new: "l_ID l \<notin> D" by auto
  moreover have "swept store ns (insert (l_ID l) D) s s'"
    using rest new mem D by (auto simp: swept_def s1 st conj_commute)
  ultimately show ?thesis by simp
qed

lemma swept_trans_left:
  assumes "swept store ns D s1 s'" and "store (world s1) = store (world s)"
    and "pinnedSnapshotsTotal s1 = pinnedSnapshotsTotal s"
  shows "swept store ns D s s'"
  using assms by (simp add: swept_def)

lemma unpinLeases_swept:
  assumes laws: "lease_laws L store"
    and "run_state (unpinLeases L (Some ns) ls) s = ((), s')"
  shows "\<exists>D. swept store ns D s s' \<and> D \<subseteq> l_ID ` set ls \<and>
             unpinFailuresTotal s' = unpinFailuresTotal s + (length ls - card D)"
  using assms(2)
proof (induction ls arbitrary: s)
  case Nil
  then show ?case by (auto simp: go_run intro: swept_refl)
next
  case (Cons l ls)
  obtain e w1 where del: "run_state (ls_Delete L (Some ns) l) (world s) = (e, w1)"
    by (cases "run_state (ls_Delete L (Some ns) l) (world s)")
  show ?case
  proof (cases e)
    case None
    let ?s1 = "s\<lparr>world := w1, pinnedSnapshotsTotal := pinnedSnapshotsTotal s - 1\<rparr>"
    have run: "run_state (unpinLeases L (Some ns) ls) ?s1 = ((), s')"
      using Cons.prems del None by (simp add: go_run)
    obtain D where D: "swept store ns D ?s1 s'" "D \<subseteq> l_ID ` set ls"
      "unpinFailuresTotal s' = unpinFailuresTotal s + (length ls - card D)"
      using Cons.IH [OF run] by auto
    have sw: "swept store ns (insert (l_ID l) D) s s' \<and> l_ID l \<notin> D"
      using swept_step [OF laws del [unfolded None] _ _ D(1)] by simp
    moreover have "card (insert (l_ID l) D) = Suc (card D)"
      using sw by (auto simp: swept_def)
    ultimately show ?thesis using D by (intro exI [of _ "insert (l_ID l) D"]) auto
  next
    case (Some err)
    let ?s1 = "s\<lparr>world := w1, unpinFailuresTotal := unpinFailuresTotal s + 1\<rparr>"
    have run: "run_state (unpinLeases L (Some ns) ls) ?s1 = ((), s')"
      using Cons.prems del Some by (simp add: go_run)
    obtain D where D: "swept store ns D ?s1 s'" "D \<subseteq> l_ID ` set ls"
      "unpinFailuresTotal s' = unpinFailuresTotal s + 1 + (length ls - card D)"
      using Cons.IH [OF run] by auto
    have "card D \<le> length ls"
      using D(2) by (metis card_length card_mono finite_set length_map list.set_map order_trans)
    then show ?thesis
      using D swept_trans_left [OF D(1), of s] delete_lawD(1) [OF laws del Some]
      by (intro exI [of _ D]) auto
  qed
qed


lemma stat_lawsD:
  assumes "stat_laws S L present" and "run_state (sn_Stat S c k) w = (r, w')"
  shows "w' = w" and "r = Inr i \<Longrightarrow> present w k"
proof -
  show "w' = w" using assms by (metis read_only_def snd_conv stat_laws_def)
  show "r = Inr i \<Longrightarrow> present w k" using assms by (metis fst_conv stat_laws_def)
qed

lemma stat_total_iff:
  assumes "stat_laws S L present" and "stat_total S present" and "run_state (sn_Stat S c k) w = (r, w')"
  shows "present w k \<longleftrightarrow> (\<exists>i. r = Inr i)"
  using assms by (metis fst_conv stat_lawsD(2) stat_total_def)

lemma stat_absent:
  assumes "stat_laws S L present" and "\<not> present w k"
  shows "isl (fst (run_state (sn_Stat S c k) w))"
  using assms unfolding stat_laws_def by (metis isl_def sum.exhaust)

lemma delete_present:
  "stat_laws S L present \<Longrightarrow> run_state (ls_Delete L c l) w = (e, w') \<Longrightarrow> present w' = present w"
  by (metis snd_conv stat_laws_def)

lemma deletions_present:
  assumes "stat_laws S L present" and "deletions L ns w w'"
  shows "present w' = present w"
  using assms(2) unfolding deletions_def
proof (induction rule: rtranclp_induct)
  case (step y z)
  then obtain l e where "run_state (ls_Delete L (Some ns) l) y = (e, z)" by blast
  from delete_present [OF assms(1) this] step.IH show ?case by simp
qed simp

lemma deletions_refl: "deletions L ns w w"
  by (simp add: deletions_def)

lemma deletions_first:
  "run_state (ls_Delete L (Some ns) l) w = (e, w1) \<Longrightarrow> deletions L ns w1 w' \<Longrightarrow> deletions L ns w w'"
  unfolding deletions_def by (rule converse_rtranclp_into_rtranclp) blast

lemma statFailed_now: "run_state (sn_Stat S c k) w = (Inl err, w) \<Longrightarrow> statFailed S L c ns w k"
  unfolding statFailed_def by (intro exI conjI) (rule deletions_refl)

lemma statFailed_first:
  "run_state (ls_Delete L (Some ns) l) w = (e, w1) \<Longrightarrow> statFailed S L c ns w1 k \<Longrightarrow> statFailed S L c ns w k"
  unfolding statFailed_def by (elim exE conjE) (intro exI conjI, rule deletions_first)

text \<open>With a Stat that answers for every snapshot that exists, the failure means that it is gone.\<close>

lemma statFailed_gone:
  assumes laws: "stat_laws S L present" and total: "stat_total S present" and "statFailed S L c ns w k"
  shows "\<not> present w k"
proof -
  obtain w' err where w': "deletions L ns w w'" and st: "run_state (sn_Stat S c k) w' = (Inl err, w')"
    using assms(3) unfolding statFailed_def by blast
  have "\<not> present w' k" using stat_total_iff [OF laws total st] by simp
  then show ?thesis using deletions_present [OF laws w'] by simp
qed

text \<open>One step of the GC sweep: skipped, failed or deleted.\<close>

lemma gcOrphans_step:
  assumes stat: "stat_laws (dm_localSn m) (cl_LeasesService (dm_client m)) present"
    and run: "run_state (gcOrphans m c (Some ns) (l # ls) n) s = (d, s')"
  obtains (keep) "owner l = [] \<or> (\<exists>i. run_state (sn_Stat (dm_localSn m) c (owner l)) (world s) = (Inr i, world s))"
      "run_state (gcOrphans m c (Some ns) ls n) s = (d, s')"
  | (failed) x err w1 where "owner l \<noteq> []" "run_state (sn_Stat (dm_localSn m) c (owner l)) (world s) = (Inl x, world s)"
      "run_state (ls_Delete (cl_LeasesService (dm_client m)) (Some ns) l) (world s) = (Some err, w1)"
      "run_state (gcOrphans m c (Some ns) ls n) (s\<lparr>world := w1\<rparr>) = (d, s')"
  | (deleted) x w1 where "owner l \<noteq> []" "run_state (sn_Stat (dm_localSn m) c (owner l)) (world s) = (Inl x, world s)"
      "run_state (ls_Delete (cl_LeasesService (dm_client m)) (Some ns) l) (world s) = (None, w1)"
      "run_state (gcOrphans m c (Some ns) ls (n + 1))
         (s\<lparr>world := w1, pinnedSnapshotsTotal := pinnedSnapshotsTotal s - 1\<rparr>) = (d, s')"
proof (cases "owner l = []")
  case True
  then show ?thesis using keep run by (simp add: owner_def)
next
  case False
  obtain r where st: "run_state (sn_Stat (dm_localSn m) c (owner l)) (world s) = (r, world s)"
    using stat_lawsD(1) [OF stat] by (metis surj_pair)
  obtain e w1 where del: "run_state (ls_Delete (cl_LeasesService (dm_client m)) (Some ns) l) (world s) = (e, w1)"
    by (cases "run_state (ls_Delete (cl_LeasesService (dm_client m)) (Some ns) l) (world s)")
  have o: "map_get (l_Labels l) leaseLabelOwnerKey = owner l" by (simp add: owner_def)
  show ?thesis
  proof (cases r)
    case (Inr i)
    then show ?thesis using keep run st False by (simp add: go_run Let_def o)
  next
    case (Inl x)
    then show ?thesis using failed deleted run st False del Inl
      by (cases e) (simp_all add: go_run Let_def o)
  qed
qed

lemma gcOrphans_swept:
  assumes laws: "lease_laws (cl_LeasesService (dm_client m)) store"
    and stat: "stat_laws (dm_localSn m) (cl_LeasesService (dm_client m)) present"
    and "run_state (gcOrphans m c (Some ns) ls n) s = (d, s')"
  shows "\<exists>D. swept store ns D s s' \<and> d = n + card D \<and> present (world s') = present (world s) \<and>
             unpinFailuresTotal s' = unpinFailuresTotal s \<and>
             D \<subseteq> l_ID ` {l \<in> set ls. owner l \<noteq> [] \<and>
               statFailed (dm_localSn m) (cl_LeasesService (dm_client m)) c ns (world s) (owner l)}"
  using assms(3)
proof (induction ls arbitrary: s n)
  case Nil
  then show ?case by (auto simp: go_run intro: swept_refl)
next
  case (Cons l ls)
  let ?S = "dm_localSn m" and ?L = "cl_LeasesService (dm_client m)"
  let ?gone = "\<lambda>w ls. l_ID ` {l \<in> set ls. owner l \<noteq> [] \<and> statFailed ?S ?L c ns w (owner l)}"
  have grow: "?gone (world s) ls \<subseteq> ?gone (world s) (l # ls)" by auto
  have later: "?gone w1 ls \<subseteq> ?gone (world s) ls" if "run_state (ls_Delete ?L (Some ns) l) (world s) = (e, w1)" for e w1
    using statFailed_first [OF that] by blast
  from stat Cons.prems show ?case
  proof (cases rule: gcOrphans_step)
    case keep
    obtain D where "swept store ns D s s'" "d = n + card D" "present (world s') = present (world s)"
      "unpinFailuresTotal s' = unpinFailuresTotal s" "D \<subseteq> ?gone (world s) ls"
      using Cons.IH [OF keep(2)] by blast
    then show ?thesis using grow by (intro exI [of _ D]) (meson order_trans)
  next
    case (failed x err w1)
    obtain D where D: "swept store ns D (s\<lparr>world := w1\<rparr>) s'" and rest: "d = n + card D"
      "present (world s') = present w1" "unpinFailuresTotal s' = unpinFailuresTotal s" "D \<subseteq> ?gone w1 ls"
      using Cons.IH [OF failed(4)] by auto
    have "swept store ns D s s'"
      using swept_trans_left [OF D, of s] delete_lawD(1) [OF laws failed(3)] by simp
    moreover have "D \<subseteq> ?gone (world s) (l # ls)" using rest(4) later [OF failed(3)] grow by (meson order_trans)
    ultimately show ?thesis using rest(1-3) delete_present [OF stat failed(3)] by (intro exI [of _ D]) simp
  next
    case (deleted x w1)
    let ?s1 = "s\<lparr>world := w1, pinnedSnapshotsTotal := pinnedSnapshotsTotal s - 1\<rparr>"
    obtain D where D: "swept store ns D ?s1 s'" and rest: "d = n + 1 + card D"
      "present (world s') = present w1" "unpinFailuresTotal s' = unpinFailuresTotal s" "D \<subseteq> ?gone w1 ls"
      using Cons.IH [OF deleted(4)] by auto
    have sw: "swept store ns (insert (l_ID l) D) s s'" "l_ID l \<notin> D"
      using swept_step [OF laws deleted(3) _ _ D] by simp_all
    then have "card (insert (l_ID l) D) = Suc (card D)" by (simp add: swept_def)
    moreover have "l_ID l \<in> ?gone (world s) (l # ls)" using deleted(1) statFailed_now [OF deleted(2)] by simp
    then have "insert (l_ID l) D \<subseteq> ?gone (world s) (l # ls)"
      using rest(4) later [OF deleted(3)] grow by (meson insert_subset order_trans)
    ultimately show ?thesis using sw(1) rest(1-3) delete_present [OF stat deleted(3)]
      by (intro exI [of _ "insert (l_ID l) D"]) simp
  qed
qed

text \<open>
  When deletions of existing leases succeed, the sweep deletes every lease it is given whose
  owner's Stat fails throughout, whatever the error is and whether or not the snapshot exists.
\<close>

definition deletes_succeed :: "'w leases_api \<Rightarrow> ('w \<Rightarrow> string \<Rightarrow> lease list) \<Rightarrow> string \<Rightarrow> bool" where
  "deletes_succeed L store ns \<longleftrightarrow>
     (\<forall>w l. l_ID l \<in> l_ID ` set (store w ns) \<longrightarrow> fst (run_state (ls_Delete L (Some ns) l) w) = None)"

lemma gcOrphans_all:
  assumes laws: "lease_laws (cl_LeasesService (dm_client m)) store"
    and stat: "stat_laws (dm_localSn m) (cl_LeasesService (dm_client m)) present"
    and ok: "deletes_succeed (cl_LeasesService (dm_client m)) store ns"
    and "run_state (gcOrphans m c (Some ns) ls n) s = (d, s')"
    and "set ls \<subseteq> set (store (world s) ns)" and "distinct (map l_ID ls)"
    and "l \<in> set ls" "owner l \<noteq> []"
    and "\<forall>w. deletions (cl_LeasesService (dm_client m)) ns (world s) w \<longrightarrow>
           isl (fst (run_state (sn_Stat (dm_localSn m) c (owner l)) w))"
  shows "l_ID l \<notin> l_ID ` set (store (world s') ns)"
  using assms(4-)
proof (induction ls arbitrary: s n)
  case (Cons k ls)
  have mono: "set (store (world s') ns) \<subseteq> set (store w1 ns)"
    if "run_state (gcOrphans m c (Some ns) ls n') s1 = (d, s')" "world s1 = w1" for n' s1 w1
    using gcOrphans_swept [OF laws stat that(1)] that(2) by (auto simp: swept_def)
  have now: "isl (fst (run_state (sn_Stat (dm_localSn m) c (owner l)) (world s)))"
    by (rule Cons.prems(6) [rule_format, OF deletions_refl])
  from stat Cons.prems(1) show ?case
  proof (cases rule: gcOrphans_step)
    case keep
    then have "l \<noteq> k" using now Cons.prems(5) by auto
    then show ?thesis using Cons.IH [OF keep(2) _ _ _ Cons.prems(5,6)] Cons.prems(2-4) by simp
  next
    case (failed x err w1)
    have "l_ID k \<in> l_ID ` set (store (world s) ns)" using Cons.prems(2) by simp
    then have "fst (run_state (ls_Delete (cl_LeasesService (dm_client m)) (Some ns) k) (world s)) = None"
      using ok unfolding deletes_succeed_def by blast
    then show ?thesis using failed(3) by simp
  next
    case (deleted x w1)
    have st: "store w1 ns = filter (\<lambda>j. l_ID j \<noteq> l_ID k) (store (world s) ns)"
      using delete_lawD(2) [OF laws deleted(3)] by simp
    show ?thesis
    proof (cases "l = k")
      case True
      then show ?thesis using mono [OF deleted(4)] st by auto
    next
      case False
      have "set ls \<subseteq> set (store w1 ns)" using Cons.prems(2,3) st by (auto simp: image_iff)
      moreover have "\<forall>w. deletions (cl_LeasesService (dm_client m)) ns w1 w \<longrightarrow>
          isl (fst (run_state (sn_Stat (dm_localSn m) c (owner l)) w))"
        using Cons.prems(6) deletions_first [OF deleted(3)] by blast
      ultimately show ?thesis using Cons.IH [OF deleted(4) _ _ _ Cons.prems(5)] Cons.prems(3,4) False by simp
    qed
  qed
qed simp

text \<open>The count of the scrape hook, over leases that do not change meanwhile.\<close>

lemma countOrphans_eq:
  assumes "stat_laws S L present" and "stat_total S present"
  shows "run_state (countOrphans S c ls n) w =
           (n + length (filter (\<lambda>l. owner l \<noteq> [] \<and> \<not> present w (owner l)) ls), w)"
proof (induction ls arbitrary: n)
  case (Cons l ls)
  obtain r where st: "run_state (sn_Stat S c (owner l)) w = (r, w)"
    using stat_lawsD(1) [OF assms(1)] by (metis surj_pair)
  then show ?case using Cons.IH stat_total_iff [OF assms st]
    by (cases r) (auto simp: go_run Let_def owner_def [symmetric])
qed (simp add: go_run)


text \<open>The labels of a lease made by pinLayer.\<close>

definition pinLabels :: "string \<Rightarrow> labels" where
  "pinLabels key = [(leaseLabelManagedBy, leaseLabelManagedByValue), (leaseLabelOwnerKey, key)]"

lemma pinLabels_lease:
  "l_Labels l = pinLabels key \<Longrightarrow> managed l \<and> owner l = key \<and>
     map_of (l_Labels l) leaseLabelOwnerKey = Some key"
  by (simp add: managed_def owner_def map_get_def pinLabels_def dedup_consts)

text \<open>The lease was created: it stays when the layer was added, and else it is deleted again.\<close>

lemma pinLayer_created:
  assumes create: "run_state (ls_Create (cl_LeasesService (dm_client m)) (Some ns) [WithRandomID, WithLabels (pinLabels key)]) (world s) = (Inr l, w1)"
    and add: "run_state (ls_AddResource (cl_LeasesService (dm_client m)) (Some ns) l
      \<lparr>r_ID = chainID, r_Type = ''snapshots/'' @ overlayfsSnapshotterName\<rparr>) w1 = (e, w2)"
    and run: "run_state (pinLayer m ns chainID key) s = (r, s')"
  shows "case e of
      None \<Rightarrow> r = Inr l \<and> world s' = w2 \<and> pinnedSnapshotsTotal s' = pinnedSnapshotsTotal s + 1
    | Some err \<Rightarrow> (\<exists>e'. run_state (ls_Delete (cl_LeasesService (dm_client m)) (Some ns) l) w2 = (e', world s')) \<and>
        (\<exists>x. r = Inl x) \<and> pinnedSnapshotsTotal s' = pinnedSnapshotsTotal s"
  using run add
  by (auto simp: pinLayer_def go_run WithNamespace_def create Let_def pinLabels_def [symmetric] split: option.splits prod.splits)

lemma pinLayer_run:
  assumes laws: "lease_laws (cl_LeasesService (dm_client m)) store"
    and run: "run_state (pinLayer m ns chainID key) s = (r, s')"
  obtains (pinned) l where "r = Inr l" "l_Labels l = pinLabels key"
      "l_ID l \<notin> l_ID ` set (store (world s) ns)"
      "store (world s') = (store (world s))(ns := store (world s) ns @ [l])"
      "pinnedSnapshotsTotal s' = pinnedSnapshotsTotal s + 1"
  | (failed) e where "r = Inl e" "store (world s') = store (world s)"
      "pinnedSnapshotsTotal s' = pinnedSnapshotsTotal s"
  | (leaked) e l w2 e' where "r = Inl e" "l_Labels l = pinLabels key"
      "l_ID l \<notin> l_ID ` set (store (world s) ns)"
      "store (world s') = (store (world s))(ns := store (world s) ns @ [l])"
      "pinnedSnapshotsTotal s' = pinnedSnapshotsTotal s"
      "store w2 = store (world s')"
      "run_state (ls_Delete (cl_LeasesService (dm_client m)) (Some ns) l) w2 = (Some e', world s')"
proof -
  let ?L = "cl_LeasesService (dm_client m)"
  let ?opts = "[WithRandomID, WithLabels (pinLabels key)]"
  let ?res = "\<lparr>r_ID = chainID, r_Type = ''snapshots/'' @ overlayfsSnapshotterName\<rparr>"
  obtain c w1 where create: "run_state (ls_Create ?L (Some ns) ?opts) (world s) = (c, w1)" by fastforce
  show thesis
  proof (cases c)
    case (Inl e)
    have "store w1 = store (world s)" using create_lawD(1) [OF laws create Inl] .
    then show thesis using failed run Inl create
      by (auto simp: pinLayer_def go_run WithNamespace_def Let_def pinLabels_def [symmetric])
  next
    case (Inr l)
    have l: "l_Labels l = pinLabels key" "l_ID l \<notin> l_ID ` set (store (world s) ns)"
      "store w1 = (store (world s))(ns := store (world s) ns @ [l])"
      using create_lawD(2) [OF laws create Inr] by simp_all
    obtain e w2 where add: "run_state (ls_AddResource ?L (Some ns) l ?res) w1 = (e, w2)" by fastforce
    have st2: "store w2 = store w1" using resource_lawD [OF laws add] .
    note eff = pinLayer_created [OF create [unfolded Inr] add run]
    show thesis
    proof (cases e)
      case None
      then show thesis using pinned [of l] l st2 eff by simp
    next
      case (Some err)
      then obtain e' x where del: "run_state (ls_Delete ?L (Some ns) l) w2 = (e', world s')"
        and r: "r = Inl x" "pinnedSnapshotsTotal s' = pinnedSnapshotsTotal s" using eff by auto
      show thesis
      proof (cases e')
        case None
        then show thesis using failed [OF r(1) _ r(2)] delete_lawD(2) [OF laws del None] l st2 filter_fresh_id [OF l(2)] by auto
      next
        case (Some err')
        then show thesis using leaked [OF r(1) l(1,2) _ r(2) _ del [unfolded Some]] delete_lawD(1) [OF laws del Some] l(3) st2 by simp
      qed
    qed
  qed
qed

lemma unpinByActiveKey_run:
  assumes laws: "lease_laws (cl_LeasesService (dm_client m)) store"
    and run: "run_state (unpinByActiveKey m ns key) s = ((), s')"
  obtains D where "swept store ns D s s'"
    "D \<subseteq> l_ID ` {l \<in> set (store (world s) ns). map_of (l_Labels l) leaseLabelOwnerKey = Some key}"
proof -
  let ?L = "cl_LeasesService (dm_client m)"
  obtain r w1 where list: "run_state (ls_List ?L (Some ns) (labelFilter leaseLabelOwnerKey key)) (world s) = (r, w1)"
    by (cases "run_state (ls_List ?L (Some ns) (labelFilter leaseLabelOwnerKey key)) (world s)")
  have w1: "w1 = world s" using list_lawD(1) [OF laws list] .
  note go = unpinByActiveKey_def go_run WithNamespace_def list Let_def w1
  show thesis
  proof (cases r)
    case (Inl e)
    then have "swept store ns {} s s'" using run by (auto simp: go intro: swept_refl)
    then show thesis using that by blast
  next
    case (Inr ls)
    have ls: "ls = filter (\<lambda>l. map_of (l_Labels l) leaseLabelOwnerKey = Some key) (store (world s) ns)"
      using list_lawD(2) [OF laws list Inr] .
    have "run_state (unpinLeases ?L (Some ns) ls) s = ((), s')"
      using run Inr by (cases ls) (simp_all add: go)
    from unpinLeases_swept [OF laws this] obtain D where "swept store ns D s s'" "D \<subseteq> l_ID ` set ls"
      by blast
    then show thesis using that [of D] ls by auto
  qed
qed

end
