(* ===== verification/Reference_Host.thy ===== *)
theory Reference_Host
  imports Service Leases
begin

text \<open>
  A small in-memory host: directories with device numbers, two snapshot stores, leases and
  container records. It instantiates the interfaces of Host_API with operations that behave
  as documented, and the laws the properties assume are proved for it: the assumptions can
  hold together, and witnesses can run the daemon's operations on concrete data.
\<close>


section \<open>The host\<close>

record host =
  ho_dirs :: "(string, nat) gomap"
  ho_links :: "(string, string) gomap"
  ho_local :: "(string, info) gomap"
  ho_overlayfs :: "(string, info) gomap"
  ho_leases :: "(string \<times> lease) list"
  ho_containers :: "(string, container_info \<times> (string, string) gomap) gomap"

definition emptyHost :: host where
  "emptyHost = \<lparr>ho_dirs = [], ho_links = [], ho_local = [], ho_overlayfs = [], ho_leases = [],
                ho_containers = []\<rparr>"

definition reads :: "('w \<Rightarrow> 'a) \<Rightarrow> ('w, 'a) state" where
  "reads f = State (\<lambda>w. (f w, w))"

lemma run_reads [go_run]: "run_state (reads f) w = (f w, w)"
  by (simp add: reads_def)

lemma read_only_reads [simp]: "read_only (reads f)"
  by (simp add: read_only_def reads_def)


section \<open>Directories\<close>

fun mkdirAll :: "nat \<Rightarrow> string \<Rightarrow> (string, nat) gomap \<Rightarrow> (string, nat) gomap" where
  "mkdirAll 0 p fs = (if map_of fs p = None then (p, 0) # fs else fs)"
| "mkdirAll (Suc n) p fs =
     (if map_of fs p \<noteq> None then fs
      else let fs' = mkdirAll n (parentPath p) fs in
           if map_of fs' p \<noteq> None then fs'
           else (p, case map_of fs' (parentPath p) of Some d \<Rightarrow> d | None \<Rightarrow> 0) # fs')"

lemma mkdirAll_keeps: "map_of fs q = Some d \<Longrightarrow> map_of (mkdirAll n p fs) q = Some d"
  by (induction n p fs rule: mkdirAll.induct) (auto simp: Let_def)

lemma mkdirAll_makes: "map_of (mkdirAll n p fs) p \<noteq> None"
  by (cases n) (auto simp: Let_def)

definition hostOS :: "host os_api" where
  "hostOS =
     \<lparr>os_Stat = (\<lambda>p. reads (\<lambda>w. if map_of (ho_dirs w) p = None then Some (Sentinel ErrNotFound) else None)),
      sys_Stat_Dev = (\<lambda>p. reads (\<lambda>w. case map_of (ho_dirs w) p of
                                        None \<Rightarrow> Inl (Sentinel ErrNotFound) | Some d \<Rightarrow> Inr d)),
      os_MkdirAll = (\<lambda>p m. State (\<lambda>w. (None, w\<lparr>ho_dirs := mkdirAll (length p) p (ho_dirs w)\<rparr>))),
      os_RemoveAll = (\<lambda>p. State (\<lambda>w. (None, w\<lparr>ho_dirs := filter (\<lambda>(q, d). q \<noteq> p) (ho_dirs w)\<rparr>))),
      os_Symlink = (\<lambda>t p. State (\<lambda>w. (None, w\<lparr>ho_links := map_put (ho_links w) p t\<rparr>)))\<rparr>"

definition hostDev :: "host \<Rightarrow> string \<Rightarrow> nat option" where
  "hostDev w p = map_of (ho_dirs w) p"

definition hostDir :: "host \<Rightarrow> string \<Rightarrow> bool" where
  "hostDir w p = (map_of (ho_dirs w) p \<noteq> None)"

lemma hostOS_laws: "fs_laws hostOS hostDev hostDir"
  unfolding fs_laws_def hostOS_def hostDev_def hostDir_def
  by (auto simp: go_run mkdirAll_keeps mkdirAll_makes [simplified] split: option.splits)


section \<open>Leases\<close>

definition hostLeases :: "host \<Rightarrow> string \<Rightarrow> lease list" where
  "hostLeases w ns = map snd (filter (\<lambda>(n, l). n = ns) (ho_leases w))"

definition freshID :: "lease list \<Rightarrow> string" where
  "freshID ls = replicate (Suc (sum_list (map (\<lambda>l. length (l_ID l)) ls))) (CHR ''x'')"

definition hasLabel :: "string \<Rightarrow> lease \<Rightarrow> bool" where
  "hasLabel f l =
     list_ex (\<lambda>k. case map_of (l_Labels l) k of None \<Rightarrow> False | Some v \<Rightarrow> labelFilter k v = f)
       (map fst (l_Labels l))"

definition hostLeaseSvc :: "host leases_api" where
  "hostLeaseSvc =
     \<lparr>ls_Create = (\<lambda>c opts. State (\<lambda>w.
        case c of
          None \<Rightarrow> (Inl (Sentinel ''namespace is required''), w)
        | Some ns \<Rightarrow>
            (let l = \<lparr>l_ID = freshID (hostLeases w ns),
                      l_CreatedAt = \<lparr>t_year = 2026, t_month = 1, t_day = 2, t_hour = 3, t_minute = 4, t_second = 5\<rparr>,
                      l_Labels = optLabels opts\<rparr>
             in (Inr l, w\<lparr>ho_leases := ho_leases w @ [(ns, l)]\<rparr>)))),
      ls_AddResource = (\<lambda>c l r. reads (\<lambda>w. None)),
      ls_Delete = (\<lambda>c l. State (\<lambda>w.
        case c of
          None \<Rightarrow> (Some (Sentinel ''namespace is required''), w)
        | Some ns \<Rightarrow>
            if l_ID l \<in> l_ID ` set (hostLeases w ns) then
              (None, w\<lparr>ho_leases := filter (\<lambda>(n, k). \<not> (n = ns \<and> l_ID k = l_ID l)) (ho_leases w)\<rparr>)
            else (Some (Sentinel ErrNotFound), w))),
      ls_List = (\<lambda>c f. reads (\<lambda>w.
        case c of
          None \<Rightarrow> Inl (Sentinel ''namespace is required'')
        | Some ns \<Rightarrow> Inr (filter (hasLabel f) (hostLeases w ns))))\<rparr>"

lemma freshID_fresh: "freshID ls \<notin> l_ID ` set ls"
proof
  assume "freshID ls \<in> l_ID ` set ls"
  then obtain l where "l \<in> set ls" and "l_ID l = freshID ls" by auto
  then have "length (freshID ls) \<in> set (map (\<lambda>l. length (l_ID l)) ls)" by force
  then have "length (freshID ls) \<le> sum_list (map (\<lambda>l. length (l_ID l)) ls)"
    by (rule member_le_sum_list) simp
  then show False by (simp add: freshID_def)
qed

lemma hasLabel_filter: "hasLabel (labelFilter k v) l \<longleftrightarrow> map_of (l_Labels l) k = Some v"
proof
  assume "map_of (l_Labels l) k = Some v"
  moreover from this have "k \<in> fst ` set (l_Labels l)" by (metis domI dom_map_of_conv_image_fst)
  ultimately show "hasLabel (labelFilter k v) l" by (force simp: hasLabel_def list_ex_iff)
qed (auto simp: hasLabel_def list_ex_iff labelFilter_inject split: option.splits)

lemma hostLeases_update:
  "hostLeases (w\<lparr>ho_leases := ho_leases w @ [(ns, l)]\<rparr>) = (hostLeases w)(ns := hostLeases w ns @ [l])"
  by (auto simp: hostLeases_def fun_eq_iff)

lemma hostLeases_filter:
  "hostLeases (w\<lparr>ho_leases := filter (\<lambda>(n, k). \<not> (n = ns \<and> P k)) (ho_leases w)\<rparr>) =
     (hostLeases w)(ns := filter (\<lambda>k. \<not> P k) (hostLeases w ns))"
  by (auto simp: hostLeases_def fun_eq_iff filter_map o_def split_def intro!: arg_cong [where f = "map snd"] filter_cong)

lemma hasLabel_filter_eq:
  "filter (hasLabel (labelFilter k v)) ls = filter (\<lambda>l. map_of (l_Labels l) k = Some v) ls"
  by (rule filter_cong) (simp_all add: hasLabel_filter)

lemma hostLeaseSvc_laws: "lease_laws hostLeaseSvc hostLeases"
proof -
  have "create_law hostLeaseSvc hostLeases"
    by (auto simp: create_law_def hostLeaseSvc_def Let_def hostLeases_update freshID_fresh)
  moreover have "resource_law hostLeaseSvc hostLeases"
    by (auto simp: resource_law_def hostLeaseSvc_def go_run)
  moreover have "delete_law hostLeaseSvc hostLeases"
    by (auto simp: delete_law_def hostLeaseSvc_def hostLeases_filter [simplified] split: if_splits)
  moreover have "list_law hostLeaseSvc hostLeases"
    by (auto simp: list_law_def hostLeaseSvc_def go_run hasLabel_filter_eq)
  ultimately show ?thesis by (simp add: lease_laws_def)
qed

lemma hostLeaseSvc_deletes: "deletes_succeed hostLeaseSvc hostLeases ns"
  by (simp add: deletes_succeed_def hostLeaseSvc_def)



section \<open>Snapshots\<close>

text \<open>
  A snapshot store: keys with their Info. The mounts of a snapshot without parent are a bind
  mount of its directory, those of a snapshot with a parent are an overlay whose lower layer is
  the parent's directory, as the overlay snapshotter of containerd lays them out.
\<close>

definition snapDir :: "string \<Rightarrow> string \<Rightarrow> string" where
  "snapDir root key = root @ ''/snapshots/'' @ key"

definition snapMounts :: "string \<Rightarrow> string \<Rightarrow> info \<Rightarrow> mount list" where
  "snapMounts root key i =
     (if i_Parent i = [] then
        [\<lparr>m_Type = ''bind'', m_Source = snapDir root key @ ''/fs'', m_Target = [],
          m_Options = [if i_Kind i = KindView then ''ro'' else ''rw'', ''rbind'']\<rparr>]
      else
        [\<lparr>m_Type = ''overlay'', m_Source = ''overlay'', m_Target = [],
          m_Options =
            (if i_Kind i = KindActive
             then [''workdir='' @ snapDir root key @ ''/work'', ''upperdir='' @ snapDir root key @ ''/fs'']
             else []) @
            [''lowerdir='' @ snapDir root (i_Parent i) @ ''/fs'']\<rparr>])"

definition snapCreate ::
  "(host \<Rightarrow> (string, info) gomap) \<Rightarrow> ((string, info) gomap \<Rightarrow> host \<Rightarrow> host) \<Rightarrow> string \<Rightarrow> kind \<Rightarrow>
   string \<Rightarrow> string \<Rightarrow> (host, gerr + mount list) state" where
  "snapCreate sel put root kd key parent = State (\<lambda>w.
     if map_of (sel w) key \<noteq> None then (Inl (Sentinel ErrAlreadyExists), w)
     else if parent \<noteq> [] \<and> (case map_of (sel w) parent of
                                None \<Rightarrow> True | Some i \<Rightarrow> i_Kind i \<noteq> KindCommitted)
     then (Inl (Sentinel ErrNotFound), w)
     else let i = \<lparr>i_Kind = kd, i_Name = key, i_Parent = parent, i_Labels = []\<rparr>
          in (Inr (snapMounts root key i), put (map_put (sel w) key i) w))"

definition snapStore ::
  "(host \<Rightarrow> (string, info) gomap) \<Rightarrow> ((string, info) gomap \<Rightarrow> host \<Rightarrow> host) \<Rightarrow> string \<Rightarrow>
   host snapshotter_api" where
  "snapStore sel put root =
     \<lparr>sn_Stat = (\<lambda>c k. reads (\<lambda>w. case map_of (sel w) k of
                                     None \<Rightarrow> Inl (Sentinel ErrNotFound) | Some i \<Rightarrow> Inr i)),
      sn_Update = (\<lambda>c i fps. State (\<lambda>w.
        if map_of (sel w) (i_Name i) = None then (Inl (Sentinel ErrNotFound), w)
        else (Inr i, put (map_put (sel w) (i_Name i) i) w))),
      sn_Usage = (\<lambda>c k. reads (\<lambda>w. Inr \<lparr>u_Inodes = 0, u_Size = 0\<rparr>)),
      sn_Mounts = (\<lambda>c k. reads (\<lambda>w. case map_of (sel w) k of
                                       None \<Rightarrow> Inl (Sentinel ErrNotFound)
                                     | Some i \<Rightarrow> Inr (snapMounts root k i))),
      sn_Prepare = (\<lambda>c key parent opts. snapCreate sel put root KindActive key parent),
      sn_View = (\<lambda>c key parent opts. snapCreate sel put root KindView key parent),
      sn_Commit = (\<lambda>c name key opts. State (\<lambda>w.
        case map_of (sel w) key of
          None \<Rightarrow> (Some (Sentinel ErrNotFound), w)
        | Some i \<Rightarrow>
            if map_of (sel w) name \<noteq> None then (Some (Sentinel ErrAlreadyExists), w)
            else (None, put (map_put (filter (\<lambda>(k, i). k \<noteq> key) (sel w)) name
                               (i\<lparr>i_Kind := KindCommitted, i_Name := name\<rparr>)) w))),
      sn_Remove = (\<lambda>c key. State (\<lambda>w.
        if map_of (sel w) key = None then (Some (Sentinel ErrNotFound), w)
        else (None, put (filter (\<lambda>(k, i). k \<noteq> key) (sel w)) w))),
      sn_Walk = (\<lambda>c fn filters. reads (\<lambda>w. None)),
      sn_Close = reads (\<lambda>w. None)\<rparr>"

definition localSnapshotter :: "host snapshotter_api" where
  "localSnapshotter = snapStore ho_local (\<lambda>m w. w\<lparr>ho_local := m\<rparr>) ''/pv''"

definition overlayfsSnapshotter :: "host snapshotter_api" where
  "overlayfsSnapshotter = snapStore ho_overlayfs (\<lambda>m w. w\<lparr>ho_overlayfs := m\<rparr>) ''/ovl''"

definition hostPresent :: "host \<Rightarrow> string \<Rightarrow> bool" where
  "hostPresent w k = (map_of (ho_local w) k \<noteq> None)"

lemma hostLeaseSvc_delete_local:
  "ho_local (snd (run_state (ls_Delete hostLeaseSvc c l) w)) = ho_local w"
  by (simp add: hostLeaseSvc_def split: option.splits)

lemma host_stat_laws: "stat_laws localSnapshotter hostLeaseSvc hostPresent"
  by (auto simp: stat_laws_def localSnapshotter_def snapStore_def hostPresent_def fun_eq_iff go_run
      hostLeaseSvc_delete_local split: option.splits)

lemma host_stat_total: "stat_total localSnapshotter hostPresent"
  by (auto simp: stat_total_def localSnapshotter_def snapStore_def hostPresent_def go_run)


section \<open>The containerd client\<close>

definition hostClient :: "host client" where
  "hostClient =
     \<lparr>cl_Containers = (\<lambda>c f. reads (\<lambda>w. Inr (filter (\<lambda>i. ''id=='' @ i = f) (map fst (ho_containers w))))),
      cl_Info = (\<lambda>c ctr. reads (\<lambda>w. case map_of (ho_containers w) ctr of
                                       None \<Rightarrow> Inl (Sentinel ErrNotFound) | Some x \<Rightarrow> Inr (fst x))),
      cl_Extensions = (\<lambda>c ctr. reads (\<lambda>w. case map_of (ho_containers w) ctr of
                                       None \<Rightarrow> Inl (Sentinel ErrNotFound) | Some x \<Rightarrow> Inr (snd x))),
      cl_SnapshotService = (\<lambda>name. overlayfsSnapshotter),
      cl_LeasesService = hostLeaseSvc,
      cl_Close = reads (\<lambda>w. None)\<rparr>"

definition hostDedup :: "host dedupManager" where
  "hostDedup = newDedupManager ''node-1'' hostClient localSnapshotter"

lemma hostDedup_simps [simp]:
  "dm_client hostDedup = hostClient" "dm_localSn hostDedup = localSnapshotter"
  "cl_LeasesService hostClient = hostLeaseSvc" "cl_SnapshotService hostClient name = overlayfsSnapshotter"
  by (simp_all add: hostDedup_def newDedupManager_def hostClient_def)

definition hostNode :: "host \<Rightarrow> host node" where
  "hostNode w = \<lparr>world = w, pinnedSnapshotsTotal = 0, unpinFailuresTotal = 0, orphanLeasesTotal = 0\<rparr>"

lemma hostNode_simps [simp]:
  "world (hostNode w) = w" "pinnedSnapshotsTotal (hostNode w) = 0"
  by (simp_all add: hostNode_def)



section \<open>A node with one pod\<close>

text \<open>
  Container c1 of a pod whose sandbox sb1 carries the annotations \<open>annotations\<close>, on a host with
  a volume mounted at /vol; its active snapshot sits on one committed layer.
\<close>

definition layerID :: string where
  "layerID = ''sha256:'' @ replicate 64 (CHR ''a'')"

definition podConfig :: "(string, string) gomap \<Rightarrow> podSandboxConfig" where
  "podConfig annotations =
     \<lparr>psc_Metadata = Some \<lparr>om_Name = ''web-0'', om_UID = ''u1'', om_Namespace = ''prod''\<rparr>,
      psc_Annotations = annotations\<rparr>"

definition hostResolver :: "host resolver" where
  "hostResolver =
     \<lparr>res_client = hostClient,
      keyLiteral = Key defaultPrefix annotationSuffixUpperdirPath,
      keyTemplate = Key defaultPrefix annotationSuffixUpperdirPathTemplate,
      keyVarPrefix = Key defaultPrefix annotationSuffixVarSubPrefix\<rparr>"

definition hostPackages :: "(string, string) gomap \<Rightarrow> (host, tnode list) packages" where
  "hostPackages annotations =
     \<lparr>pk_template = fragment [] (\<lambda>g v. v) map_field,
      pk_unmarshal = (\<lambda>raw. if raw = ''sb1-metadata''
                            then Inr \<lparr>sm_Metadata = \<lparr>smi_Config = Some (podConfig annotations)\<rparr>\<rparr>
                            else Inl (Errorf ''invalid character'' [raw])),
      pk_os = hostOS\<rparr>"

definition hostService :: "bool \<Rightarrow> host snapshotter" where
  "hostService share =
     \<lparr>ss_resolver = hostResolver, ss_dedup = (if share then Some hostDedup else None),
      ss_Snapshotter = localSnapshotter, ss_client = hostClient\<rparr>"

definition podHost :: host where
  "podHost = emptyHost\<lparr>
     ho_dirs := [(''/'', 1), (''/vol'', 7)],
     ho_local := [(''k8s.io/1/'' @ layerID,
                   \<lparr>i_Kind = KindCommitted, i_Name = ''k8s.io/1/'' @ layerID, i_Parent = [], i_Labels = []\<rparr>),
                  (''k8s.io/2/c1'',
                   \<lparr>i_Kind = KindActive, i_Name = ''k8s.io/2/c1'', i_Parent = ''k8s.io/1/'' @ layerID, i_Labels = []\<rparr>)],
     ho_containers :=
       [(''c1'', \<lparr>c_Labels = [(criKindLabel, criKindContainer)], c_SandboxID = ''sb1''\<rparr>, []),
        (''sb1'', \<lparr>c_Labels = [(criKindLabel, criKindSandbox)], c_SandboxID = []\<rparr>,
                 [(criSandboxMetadataExtension, ''sb1-metadata'')])]\<rparr>"

end
