(* ===== verification/Mount_Props.thy ===== *)
theory Mount_Props
  imports Reference_Host
begin

text \<open>
  Properties of mount.go and of the Mounts method: the rewriting of the overlay options, the
  readiness check, and what Mounts returns on each of its branches.
\<close>


section \<open>Option rewriting\<close>

text \<open>C7: on a writable overlay mount the rewriting replaces exactly the upperdir and workdir
  options, in place, by the upper/ and work/ directories of the given root; lowerdir and every
  other option, the type, the source and all further mounts are returned unchanged.\<close>

theorem replaceUpperdirOptions_overlay:
  assumes "m_Type m = ''overlay''" and "opt \<in> set (m_Options m)" and "has_prefix opt ''upperdir=''"
  shows "\<exists>opts. replaceUpperdirOptions (m # rest) root = m\<lparr>m_Options := opts\<rparr> # rest \<and>
           length opts = length (m_Options m) \<and>
           (\<forall>i < length opts.
              opts ! i = (if has_prefix (m_Options m ! i) ''upperdir='' then ''upperdir='' @ root @ ''/upper''
                          else if has_prefix (m_Options m ! i) ''workdir='' then ''workdir='' @ root @ ''/work''
                          else m_Options m ! i))"
proof -
  have "writableOverlay (m # rest)" using assms by (auto simp: writableOverlay_def)
  then show ?thesis
    by (intro exI [of _ "map (rewriteOption root) (m_Options m)"])
       (simp add: upperdir_rewrite.rewrite_overlay rewriteOption_def)
qed

theorem replaceUpperdirOptions_overlay_witness:
  "\<exists>opts. replaceUpperdirOptions
      [\<lparr>m_Type = ''overlay'', m_Source = ''overlay'', m_Target = [],
        m_Options = [''index=off'', ''workdir=/s/1/work'', ''upperdir=/s/1/fs'', ''lowerdir=/s/0/fs'']\<rparr>] ''/vol'' =
      [\<lparr>m_Type = ''overlay'', m_Source = ''overlay'', m_Target = [], m_Options = opts\<rparr>] \<and>
    length opts = 4 \<and> opts ! 2 = ''upperdir=/vol/upper''"
  using replaceUpperdirOptions_overlay
    [of "\<lparr>m_Type = ''overlay'', m_Source = ''overlay'', m_Target = [],
          m_Options = [''index=off'', ''workdir=/s/1/work'', ''upperdir=/s/1/fs'', ''lowerdir=/s/0/fs'']\<rparr>"
        "''upperdir=/s/1/fs''" "[]" "''/vol''"]
  by auto

text \<open>Rewriting twice is rewriting once: the second root wins and nothing of the first is left,
  whatever the mounts are. In particular the rewriting is idempotent.\<close>

theorem replaceUpperdirOptions_absorb:
  "replaceUpperdirOptions (replaceUpperdirOptions mounts a) b = replaceUpperdirOptions mounts b"
  by (rule upperdir_rewrite.rewrite_absorb)

text \<open>The mounts are returned as they are exactly when there is none, when the first is not an
  overlay, when it has no upperdir option, or when its options already name the given root.\<close>

theorem replaceUpperdirOptions_unchanged_iff:
  "replaceUpperdirOptions mounts root = mounts \<longleftrightarrow>
     (case mounts of
        [] \<Rightarrow> True
      | m # _ \<Rightarrow> m_Type m \<noteq> ''overlay'' \<or> \<not> (\<exists>opt \<in> set (m_Options m). has_prefix opt ''upperdir='') \<or>
                 (\<forall>opt \<in> set (m_Options m). rewriteOption root opt = opt))"
proof (cases mounts)
  case (Cons m rest)
  have "m\<lparr>m_Options := map f (m_Options m)\<rparr> = m \<longleftrightarrow> (\<forall>opt \<in> set (m_Options m). f opt = opt)" for f
    by (cases m) (auto simp: map_idI map_eq_conv [of f _ "\<lambda>x. x", simplified])
  then show ?thesis using Cons
    by (auto simp: replaceUpperdirOptions_def hasUpperdir_iff)
qed (simp add: replaceUpperdirOptions_def)

theorem replaceUpperdirOptions_unchanged_iff_witness:
  "replaceUpperdirOptions
     [\<lparr>m_Type = ''overlay'', m_Source = ''overlay'', m_Target = [],
       m_Options = [''lowerdir=/s/1/fs:/s/0/fs'']\<rparr>] ''/vol'' =
     [\<lparr>m_Type = ''overlay'', m_Source = ''overlay'', m_Target = [],
       m_Options = [''lowerdir=/s/1/fs:/s/0/fs'']\<rparr>] \<and>
   replaceUpperdirOptions
     [\<lparr>m_Type = ''overlay'', m_Source = ''overlay'', m_Target = [],
       m_Options = [''upperdir=/s/1/fs'']\<rparr>] ''/vol'' \<noteq>
     [\<lparr>m_Type = ''overlay'', m_Source = ''overlay'', m_Target = [],
       m_Options = [''upperdir=/s/1/fs'']\<rparr>]"
  by (simp only: replaceUpperdirOptions_unchanged_iff) (simp add: rewriteOption_def)


section \<open>The readiness check\<close>

text \<open>The parent of an upperdir root given as a directory and a last component, with any number
  of trailing slashes, is that directory (the root directory when nothing precedes the last
  slash).\<close>

theorem parentPath_split:
  assumes "base \<noteq> []" and "CHR ''/'' \<notin> set base"
  shows "parentPath (dir @ ''/'' @ base @ replicate n (CHR ''/'')) = (if dir = [] then ''/'' else dir)"
proof -
  have "last (dir @ CHR ''/'' # base) \<noteq> CHR ''/''" using assms by (metis last_appendR last_ConsR last_in_set list.distinct(1))
  then have "trim_right (dir @ ''/'' @ base @ replicate n (CHR ''/'')) (CHR ''/'') = dir @ CHR ''/'' # base"
    using trim_right_replicate [of "dir @ CHR ''/'' # base"] by (simp add: trim_right_id)
  then show ?thesis using assms by (simp add: parentPath_def Let_def last_index_append)
qed

theorem parentPath_split_witness:
  "parentPath ''/var/lib/kubelet/pods/u/mount//'' = ''/var/lib/kubelet/pods/u''"
  using parentPath_split [of "''mount''" "''/var/lib/kubelet/pods/u''" 2] by (simp add: numeral_2_eq_2)

text \<open>When the readiness check succeeds, the root is a mountpoint (its device differs from its
  parent's) and both the upper/ and the work/ directory exist under it.\<close>

theorem ensureUpperdirReady_sound:
  assumes laws: "fs_laws os dev isdir"
    and run: "run_state (ensureUpperdirReady os root) w = (None, w')"
  shows "\<exists>dr dp. dev w' root = Some dr \<and> dev w' (parentPath root) = Some dp \<and> dr \<noteq> dp \<and>
           isdir w' (root @ ''/upper'') \<and> isdir w' (root @ ''/work'')"
  using ensureUpperdirReady_ok [OF laws run] by blast

definition exampleHost :: host where
  "exampleHost = emptyHost\<lparr>ho_dirs := [(''/'', 1), (''/vol'', 7)]\<rparr>"

theorem ensureUpperdirReady_sound_witness:
  "\<exists>w'. run_state (ensureUpperdirReady hostOS ''/vol'') exampleHost = (None, w') \<and>
        hostDir w' ''/vol/upper'' \<and> hostDir w' ''/vol/work''"
proof -
  let ?w = "snd (run_state (ensureUpperdirReady hostOS ''/vol'') exampleHost)"
  have "fst (run_state (ensureUpperdirReady hostOS ''/vol'') exampleHost) = None" by code_simp
  then have run: "run_state (ensureUpperdirReady hostOS ''/vol'') exampleHost = (None, ?w)"
    by (metis prod.collapse)
  from ensureUpperdirReady_sound [OF hostOS_laws run] run show ?thesis by (auto simp del: prod.collapse)
qed

text \<open>A path that is not a mountpoint (same device as its parent) is refused, and nothing is
  written: the check never creates upper/ or work/ on the host's own disk.\<close>

theorem ensureUpperdirReady_not_mounted:
  assumes laws: "fs_laws os dev isdir" and same: "dev w root = dev w (parentPath root)"
  shows "\<exists>err. run_state (ensureUpperdirReady os root) w = (Some err, w)"
  using laws
proof (cases rule: ensureUpperdirReady_cases [where root = root and w = w])
  case (mountpoint dr dp)
  then show ?thesis using same by simp
qed blast

theorem ensureUpperdirReady_not_mounted_witness:
  "\<exists>err. run_state (ensureUpperdirReady hostOS ''/vol'') (emptyHost\<lparr>ho_dirs := [(''/'', 1), (''/vol'', 1)]\<rparr>) =
     (Some err, emptyHost\<lparr>ho_dirs := [(''/'', 1), (''/vol'', 1)]\<rparr>)"
proof (rule ensureUpperdirReady_not_mounted [OF hostOS_laws])
  show "hostDev (emptyHost\<lparr>ho_dirs := [(''/'', 1), (''/vol'', 1)]\<rparr>) ''/vol'' =
        hostDev (emptyHost\<lparr>ho_dirs := [(''/'', 1), (''/vol'', 1)]\<rparr>) (parentPath ''/vol'')"
    by code_simp
qed



section \<open>Mounts\<close>

abbreviation resolvePath ::
  "('w, 't) packages \<Rightarrow> 'w snapshotter \<Rightarrow> string \<Rightarrow> ('w, string \<times> gerr option) state" where
  "resolvePath P sn key \<equiv>
     resolveAtMountsTime (pk_template P) (pk_unmarshal P) (ss_resolver sn) key"

lemma svc_Mounts_run:
  "run_state (svc_Mounts P sn c key) s =
     (case run_state (sn_Mounts (ss_Snapshotter sn) c key) (world s) of
        (Inl err, w1) \<Rightarrow> (Returns ([], Some err), s\<lparr>world := w1\<rparr>)
      | (Inr native, w1) \<Rightarrow>
          (case run_state (resolvePath P sn key) w1 of
             ((path, e), w2) \<Rightarrow>
               if path = [] then (Returns (native, None), s\<lparr>world := w2\<rparr>)
               else (case run_state (ensureUpperdirReady (pk_os P) path) w2 of
                       (Some err, w3) \<Rightarrow> (Returns (native, Some err), s\<lparr>world := w3\<rparr>)
                     | (None, w3) \<Rightarrow>
                         (if native = [] then Panic ''index out of range''
                          else Returns (replaceUpperdirOptions native path, None),
                          s\<lparr>world := w3\<rparr>))))"
  by (auto simp: svc_Mounts_def go_run Let_def split: prod.splits sum.splits option.splits)

lemma svc_Mounts_ok:
  assumes laws: "fs_laws (pk_os P) dev isdir"
    and run: "run_state (svc_Mounts P sn c key) s = (Returns (mounts, None), s')"
  shows "\<exists>native w1 path e w2.
           run_state (sn_Mounts (ss_Snapshotter sn) c key) (world s) = (Inr native, w1) \<and>
           run_state (resolvePath P sn key) w1 = ((path, e), w2) \<and>
           (if path = [] then mounts = native
            else mounts = replaceUpperdirOptions native path \<and>
                 (\<exists>dr dp. dev (world s') path = Some dr \<and> dev (world s') (parentPath path) = Some dp \<and> dr \<noteq> dp) \<and>
                 isdir (world s') (path @ ''/upper'') \<and> isdir (world s') (path @ ''/work''))"
proof -
  obtain native w1 where native: "run_state (sn_Mounts (ss_Snapshotter sn) c key) (world s) = (Inr native, w1)"
    using run by (auto simp: svc_Mounts_run split: prod.splits sum.splits)
  obtain path e w2 where path: "run_state (resolvePath P sn key) w1 = ((path, e), w2)"
    by (metis surj_pair)
  show ?thesis
  proof (cases "path = []")
    case True
    then show ?thesis using run native path by (auto simp: svc_Mounts_run)
  next
    case False
    then obtain w3 where ready: "run_state (ensureUpperdirReady (pk_os P) path) w2 = (None, w3)"
      and "mounts = replaceUpperdirOptions native path" "world s' = w3"
      using run native path by (auto simp: svc_Mounts_run split: prod.splits option.splits if_splits)
    then show ?thesis
      using native path False ensureUpperdirReady_ok [OF laws ready] by auto
  qed
qed

text \<open>C1: Mounts without error returns either the native mounts, when the resolver found no upperdir
  path, or the native mounts with their upperdir and workdir redirected under the resolved
  path; and then that path is a mountpoint with both directories in place. There is no third
  outcome: an unready volume never yields mounts without an error.\<close>

theorem svc_Mounts_sound:
  assumes laws: "fs_laws (pk_os P) dev isdir"
    and run: "run_state (svc_Mounts P sn c key) s = (Returns (mounts, None), s')"
  shows "\<exists>native w1 path e w2.
           run_state (sn_Mounts (ss_Snapshotter sn) c key) (world s) = (Inr native, w1) \<and>
           run_state (resolvePath P sn key) w1 = ((path, e), w2) \<and>
           (if path = [] then mounts = native
            else mounts = replaceUpperdirOptions native path \<and>
                 (\<exists>dr dp. dev (world s') path = Some dr \<and> dev (world s') (parentPath path) = Some dp \<and> dr \<noteq> dp) \<and>
                 isdir (world s') (path @ ''/upper'') \<and> isdir (world s') (path @ ''/work''))"
  using assms by (rule svc_Mounts_ok)

theorem svc_Mounts_sound_witness:
  "\<exists>mounts s'. run_state (svc_Mounts (hostPackages [(Key defaultPrefix ''upperdir-path'', ''/vol'')])
        (hostService False) None ''k8s.io/2/c1'') (hostNode podHost) = (Returns (mounts, None), s') \<and>
     ''upperdir=/vol/upper'' \<in> set (m_Options (hd mounts)) \<and> hostDir (world s') ''/vol/work''"
proof -
  let ?P = "hostPackages [(Key defaultPrefix ''upperdir-path'', ''/vol'')]"
  let ?m = "svc_Mounts ?P (hostService False) None ''k8s.io/2/c1''"
  let ?mounts = "[\<lparr>m_Type = ''overlay'', m_Source = ''overlay'', m_Target = [],
      m_Options = [''workdir=/vol/work'', ''upperdir=/vol/upper'',
        ''lowerdir=/pv/snapshots/k8s.io/1/'' @ layerID @ ''/fs'']\<rparr>]"
  have "fst (run_state ?m (hostNode podHost)) = Returns (?mounts, None)" by code_simp
  note run = fst_run [OF this]
  have laws: "fs_laws (pk_os ?P) hostDev hostDir" by (simp add: hostPackages_def hostOS_laws)
  have "fst (run_state (resolvePath ?P (hostService False) ''k8s.io/2/c1'') podHost) = (''/vol'', None)"
    by code_simp
  note path = fst_run [OF this]
  have "snd (run_state (sn_Mounts (ss_Snapshotter (hostService False)) None ''k8s.io/2/c1'') podHost) = podHost"
    by (simp add: hostService_def localSnapshotter_def snapStore_def go_run)
  then have "hostDir (world (snd (run_state ?m (hostNode podHost)))) ''/vol/work''"
    using svc_Mounts_sound [OF laws run] path by auto
  with run show ?thesis
    by (intro exI [of _ ?mounts] exI [of _ "snd (run_state ?m (hostNode podHost))"]) simp
qed


text \<open>C20: when the pod asks for a path that is not a mounted volume, Mounts fails: it returns an
  error, never mounts alone, and leaves the world as the lookups left it (no upper/ or work/
  directory is created under the unmounted path).\<close>

theorem svc_Mounts_fails_hard:
  assumes laws: "fs_laws (pk_os P) dev isdir"
    and native: "run_state (sn_Mounts (ss_Snapshotter sn) c key) (world s) = (Inr native, w1)"
    and path: "run_state (resolvePath P sn key) w1 = ((path, e), w2)" "path \<noteq> []"
    and unmounted: "dev w2 path = dev w2 (parentPath path)"
  shows "\<exists>err. run_state (svc_Mounts P sn c key) s = (Returns (native, Some err), s\<lparr>world := w2\<rparr>)"
proof -
  obtain err where "run_state (ensureUpperdirReady (pk_os P) path) w2 = (Some err, w2)"
    using laws unmounted
    by (cases rule: ensureUpperdirReady_cases [where root = path and w = w2]) auto
  then show ?thesis using native path by (auto simp: svc_Mounts_run)
qed

definition unmountedHost :: host where
  "unmountedHost = podHost\<lparr>ho_dirs := [(''/'', 1), (''/vol'', 1)]\<rparr>"

lemma podHost_native:
  assumes "ho_local w = ho_local podHost"
  shows "run_state (sn_Mounts (ss_Snapshotter (hostService share)) c ''k8s.io/2/c1'') w =
     (Inr (snapMounts ''/pv'' ''k8s.io/2/c1''
        \<lparr>i_Kind = KindActive, i_Name = ''k8s.io/2/c1'', i_Parent = ''k8s.io/1/'' @ layerID, i_Labels = []\<rparr>), w)"
  using assms by (simp add: hostService_def localSnapshotter_def snapStore_def go_run podHost_def layerID_def)

theorem svc_Mounts_fails_hard_witness:
  "\<exists>native err s'. run_state (svc_Mounts (hostPackages [(Key defaultPrefix ''upperdir-path'', ''/vol'')])
        (hostService False) None ''k8s.io/2/c1'') (hostNode unmountedHost) = (Returns (native, Some err), s')"
proof -
  let ?P = "hostPackages [(Key defaultPrefix ''upperdir-path'', ''/vol'')]"
  let ?r = "resolvePath ?P (hostService False) ''k8s.io/2/c1''"
  have laws: "fs_laws (pk_os ?P) hostDev hostDir" by (simp add: hostPackages_def hostOS_laws)
  have native: "run_state (sn_Mounts (ss_Snapshotter (hostService False)) None ''k8s.io/2/c1'') (world (hostNode unmountedHost)) =
      (Inr (snapMounts ''/pv'' ''k8s.io/2/c1''
        \<lparr>i_Kind = KindActive, i_Name = ''k8s.io/2/c1'', i_Parent = ''k8s.io/1/'' @ layerID, i_Labels = []\<rparr>), unmountedHost)"
    by (simp add: podHost_native unmountedHost_def)
  have "fst (run_state ?r unmountedHost) = (''/vol'', None)" by code_simp
  note path = fst_run [OF this]
  have "hostDev (snd (run_state ?r unmountedHost)) ''/vol'' =
      hostDev (snd (run_state ?r unmountedHost)) (parentPath ''/vol'')" by code_simp
  from svc_Mounts_fails_hard [where dev = hostDev and isdir = hostDir and path = "''/vol''", OF laws native path _ this]
  show ?thesis by blast
qed

text \<open>C33: a failure of the resolver does not fail the mount: whenever the resolver returns no path,
  with or without an error, Mounts returns the native mounts unchanged and no error.\<close>

theorem svc_Mounts_resolver_fallback:
  assumes native: "run_state (sn_Mounts (ss_Snapshotter sn) c key) (world s) = (Inr native, w1)"
    and path: "run_state (resolvePath P sn key) w1 = (([], e), w2)"
  shows "run_state (svc_Mounts P sn c key) s = (Returns (native, None), s\<lparr>world := w2\<rparr>)"
  using assms by (simp add: svc_Mounts_run)

definition garbledHost :: host where
  "garbledHost = podHost\<lparr>ho_containers :=
     [(''c1'', \<lparr>c_Labels = [(criKindLabel, criKindContainer)], c_SandboxID = ''sb1''\<rparr>, []),
      (''sb1'', \<lparr>c_Labels = [(criKindLabel, criKindSandbox)], c_SandboxID = []\<rparr>,
               [(criSandboxMetadataExtension, ''garbled'')])]\<rparr>"

theorem svc_Mounts_resolver_fallback_witness:
  "\<exists>err native s'.
     fst (run_state (resolvePath (hostPackages []) (hostService False) ''k8s.io/2/c1'') garbledHost) = ([], Some err) \<and>
     run_state (svc_Mounts (hostPackages []) (hostService False) None ''k8s.io/2/c1'') (hostNode garbledHost) =
       (Returns (native, None), s')"
proof -
  let ?r = "resolvePath (hostPackages []) (hostService False) ''k8s.io/2/c1''"
  let ?err = "Wrapf ''unmarshaling sandbox metadata (key=%s): %w'' [''k8s.io/2/c1'']
                (Errorf ''invalid character'' [''garbled''])"
  have native: "run_state (sn_Mounts (ss_Snapshotter (hostService False)) None ''k8s.io/2/c1'') (world (hostNode garbledHost)) =
      (Inr (snapMounts ''/pv'' ''k8s.io/2/c1''
        \<lparr>i_Kind = KindActive, i_Name = ''k8s.io/2/c1'', i_Parent = ''k8s.io/1/'' @ layerID, i_Labels = []\<rparr>), garbledHost)"
    by (simp add: podHost_native garbledHost_def)
  have path: "fst (run_state ?r garbledHost) = ([], Some ?err)" by code_simp
  from svc_Mounts_resolver_fallback [OF native fst_run [OF this]] path show ?thesis by blast
qed

text \<open>C39: Mounts panics exactly when the native snapshotter returns an empty list of mounts without
  an error for a key whose pod asks for a path that is ready: the log call after the rewriting
  indexes the first mount.\<close>

theorem svc_Mounts_panic_iff:
  "(\<exists>msg. fst (run_state (svc_Mounts P sn c key) s) = Panic msg) \<longleftrightarrow>
     (\<exists>w1 path e w2 w3.
        run_state (sn_Mounts (ss_Snapshotter sn) c key) (world s) = (Inr [], w1) \<and>
        run_state (resolvePath P sn key) w1 = ((path, e), w2) \<and> path \<noteq> [] \<and>
        run_state (ensureUpperdirReady (pk_os P) path) w2 = (None, w3))"
  by (auto simp: svc_Mounts_run split: prod.splits sum.splits option.splits if_splits)

end
