(* ===== verification/Resolver_Props.thy ===== *)
theory Resolver_Props
  imports Reference_Host
begin

text \<open>
  Properties of resolver.go: which snapshot keys name a container, which variables a template
  sees, and the refinement of the chain of containerd queries by a lookup in the pod's sandbox
  record.
\<close>


section \<open>Snapshot keys\<close>

lemma split_n_3:
  "split_n 3 key c = [ns, seq, cid] \<longleftrightarrow>
     key = ns @ c # seq @ c # cid \<and> c \<notin> set ns \<and> c \<notin> set seq"
proof (cases key c rule: cut_cases)
  case (found b a)
  then show ?thesis
    by (cases a c rule: cut_cases) (auto simp: numeral_3_eq_3 append_eq_append_conv2 append_eq_Cons_conv Cons_eq_append_conv)
next
  case missing
  then show ?thesis by (auto simp: numeral_3_eq_3)
qed

lemma split_n_3_length: "length (split_n 3 key c) = 3 \<longleftrightarrow> (\<exists>ns seq cid. split_n 3 key c = [ns, seq, cid])"
  by (auto simp: length_Suc_conv numeral_3_eq_3)

lemma parseSnapshotKey_Some:
  "parseSnapshotKey key = Some (ns, cid) \<longleftrightarrow>
     (\<exists>seq. key = ns @ ''/'' @ seq @ ''/'' @ cid \<and> CHR ''/'' \<notin> set ns \<and> CHR ''/'' \<notin> set seq) \<and>
     CHR '' '' \<notin> set cid \<and> (\<nexists>t. cid = ''extract-'' @ t)"
proof -
  have "parseSnapshotKey key = Some (ns, cid) \<longleftrightarrow>
      (\<exists>seq. split_n 3 key (CHR ''/'') = [ns, seq, cid]) \<and>
      \<not> (contains cid '' '' \<or> has_prefix cid ''extract-'')"
    by (auto simp: parseSnapshotKey_def split: list.splits if_splits)
  then show ?thesis by (simp add: split_n_3 has_prefix_iff)
qed

text \<open>A snapshot key is resolved to a namespace and a container ID exactly when it has the form
  namespace/sequence/ID where neither namespace nor sequence contains a slash, and the ID is
  not that of an image unpack (no space, no prefix extract-). The decomposition is unique.\<close>

theorem parseSnapshotKey_iff:
  "parseSnapshotKey key = Some (ns, cid) \<longleftrightarrow>
     (\<exists>seq. key = ns @ ''/'' @ seq @ ''/'' @ cid \<and> CHR ''/'' \<notin> set ns \<and> CHR ''/'' \<notin> set seq) \<and>
     CHR '' '' \<notin> set cid \<and> (\<nexists>t. cid = ''extract-'' @ t)"
  by (rule parseSnapshotKey_Some)


section \<open>Template variables\<close>

lemma collectVars_get:
  assumes "gomap_ok annotations"
  shows "map_of (collectVars p annotations data) f =
           (case map_of annotations (p @ f) of Some v \<Rightarrow> Some v | None \<Rightarrow> map_of data f)"
  using assms
proof (induction p annotations data rule: collectVars.induct)
  case (2 p k v annotations data)
  then have ok: "gomap_ok annotations" and new: "map_of annotations k = None"
    by (auto simp: gomap_ok_def map_of_eq_None_iff)
  show ?case
  proof (cases "has_prefix k p")
    case True
    then obtain g where k: "k = p @ g" by (rule has_prefixE)
    then show ?thesis using 2 ok new True by (auto split: option.splits)
  next
    case False
    then have "k \<noteq> p @ f" by (auto simp: has_prefix_iff)
    then show ?thesis using 2 ok False by simp
  qed
qed simp

definition builtinVars :: "podObjectMeta option \<Rightarrow> string \<Rightarrow> string option" where
  "builtinVars md =
     (case md of
        None \<Rightarrow> Map.empty
      | Some md \<Rightarrow> [''PodUID'' \<mapsto> om_UID md, ''PodName'' \<mapsto> om_Name md, ''PodNamespace'' \<mapsto> om_Namespace md])"

lemma templateVars_lookup:
  assumes "gomap_ok (psc_Annotations cfg)"
  shows "map_of (templateVars r cfg) f =
           (case map_of (psc_Annotations cfg) (keyVarPrefix r @ f) of
              Some v \<Rightarrow> Some v | None \<Rightarrow> builtinVars (psc_Metadata cfg) f)"
  by (cases "psc_Metadata cfg")
     (auto simp: templateVars_def builtinVars_def Let_def collectVars_get [OF assms] split: option.splits)

text \<open>C27: the template sees, under each name, the value of the annotation <prefix>/var.<name> if the
  pod has it, and otherwise the pod's own UID, name or namespace under the three built-in
  names; nothing else. The result does not depend on the iteration order of the annotations,
  and a var annotation overrides a built-in field.\<close>

theorem templateVars_get:
  assumes "gomap_ok (psc_Annotations cfg)"
  shows "map_of (templateVars r cfg) f =
           (case map_of (psc_Annotations cfg) (keyVarPrefix r @ f) of
              Some v \<Rightarrow> Some v
            | None \<Rightarrow>
                (case psc_Metadata cfg of
                   None \<Rightarrow> None
                 | Some md \<Rightarrow>
                     if f = ''PodUID'' then Some (om_UID md)
                     else if f = ''PodName'' then Some (om_Name md)
                     else if f = ''PodNamespace'' then Some (om_Namespace md)
                     else None))"
  using templateVars_lookup [OF assms, of r f]
  by (simp add: builtinVars_def split: option.splits)

theorem templateVars_get_witness:
  "map_of (templateVars hostResolver (podConfig [(Key defaultPrefix ''var.PodUID'', ''forged'')])) ''PodUID'' =
     Some ''forged'' \<and>
   map_of (templateVars hostResolver (podConfig [(Key defaultPrefix ''var.PodUID'', ''forged'')])) ''PodName'' =
     Some ''web-0''"
proof -
  let ?cfg = "podConfig [(Key defaultPrefix ''var.PodUID'', ''forged'')]"
  have ok: "gomap_ok (psc_Annotations ?cfg)" by (simp add: podConfig_def gomap_ok_def)
  have vp: "keyVarPrefix hostResolver = Key defaultPrefix ''var.''"
    by (simp add: hostResolver_def resolver_consts)
  show ?thesis unfolding templateVars_get [OF ok] vp by (simp add: podConfig_def Key_def)
qed

text \<open>The three annotation keys of a constructed resolver do not interfere: the literal key and
  the template key differ, and neither starts with the variable prefix, so neither of those
  annotations ever becomes a template variable.\<close>

theorem newResolver_keys_separated:
  assumes "newResolver isDNS getString cl = Inr r"
  shows "keyLiteral r \<noteq> keyTemplate r \<and>
         (\<nexists>f. keyLiteral r = keyVarPrefix r @ f) \<and> (\<nexists>f. keyTemplate r = keyVarPrefix r @ f)"
proof -
  obtain p where r: "keyLiteral r = Key p annotationSuffixUpperdirPath"
      "keyTemplate r = Key p annotationSuffixUpperdirPathTemplate"
      "keyVarPrefix r = Key p annotationSuffixVarSubPrefix"
    using assms by (auto simp: newResolver_def split: sum.splits)
  have "\<not> has_prefix (keyLiteral r) (keyVarPrefix r)" "\<not> has_prefix (keyTemplate r) (keyVarPrefix r)"
    unfolding r by (rule annotation_key.key_separated; simp add: resolver_consts)+
  moreover have "keyLiteral r \<noteq> keyTemplate r"
    unfolding r annotation_key.key_inject by (simp add: resolver_consts)
  ultimately show ?thesis by (simp add: has_prefix_iff)
qed

theorem newResolver_keys_separated_witness:
  "\<exists>r. newResolver (\<lambda>s. []) (\<lambda>f. ''state.example.com'') hostClient = Inr r \<and> keyLiteral r \<noteq> keyTemplate r"
proof -
  let ?r = "\<lparr>res_client = hostClient, keyLiteral = ''state.example.com/upperdir-path'',
             keyTemplate = ''state.example.com/upperdir-path-template'',
             keyVarPrefix = ''state.example.com/var.''\<rparr>"
  have "newResolver (\<lambda>s. []) (\<lambda>f. ''state.example.com'') hostClient = Inr ?r"
    by (simp add: newResolver_def ResolvePrefix_def validatePrefix_def has_suffix_def Let_def Key_def
        reservedPrefixKubernetes_def reservedPrefixK8s_def resolver_consts)
  from newResolver_keys_separated [OF this] this show ?thesis by blast
qed


section \<open>Resolution\<close>

text \<open>The resolver never returns a path together with an error, whatever containerd answers.\<close>

theorem resolveAtMountsTime_error_no_path:
  assumes "run_state (resolveAtMountsTime T unmarshal r key) w = ((path, Some err), w')"
  shows "path = []"
  using assms
  by (auto simp: resolveAtMountsTime_def upperdirFromSandboxID_def upperdirFromSandboxContainer_def
      upperdirFromConfig_def renderUpperdirTemplate_def go_run Let_def
      split: option.splits prod.splits sum.splits list.splits if_splits)

theorem resolveAtMountsTime_error_no_path_witness:
  "\<exists>err. fst (run_state (resolveAtMountsTime (pk_template (hostPackages [])) (\<lambda>raw. Inl (Errorf ''bad'' [raw]))
      hostResolver ''k8s.io/2/c1'') podHost) = ([], Some err)"
proof -
  let ?m = "resolveAtMountsTime (pk_template (hostPackages [])) (\<lambda>raw. Inl (Errorf ''bad'' [raw])) hostResolver ''k8s.io/2/c1''"
  have "snd (fst (run_state ?m podHost)) \<noteq> None" by code_simp
  then obtain path err where run: "run_state ?m podHost = ((path, Some err), snd (run_state ?m podHost))"
    by (metis not_None_eq prod.collapse)
  from resolveAtMountsTime_error_no_path [OF run] run show ?thesis by (metis fst_conv)
qed

text \<open>
  The container records as a lookup: \<open>view w ns i\<close> is the record of container \<open>i\<close> with its
  extensions. The client behaves as documented when its queries read only and, if they succeed,
  the filter id==i finds the container with that ID if there is one and a handle gives its
  record. Any query may fail.
\<close>

type_synonym 'w container_view = "'w \<Rightarrow> string \<Rightarrow> string \<Rightarrow> (container_info \<times> (string, string) gomap) option"

definition client_laws :: "'w client \<Rightarrow> 'w container_view \<Rightarrow> bool" where
  "client_laws cl view \<longleftrightarrow>
     (\<forall>ns i w r w'. run_state (cl_Containers cl (Some ns) (''id=='' @ i)) w = (r, w') \<longrightarrow>
        w' = w \<and> (\<forall>ctrs. r = Inr ctrs \<longrightarrow> set ctrs = (if view w ns i = None then {} else {i}))) \<and>
     (\<forall>ns i w r w'. run_state (cl_Info cl (Some ns) i) w = (r, w') \<longrightarrow>
        w' = w \<and> (\<forall>info info' exts. r = Inr info \<longrightarrow> view w ns i = Some (info', exts) \<longrightarrow> info = info')) \<and>
     (\<forall>ns i w r w'. run_state (cl_Extensions cl (Some ns) i) w = (r, w') \<longrightarrow>
        w' = w \<and> (\<forall>exts info exts'. r = Inr exts \<longrightarrow> view w ns i = Some (info, exts') \<longrightarrow> exts = exts'))"

text \<open>A query about container \<open>i\<close> fails with \<open>q\<close>.\<close>

definition query_error :: "'w client \<Rightarrow> string \<Rightarrow> 'w \<Rightarrow> string \<Rightarrow> gerr \<Rightarrow> bool" where
  "query_error cl ns w i q \<longleftrightarrow>
     run_state (cl_Containers cl (Some ns) (''id=='' @ i)) w = (Inl q, w) \<or>
     run_state (cl_Info cl (Some ns) i) w = (Inl q, w) \<or>
     run_state (cl_Extensions cl (Some ns) i) w = (Inl q, w)"

text \<open>
  The specification of the lookup: the metadata of the pod sandbox a workload container belongs
  to, the configuration it decodes to, and the two containers that are asked about.
\<close>

definition sandboxRaw ::
  "(string \<Rightarrow> (container_info \<times> (string, string) gomap) option) \<Rightarrow> string \<Rightarrow> string option" where
  "sandboxRaw recs cid =
     (case recs cid of
        Some (info, _) \<Rightarrow>
          if map_get (c_Labels info) criKindLabel = criKindContainer \<and> c_SandboxID info \<noteq> [] then
            (case recs (c_SandboxID info) of
               Some (_, exts) \<Rightarrow> map_of exts criSandboxMetadataExtension
             | None \<Rightarrow> None)
          else None
      | None \<Rightarrow> None)"

definition podConfigOf ::
  "(string \<Rightarrow> gerr + sandboxMetadata) \<Rightarrow> (string \<Rightarrow> (container_info \<times> (string, string) gomap) option) \<Rightarrow>
   string \<Rightarrow> podSandboxConfig option" where
  "podConfigOf unmarshal recs cid =
     (case sandboxRaw recs cid of
        Some raw \<Rightarrow> (case unmarshal raw of Inr meta \<Rightarrow> smi_Config (sm_Metadata meta) | Inl _ \<Rightarrow> None)
      | None \<Rightarrow> None)"

definition asked ::
  "(string \<Rightarrow> (container_info \<times> (string, string) gomap) option) \<Rightarrow> string \<Rightarrow> string \<Rightarrow> bool" where
  "asked recs cid i \<longleftrightarrow> i = cid \<or> (\<exists>info exts. recs cid = Some (info, exts) \<and> i = c_SandboxID info)"

text \<open>Why the resolver may return the error \<open>err\<close>.\<close>

definition lookup_error ::
  "'w client \<Rightarrow> 'w container_view \<Rightarrow> (string \<Rightarrow> gerr + sandboxMetadata) \<Rightarrow>
   (podSandboxConfig \<Rightarrow> string \<times> gerr option) \<Rightarrow> string \<Rightarrow> string \<Rightarrow> 'w \<Rightarrow> gerr \<Rightarrow> bool" where
  "lookup_error cl view unmarshal path ns cid w err \<longleftrightarrow>
     (\<exists>i q fm a. asked (view w ns) cid i \<and> query_error cl ns w i q \<and> err = Wrapf fm a q) \<or>
     (\<exists>raw q fm a. sandboxRaw (view w ns) cid = Some raw \<and> unmarshal raw = Inl q \<and> err = Wrapf fm a q) \<or>
     (\<exists>cfg. podConfigOf unmarshal (view w ns) cid = Some cfg \<and> path cfg = ([], Some err))"

lemma client_lawsD:
  assumes "client_laws cl view"
  shows "run_state (cl_Containers cl (Some ns) (''id=='' @ i)) w = (r, w') \<Longrightarrow>
      w' = w \<and> (\<forall>ctrs. r = Inr ctrs \<longrightarrow> set ctrs = (if view w ns i = None then {} else {i}))"
    and "run_state (cl_Info cl (Some ns) i) w = (x, w') \<Longrightarrow>
      w' = w \<and> (\<forall>info info' exts. x = Inr info \<longrightarrow> view w ns i = Some (info', exts) \<longrightarrow> info = info')"
    and "run_state (cl_Extensions cl (Some ns) i) w = (y, w') \<Longrightarrow>
      w' = w \<and> (\<forall>exts info exts'. y = Inr exts \<longrightarrow> view w ns i = Some (info, exts') \<longrightarrow> exts = exts')"
proof -
  note laws = assms [unfolded client_laws_def]
  show "run_state (cl_Containers cl (Some ns) (''id=='' @ i)) w = (r, w') \<Longrightarrow>
      w' = w \<and> (\<forall>ctrs. r = Inr ctrs \<longrightarrow> set ctrs = (if view w ns i = None then {} else {i}))"
    by (rule laws [THEN conjunct1, THEN spec, THEN spec, THEN spec, THEN spec, THEN spec, THEN mp])
  show "run_state (cl_Info cl (Some ns) i) w = (x, w') \<Longrightarrow>
      w' = w \<and> (\<forall>info info' exts. x = Inr info \<longrightarrow> view w ns i = Some (info', exts) \<longrightarrow> info = info')"
    by (rule laws [THEN conjunct2, THEN conjunct1, THEN spec, THEN spec, THEN spec, THEN spec, THEN spec, THEN mp])
  show "run_state (cl_Extensions cl (Some ns) i) w = (y, w') \<Longrightarrow>
      w' = w \<and> (\<forall>exts info exts'. y = Inr exts \<longrightarrow> view w ns i = Some (info, exts') \<longrightarrow> exts = exts')"
    by (rule laws [THEN conjunct2, THEN conjunct2, THEN spec, THEN spec, THEN spec, THEN spec, THEN spec, THEN mp])
qed

lemma client_containers:
  assumes "client_laws cl view"
  obtains (fails) q where "run_state (cl_Containers cl (Some ns) (''id=='' @ i)) w = (Inl q, w)"
  | (absent) "view w ns i = None" "run_state (cl_Containers cl (Some ns) (''id=='' @ i)) w = (Inr [], w)"
  | (found) info exts rest where "view w ns i = Some (info, exts)"
      "run_state (cl_Containers cl (Some ns) (''id=='' @ i)) w = (Inr (i # rest), w)"
proof -
  obtain r w' where run: "run_state (cl_Containers cl (Some ns) (''id=='' @ i)) w = (r, w')"
    by (cases "run_state (cl_Containers cl (Some ns) (''id=='' @ i)) w")
  have w: "w' = w" and ctrs: "r = Inr ctrs \<Longrightarrow> set ctrs = (if view w ns i = None then {} else {i})" for ctrs
    using client_lawsD(1) [OF assms run] by simp_all
  show thesis
  proof (cases r)
    case (Inl q)
    then show thesis using fails run w by simp
  next
    case (Inr cs)
    show thesis
    proof (cases "view w ns i")
      case None
      then show thesis using absent run w Inr ctrs [OF Inr] by simp
    next
      case (Some x)
      obtain info exts where x: "view w ns i = Some (info, exts)" using Some by (cases x) simp
      obtain rest where "cs = i # rest" using ctrs [OF Inr] x by (cases cs) auto
      then show thesis using found x run w Inr by simp
    qed
  qed
qed

lemma client_info:
  assumes "client_laws cl view" and "view w ns i = Some (info, exts)"
  obtains (fails) q where "run_state (cl_Info cl (Some ns) i) w = (Inl q, w)"
  | (found) "run_state (cl_Info cl (Some ns) i) w = (Inr info, w)"
proof -
  obtain r w' where run: "run_state (cl_Info cl (Some ns) i) w = (r, w')"
    by (cases "run_state (cl_Info cl (Some ns) i) w")
  have "w' = w" "r = Inr x \<Longrightarrow> x = info" for x
    using client_lawsD(2) [OF assms(1) run] assms(2) by simp_all
  then show thesis using fails found run by (cases r) auto
qed

lemma client_extensions:
  assumes "client_laws cl view" and "view w ns i = Some (info, exts)"
  obtains (fails) q where "run_state (cl_Extensions cl (Some ns) i) w = (Inl q, w)"
  | (found) "run_state (cl_Extensions cl (Some ns) i) w = (Inr exts, w)"
proof -
  obtain r w' where run: "run_state (cl_Extensions cl (Some ns) i) w = (r, w')"
    by (cases "run_state (cl_Extensions cl (Some ns) i) w")
  have "w' = w" "r = Inr x \<Longrightarrow> x = exts" for x
    using client_lawsD(3) [OF assms(1) run] assms(2) by simp_all
  then show thesis using fails found run by (cases r) auto
qed

text \<open>The sandbox half of the chain: what it answers for the sandbox \<open>sid\<close>.\<close>

lemma upperdirFromSandboxID_cases:
  assumes laws: "client_laws (res_client r) view"
    and run: "run_state (upperdirFromSandboxID T unmarshal r (Some ns) sid key) w = (res, w')"
  obtains (fails) q fm a where "w' = w" "query_error (res_client r) ns w sid q" "res = ([], Some (Wrapf fm a q))"
  | (absent) "w' = w" "view w ns sid = None" "res = ([], None)"
  | (bare) info exts where "w' = w" "view w ns sid = Some (info, exts)"
      "map_of exts criSandboxMetadataExtension = None" "res = ([], None)"
  | (garbled) info exts raw q fm a where "w' = w" "view w ns sid = Some (info, exts)"
      "map_of exts criSandboxMetadataExtension = Some raw" "unmarshal raw = Inl q" "res = ([], Some (Wrapf fm a q))"
  | (decoded) info exts raw meta where "w' = w" "view w ns sid = Some (info, exts)"
      "map_of exts criSandboxMetadataExtension = Some raw" "unmarshal raw = Inr meta"
      "res = (case smi_Config (sm_Metadata meta) of None \<Rightarrow> ([], None) | Some cfg \<Rightarrow> upperdirFromConfig T r cfg key)"
  using laws
proof (cases rule: client_containers [where w = w and ns = ns and i = sid])
  case (fails q)
  then show thesis using run by (intro that(1)) (auto simp: upperdirFromSandboxID_def go_run query_error_def)
next
  case absent
  then show thesis using run by (intro that(2)) (simp_all add: upperdirFromSandboxID_def go_run)
next
  case (found info exts rest)
  have x: "run_state (upperdirFromSandboxContainer T unmarshal r (Some ns) sid key) w = (res, w')"
    using run found by (simp add: upperdirFromSandboxID_def go_run)
  from laws found(1) show thesis
  proof (cases rule: client_extensions)
    case (fails q)
    then show thesis using x
      by (intro that(1)) (auto simp: upperdirFromSandboxContainer_def go_run query_error_def)
  next
    case found': found
    show thesis
    proof (cases "map_of exts criSandboxMetadataExtension")
      case None
      then show thesis using x found' found(1)
        by (intro that(3)) (simp_all add: upperdirFromSandboxContainer_def go_run)
    next
      case (Some raw)
      show thesis
      proof (cases "unmarshal raw")
        case (Inl q)
        then show thesis using x found' found(1) Some
          by (intro that(4)) (auto simp: upperdirFromSandboxContainer_def go_run)
      next
        case (Inr meta)
        then show thesis using x found' found(1) Some
          by (intro that(5)) (auto simp: upperdirFromSandboxContainer_def go_run split: option.splits)
      qed
    qed
  qed
qed

lemma upperdirFromConfig_error: "upperdirFromConfig T r cfg key = (path, Some err) \<Longrightarrow> path = []"
  by (auto simp: upperdirFromConfig_def renderUpperdirTemplate_def Let_def split: if_splits sum.splits)

text \<open>The specification of an answer \<open>(path, e)\<close> of the resolver for container \<open>cid\<close>.\<close>

definition lookup_answer ::
  "('t, (string, string) gomap) text_template \<Rightarrow> (string \<Rightarrow> gerr + sandboxMetadata) \<Rightarrow> 'w resolver \<Rightarrow>
   'w container_view \<Rightarrow> string \<Rightarrow> string \<Rightarrow> string \<Rightarrow> 'w \<Rightarrow> string \<times> gerr option \<Rightarrow> bool" where
  "lookup_answer T unmarshal r view key ns cid w res \<longleftrightarrow>
    (case snd res of
       None \<Rightarrow>
         (case podConfigOf unmarshal (view w ns) cid of
            None \<Rightarrow> fst res = [] \<and> (\<forall>raw. sandboxRaw (view w ns) cid = Some raw \<longrightarrow> \<not> isl (unmarshal raw))
          | Some cfg \<Rightarrow> upperdirFromConfig T r cfg key = (fst res, None))
     | Some err \<Rightarrow>
         fst res = [] \<and>
         lookup_error (res_client r) view unmarshal (\<lambda>cfg. upperdirFromConfig T r cfg key) ns cid w err)"

lemma lookup_answer_none:
  "sandboxRaw (view w ns) cid = None \<Longrightarrow> lookup_answer T unmarshal r view key ns cid w ([], None)"
  by (simp add: lookup_answer_def podConfigOf_def)

lemma lookup_answer_query:
  "asked (view w ns) cid i \<Longrightarrow> query_error (res_client r) ns w i q \<Longrightarrow>
   lookup_answer T unmarshal r view key ns cid w ([], Some (Wrapf fm a q))"
  unfolding lookup_answer_def lookup_error_def by auto

lemma lookup_answer_garbled:
  "sandboxRaw (view w ns) cid = Some raw \<Longrightarrow> unmarshal raw = Inl q \<Longrightarrow>
   lookup_answer T unmarshal r view key ns cid w ([], Some (Wrapf fm a q))"
  unfolding lookup_answer_def lookup_error_def by auto

lemma lookup_answer_decoded:
  assumes "sandboxRaw (view w ns) cid = Some raw" and "unmarshal raw = Inr meta"
  shows "lookup_answer T unmarshal r view key ns cid w
    (case smi_Config (sm_Metadata meta) of None \<Rightarrow> ([], None) | Some cfg \<Rightarrow> upperdirFromConfig T r cfg key)"
proof (cases "smi_Config (sm_Metadata meta)")
  case None
  then show ?thesis using assms by (simp add: lookup_answer_def podConfigOf_def)
next
  case (Some cfg)
  then have cfg: "podConfigOf unmarshal (view w ns) cid = Some cfg" using assms by (simp add: podConfigOf_def)
  obtain path e where res: "upperdirFromConfig T r cfg key = (path, e)" by (cases "upperdirFromConfig T r cfg key")
  show ?thesis
  proof (cases e)
    case None
    then show ?thesis using Some cfg res by (simp add: lookup_answer_def)
  next
    case e: (Some err)
    then have "path = []" using upperdirFromConfig_error res by blast
    then show ?thesis using Some cfg res e by (auto simp: lookup_answer_def lookup_error_def)
  qed
qed

lemma sandboxRaw_container:
  assumes "recs cid = Some (info, exts)" and "map_get (c_Labels info) criKindLabel = criKindContainer"
    and "c_SandboxID info \<noteq> []"
  shows "sandboxRaw recs cid =
     (case recs (c_SandboxID info) of Some (_, x) \<Rightarrow> map_of x criSandboxMetadataExtension | None \<Rightarrow> None)"
  using assms by (simp add: sandboxRaw_def)

lemma upperdirFromSandboxID_answer:
  assumes laws: "client_laws (res_client r) view"
    and rec: "view w ns cid = Some (info, exts)" "map_get (c_Labels info) criKindLabel = criKindContainer"
      "c_SandboxID info \<noteq> []"
    and run: "run_state (upperdirFromSandboxID T unmarshal r (Some ns) (c_SandboxID info) key) w = (res, w')"
  shows "w' = w \<and> lookup_answer T unmarshal r view key ns cid w res"
  using laws run
proof (cases rule: upperdirFromSandboxID_cases)
  case (fails q fm a)
  have "asked (view w ns) cid (c_SandboxID info)" using rec(1) by (auto simp: asked_def)
  from lookup_answer_query [where view = view, OF this fails(2)] fails(1,3) show ?thesis by simp
next
  case absent
  then show ?thesis using sandboxRaw_container [where recs = "view w ns", OF rec] by (simp add: lookup_answer_none)
next
  case (bare info' exts')
  then show ?thesis using sandboxRaw_container [where recs = "view w ns", OF rec] by (simp add: lookup_answer_none)
next
  case (garbled info' exts' raw q fm a)
  then show ?thesis using sandboxRaw_container [where recs = "view w ns", OF rec] by (simp add: lookup_answer_garbled)
next
  case (decoded info' exts' raw meta)
  then have "sandboxRaw (view w ns) cid = Some raw" using sandboxRaw_container [where recs = "view w ns", OF rec] by simp
  from lookup_answer_decoded [where view = view and unmarshal = unmarshal, OF this decoded(4)] decoded(1,5) show ?thesis by simp
qed

lemma resolveAtMountsTime_spec:
  assumes laws: "client_laws (res_client r) view" and key: "parseSnapshotKey key = Some (ns, cid)"
    and run: "run_state (resolveAtMountsTime T unmarshal r key) w = (res, w')"
  shows "w' = w \<and> lookup_answer T unmarshal r view key ns cid w res"
  using laws
proof (cases rule: client_containers [where w = w and ns = ns and i = cid])
  case (fails q)
  then have "query_error (res_client r) ns w cid q" "asked (view w ns) cid cid"
    by (simp_all add: query_error_def asked_def)
  from lookup_answer_query [where view = view, OF this(2,1)] run fails show ?thesis
    by (auto simp: resolveAtMountsTime_def key go_run WithNamespace_def Let_def)
next
  case absent
  then show ?thesis using run
    by (auto simp: resolveAtMountsTime_def key go_run WithNamespace_def Let_def sandboxRaw_def intro!: lookup_answer_none)
next
  case (found info exts rest)
  note start = run [unfolded resolveAtMountsTime_def key WithNamespace_def Let_def]
  from laws found(1) show ?thesis
  proof (cases rule: client_info)
    case (fails q)
    then have "query_error (res_client r) ns w cid q" "asked (view w ns) cid cid"
      by (simp_all add: query_error_def asked_def)
    from lookup_answer_query [where view = view, OF this(2,1)] start fails found(2) show ?thesis by (auto simp: go_run)
  next
    case info: found
    let ?kind = "map_get (c_Labels info) criKindLabel"
    have kinds: "criKindSandbox \<noteq> criKindContainer" by (simp add: resolver_consts)
    show ?thesis
    proof (cases "?kind = criKindContainer \<and> c_SandboxID info \<noteq> []")
      case True
      then have "run_state (upperdirFromSandboxID T unmarshal r (Some ns) (c_SandboxID info) key) w = (res, w')"
        using start info kinds found(2) by (simp add: go_run)
      then show ?thesis using upperdirFromSandboxID_answer [OF laws found(1)] True by blast
    next
      case False
      then have "sandboxRaw (view w ns) cid = None" using found(1) by (auto simp: sandboxRaw_def)
      moreover have "res = ([], None) \<and> w' = w" using start info False found(2) by (auto simp: go_run split: if_splits)
      ultimately show ?thesis using lookup_answer_none [where view = view] by simp
    qed
  qed
qed

text \<open>C13: the chain of containerd queries refines a lookup. For a key of container \<open>cid\<close>, an answer without
  error is exactly what the annotations of the sandbox record of that container's pod give, and
  no path when there is no such record or the container is a sandbox itself or of another kind.
  An error comes without a path and only in three ways: it wraps the error of a failed query
  about the container or its sandbox, it wraps the decoding error of the sandbox metadata, or it
  is the error of the template in the annotations. Metadata that does not decode is never passed
  over in silence. Nothing is changed.\<close>

theorem resolveAtMountsTime_refines:
  assumes laws: "client_laws (res_client r) view" and key: "parseSnapshotKey key = Some (ns, cid)"
  shows "\<exists>path e. run_state (resolveAtMountsTime T unmarshal r key) w = ((path, e), w) \<and>
    (case e of
       None \<Rightarrow>
         (case podConfigOf unmarshal (view w ns) cid of
            None \<Rightarrow> path = [] \<and> (\<forall>raw. sandboxRaw (view w ns) cid = Some raw \<longrightarrow> \<not> isl (unmarshal raw))
          | Some cfg \<Rightarrow> upperdirFromConfig T r cfg key = (path, None))
     | Some err \<Rightarrow>
         path = [] \<and>
         lookup_error (res_client r) view unmarshal (\<lambda>cfg. upperdirFromConfig T r cfg key) ns cid w err)"
proof -
  obtain path e w' where run: "run_state (resolveAtMountsTime T unmarshal r key) w = ((path, e), w')"
    by (metis surj_pair)
  from resolveAtMountsTime_spec [OF laws key run] run show ?thesis
    unfolding lookup_answer_def fst_conv snd_conv by blast
qed

definition hostView :: "host container_view" where
  "hostView w ns i = map_of (ho_containers w) i"

lemma hostClient_laws: "client_laws hostClient hostView"
  unfolding client_laws_def hostView_def hostClient_def
  by (auto simp: go_run map_of_eq_None_iff image_iff dest: map_of_SomeD)

text \<open>The same client when the metadata store of containerd does not answer.\<close>

definition flakyClient :: "host client" where
  "flakyClient = hostClient\<lparr>cl_Info := (\<lambda>c ctr. State (\<lambda>w. (Inl (Errorf ''unavailable'' [ctr]), w)))\<rparr>"

lemma flakyClient_laws: "client_laws flakyClient hostView"
  unfolding client_laws_def hostView_def hostClient_def flakyClient_def
  by (auto simp: go_run map_of_eq_None_iff image_iff dest: map_of_SomeD)

theorem resolveAtMountsTime_refines_witness:
  "run_state (resolveAtMountsTime (pk_template (hostPackages [(Key defaultPrefix ''upperdir-path'', ''/vol'')]))
          (pk_unmarshal (hostPackages [(Key defaultPrefix ''upperdir-path'', ''/vol'')])) hostResolver
          ''k8s.io/2/c1'') podHost = ((''/vol'', None), podHost) \<and>
   (\<exists>err. run_state (resolveAtMountsTime (pk_template (hostPackages [(Key defaultPrefix ''upperdir-path'', ''/vol'')]))
          (pk_unmarshal (hostPackages [(Key defaultPrefix ''upperdir-path'', ''/vol'')]))
          (hostResolver\<lparr>res_client := flakyClient\<rparr>) ''k8s.io/2/c1'') podHost = (([], Some err), podHost))"
proof
  let ?P = "hostPackages [(Key defaultPrefix ''upperdir-path'', ''/vol'')]"
  let ?cfg = "podConfig [(Key defaultPrefix ''upperdir-path'', ''/vol'')]"
  let ?m = "resolveAtMountsTime (pk_template ?P) (pk_unmarshal ?P) hostResolver ''k8s.io/2/c1''"
  let ?f = "resolveAtMountsTime (pk_template ?P) (pk_unmarshal ?P) (hostResolver\<lparr>res_client := flakyClient\<rparr>) ''k8s.io/2/c1''"
  have laws: "client_laws (res_client hostResolver) hostView"
    "client_laws (res_client (hostResolver\<lparr>res_client := flakyClient\<rparr>)) hostView"
    by (simp_all add: hostResolver_def hostClient_laws flakyClient_laws)
  have key: "parseSnapshotKey ''k8s.io/2/c1'' = Some (''k8s.io'', ''c1'')" by code_simp
  have cfg: "podConfigOf (pk_unmarshal ?P) (hostView podHost ''k8s.io'') ''c1'' = Some ?cfg" by code_simp
  have path: "upperdirFromConfig (pk_template ?P) hostResolver ?cfg ''k8s.io/2/c1'' = (''/vol'', None)"
    by code_simp
  have ok: "snd (fst (run_state ?m podHost)) = None" by code_simp
  have fails: "snd (fst (run_state ?f podHost)) \<noteq> None" by code_simp
  from resolveAtMountsTime_refines [OF laws(1) key, of "pk_template ?P" "pk_unmarshal ?P" podHost] ok
  show "run_state ?m podHost = ((''/vol'', None), podHost)" by (auto simp: cfg path)
  from resolveAtMountsTime_refines [OF laws(2) key, of "pk_template ?P" "pk_unmarshal ?P" podHost] fails
  show "\<exists>err. run_state ?f podHost = (([], Some err), podHost)" by auto
qed

end
