(* ===== verification/Lease_Props.thy ===== *)
theory Lease_Props
  imports Resolver_Props
begin

text \<open>
  Properties of the lease bookkeeping of dedup.go and of the service methods that drive it:
  the orphan sweep, pinning and unpinning, the gauge of pinned snapshots, and that the dedup
  path never changes what Prepare and Remove return.
\<close>


section \<open>Operations that release leases\<close>

text \<open>
  The contract shared by the three operations that delete leases: they delete the leases with
  some set of IDs from one namespace and lower the gauge by the size of that set. What their
  callers rely on is proved once from it.
\<close>

locale lease_remover =
  fixes release :: "('w node, 'r) state"
    and L :: "'w leases_api" and S :: "'w snapshotter_api" and ns :: string
  assumes releases: "lease_laws L store \<Longrightarrow> stat_laws S L present \<Longrightarrow>
      run_state release s = (r, s') \<Longrightarrow> \<exists>D. swept store ns D s s'"
begin

lemma other_namespaces:
  "lease_laws L store \<Longrightarrow> stat_laws S L present \<Longrightarrow> run_state release s = (r, s') \<Longrightarrow> ns' \<noteq> ns \<Longrightarrow>
   store (world s') ns' = store (world s) ns'"
  using releases [of store present s r s'] by (auto simp: swept_def)

lemma only_removes:
  "lease_laws L store \<Longrightarrow> stat_laws S L present \<Longrightarrow> run_state release s = (r, s') \<Longrightarrow>
   set (store (world s') ns) \<subseteq> set (store (world s) ns)"
  using releases [of store present s r s'] by (auto simp: swept_def)

lemma keeps_distinct:
  "lease_laws L store \<Longrightarrow> stat_laws S L present \<Longrightarrow> run_state release s = (r, s') \<Longrightarrow>
   distinct (map l_ID (store (world s) ns)) \<Longrightarrow> distinct (map l_ID (store (world s') ns))"
  using releases [of store present s r s'] by (auto simp: swept_def distinct_map_filter)

end

lemma filter_ids_length:
  assumes "distinct (map l_ID ls)" and "D \<subseteq> l_ID ` set ls" and "finite D"
  shows "length (filter (\<lambda>l. l_ID l \<notin> D) ls) + card D = length ls"
proof -
  have "card D = length (filter (\<lambda>l. l_ID l \<in> D) ls)"
  proof -
    have "set (map l_ID (filter (\<lambda>l. l_ID l \<in> D) ls)) = D" using assms(2) by auto
    moreover have "distinct (map l_ID (filter (\<lambda>l. l_ID l \<in> D) ls))"
      using assms(1) by (rule distinct_map_filter)
    ultimately show ?thesis by (metis distinct_card length_map)
  qed
  then show ?thesis using sum_length_filter_compl [of "\<lambda>l. l_ID l \<in> D" ls] by simp
qed

lemma filter_ids_managed:
  assumes "distinct (map l_ID ls)" and "finite D"
  shows "length (filter P ls) \<le> length (filter P (filter (\<lambda>l. l_ID l \<notin> D) ls)) + card D"
proof -
  let ?in = "filter (\<lambda>l. l_ID l \<in> D) (filter P ls)"
  have "distinct (map l_ID ?in)" using assms(1) by (simp add: distinct_map_filter)
  moreover have "set (map l_ID ?in) \<subseteq> D" by auto
  ultimately have "length ?in \<le> card D"
    using assms(2) by (metis card_mono distinct_card length_map)
  moreover have "length ?in + length (filter (\<lambda>l. l_ID l \<notin> D) (filter P ls)) = length (filter P ls)"
    by (rule sum_length_filter_compl)
  ultimately show ?thesis by (simp add: conj_commute)
qed

interpretation unpin_remover:
  lease_remover "unpinByActiveKey m ns key" "cl_LeasesService (dm_client m)" "dm_localSn m" ns for m ns key
  by unfold_locales (metis (full_types) old.unit.exhaust unpinByActiveKey_run)

lemma gcOrphanLeases_run:
  assumes laws: "lease_laws (cl_LeasesService (dm_client m)) store"
    and stat: "stat_laws (dm_localSn m) (cl_LeasesService (dm_client m)) present"
    and run: "run_state (gcOrphanLeases m c ns) s = (d, s')"
  obtains (failed) "d = 0" "s' = s" "\<nexists>ls. fst (run_state (listManagedLeases m ns) (world s)) = Inr ls"
  | (swept) "run_state (gcOrphans m c (Some ns) (filter managed (store (world s) ns)) 0) s = (d, s')"
proof -
  let ?list = "ls_List (cl_LeasesService (dm_client m)) (Some ns) (labelFilter leaseLabelManagedBy leaseLabelManagedByValue)"
  obtain r w1 where list: "run_state ?list (world s) = (r, w1)" by (cases "run_state ?list (world s)")
  have w1: "w1 = world s" using list_lawD(1) [OF laws list] .
  show thesis
  proof (cases r)
    case (Inl e)
    then show thesis using failed run list w1
      by (simp add: gcOrphanLeases_def listManagedLeases_def go_run WithNamespace_def Let_def)
  next
    case (Inr ls)
    then have "ls = filter managed (store (world s) ns)"
      using list_lawD(2) [OF laws list Inr] by (simp add: managed_def [abs_def])
    then show thesis
      using swept run list w1 Inr by (simp add: gcOrphanLeases_def go_run WithNamespace_def Let_def)
  qed
qed

lemma gcOrphanLeases_swept:
  assumes laws: "lease_laws (cl_LeasesService (dm_client m)) store"
    and stat: "stat_laws (dm_localSn m) (cl_LeasesService (dm_client m)) present"
    and run: "run_state (gcOrphanLeases m c ns) s = (d, s')"
  shows "\<exists>D. swept store ns D s s' \<and> d = card D \<and>
             D \<subseteq> l_ID ` {l \<in> set (store (world s) ns). managed l \<and> owner l \<noteq> [] \<and>
               statFailed (dm_localSn m) (cl_LeasesService (dm_client m)) c ns (world s) (owner l)}"
  using assms
proof (cases rule: gcOrphanLeases_run)
  case failed
  then show ?thesis by (intro exI [of _ "{}"]) (simp add: swept_refl)
next
  case swept
  obtain D where "swept store ns D s s'" "d = 0 + card D"
    "D \<subseteq> l_ID ` {l \<in> set (filter managed (store (world s) ns)). owner l \<noteq> [] \<and>
        statFailed (dm_localSn m) (cl_LeasesService (dm_client m)) c ns (world s) (owner l)}"
    using gcOrphans_swept [OF laws stat swept] by blast
  then show ?thesis by (intro exI [of _ D]) (simp add: conj_assoc)
qed

text \<open>With a Stat that answers for every snapshot that exists, only orphans are deleted.\<close>

lemma gcOrphanLeases_orphans:
  assumes laws: "lease_laws (cl_LeasesService (dm_client m)) store"
    and stat: "stat_laws (dm_localSn m) (cl_LeasesService (dm_client m)) present"
    and total: "stat_total (dm_localSn m) present"
    and run: "run_state (gcOrphanLeases m c ns) s = (d, s')"
  shows "\<exists>D. swept store ns D s s' \<and> d = card D \<and>
             D \<subseteq> l_ID ` {l \<in> set (store (world s) ns). orphan present (world s) l}"
proof -
  obtain D where D: "swept store ns D s s'" "d = card D"
    "D \<subseteq> l_ID ` {l \<in> set (store (world s) ns). managed l \<and> owner l \<noteq> [] \<and>
        statFailed (dm_localSn m) (cl_LeasesService (dm_client m)) c ns (world s) (owner l)}"
    using gcOrphanLeases_swept [OF laws stat run] by blast
  then have "D \<subseteq> l_ID ` {l \<in> set (store (world s) ns). orphan present (world s) l}"
    using statFailed_gone [OF stat total] by (fastforce simp: orphan_def)
  with D(1,2) show ?thesis by blast
qed

interpretation gc_remover:
  lease_remover "gcOrphanLeases m c ns" "cl_LeasesService (dm_client m)" "dm_localSn m" ns for m c ns
  by unfold_locales (metis gcOrphanLeases_swept)

lemma deleteLease_run:
  assumes laws: "lease_laws (cl_LeasesService (dm_client m)) store"
    and run: "run_state (deleteLease m ns leaseID) s = (e, s')"
  shows "case e of
           None \<Rightarrow> leaseID \<in> l_ID ` set (store (world s) ns) \<and> swept store ns {leaseID} s s'
         | Some _ \<Rightarrow> swept store ns {} s s'"
proof -
  let ?del = "ls_Delete (cl_LeasesService (dm_client m)) (Some ns) (leaseOfID leaseID)"
  obtain e' w1 where del: "run_state ?del (world s) = (e', w1)" by (cases "run_state ?del (world s)")
  show ?thesis
  proof (cases e')
    case None
    then show ?thesis using run del delete_lawD(2,3) [OF laws del]
      by (auto simp: deleteLease_def go_run WithNamespace_def swept_def leaseOfID_def)
  next
    case (Some err)
    then show ?thesis using run del delete_lawD(1) [OF laws del Some]
      by (auto simp: deleteLease_def go_run WithNamespace_def swept_def)
  qed
qed

interpretation delete_remover:
  lease_remover "deleteLease m ns leaseID" "cl_LeasesService (dm_client m)" "dm_localSn m" ns for m ns leaseID
proof unfold_locales
  fix store present s r s'
  assume "lease_laws (cl_LeasesService (dm_client m)) store"
    and "run_state (deleteLease m ns leaseID) s = (r, s')"
  from deleteLease_run [OF this] show "\<exists>D. swept store ns D s s'" by (cases r) auto
qed


section \<open>The orphan sweep\<close>

lemma distinct_same_id:
  "distinct (map l_ID ls) \<Longrightarrow> k \<in> set ls \<Longrightarrow> l \<in> set ls \<Longrightarrow> l_ID k = l_ID l \<Longrightarrow> k = l"
  by (metis distinct_map inj_on_eq_iff)

text \<open>C4: the GC sweep is safe, up to what Stat tells it. A lease it deletes is a managed lease of the
  swept namespace that names an owner, and a Stat of that owner failed in a world the sweep
  passed through. Any failure counts, not only not-found: it is only when Stat answers for every
  snapshot that exists that each deleted lease is an orphan, and that all other leases are still
  there. Whatever fails on the way, leases of all other namespaces are untouched, and the number
  reported is the number of leases that disappeared and the amount by which the gauge of pinned
  snapshots went down.\<close>

theorem gcOrphanLeases_safe:
  assumes laws: "lease_laws (cl_LeasesService (dm_client m)) store"
    and stat: "stat_laws (dm_localSn m) (cl_LeasesService (dm_client m)) present"
    and ids: "distinct (map l_ID (store (world s) ns))"
    and run: "run_state (gcOrphanLeases m c ns) s = (deleted, s')"
  shows "set (store (world s') ns) \<subseteq> set (store (world s) ns) \<and>
         (\<forall>l. l \<in> set (store (world s) ns) \<and> l \<notin> set (store (world s') ns) \<longrightarrow>
            managed l \<and> owner l \<noteq> [] \<and>
            statFailed (dm_localSn m) (cl_LeasesService (dm_client m)) c ns (world s) (owner l)) \<and>
         (stat_total (dm_localSn m) present \<longrightarrow>
            {l \<in> set (store (world s) ns). \<not> orphan present (world s) l} \<subseteq> set (store (world s') ns)) \<and>
         (\<forall>ns'. ns' \<noteq> ns \<longrightarrow> store (world s') ns' = store (world s) ns') \<and>
         length (store (world s') ns) + deleted = length (store (world s) ns) \<and>
         pinnedSnapshotsTotal s' = pinnedSnapshotsTotal s - int deleted"
proof -
  let ?failed = "\<lambda>l. managed l \<and> owner l \<noteq> [] \<and>
      statFailed (dm_localSn m) (cl_LeasesService (dm_client m)) c ns (world s) (owner l)"
  obtain D where D: "swept store ns D s s'" "deleted = card D"
      "D \<subseteq> l_ID ` {l \<in> set (store (world s) ns). ?failed l}"
    using gcOrphanLeases_swept [OF laws stat run] by blast
  have rest: "set (store (world s') ns) = {l \<in> set (store (world s) ns). l_ID l \<notin> D}"
    using D(1) by (simp add: swept_def)
  have gone: "?failed l" if "l \<in> set (store (world s) ns)" "l_ID l \<in> D" for l
    using D(3) that distinct_same_id [OF ids] by blast
  then have all: "\<forall>l. l \<in> set (store (world s) ns) \<and> l \<notin> set (store (world s') ns) \<longrightarrow> ?failed l"
    using rest by simp
  have "{l \<in> set (store (world s) ns). \<not> orphan present (world s) l} \<subseteq> set (store (world s') ns)"
    if "stat_total (dm_localSn m) present"
    using all statFailed_gone [OF stat that] unfolding orphan_def by blast
  moreover have "length (store (world s') ns) + deleted = length (store (world s) ns)"
    "pinnedSnapshotsTotal s' = pinnedSnapshotsTotal s - int deleted"
    using D filter_ids_length [OF ids, of D] by (auto simp: swept_def)
  ultimately show ?thesis
    using all rest gc_remover.other_namespaces [OF laws stat run] by blast
qed

definition leasedHost :: host where
  "leasedHost = podHost\<lparr>ho_leases :=
     [(''k8s.io'', \<lparr>l_ID = ''live'', l_CreatedAt = l_CreatedAt (leaseOfID []), l_Labels = pinLabels ''k8s.io/2/c1''\<rparr>),
      (''k8s.io'', \<lparr>l_ID = ''gone'', l_CreatedAt = l_CreatedAt (leaseOfID []), l_Labels = pinLabels ''k8s.io/3/c2''\<rparr>),
      (''k8s.io'', \<lparr>l_ID = ''ctr'', l_CreatedAt = l_CreatedAt (leaseOfID []), l_Labels = []\<rparr>),
      (''moby'', \<lparr>l_ID = ''gone'', l_CreatedAt = l_CreatedAt (leaseOfID []), l_Labels = pinLabels ''k8s.io/3/c2''\<rparr>)]\<rparr>"

lemma hostDedup_laws:
  "lease_laws (cl_LeasesService (dm_client hostDedup)) hostLeases"
  "stat_laws (dm_localSn hostDedup) (cl_LeasesService (dm_client hostDedup)) hostPresent"
  "stat_total (dm_localSn hostDedup) hostPresent"
  "deletes_succeed (cl_LeasesService (dm_client hostDedup)) hostLeases ns"
  by (simp_all add: hostLeaseSvc_laws host_stat_laws host_stat_total hostLeaseSvc_deletes)

lemma leasedHost_ids: "distinct (map l_ID (hostLeases leasedHost ''k8s.io''))"
  by code_simp

text \<open>The same node while the local snapshotter cannot answer: every Stat fails.\<close>

definition busyDedup :: "host dedupManager" where
  "busyDedup = hostDedup\<lparr>dm_localSn := localSnapshotter
     \<lparr>sn_Stat := (\<lambda>c k. State (\<lambda>w. (Inl (Errorf ''database is locked'' [k]), w)))\<rparr>\<rparr>"

lemma busyDedup_laws:
  "lease_laws (cl_LeasesService (dm_client busyDedup)) hostLeases"
  "stat_laws (dm_localSn busyDedup) (cl_LeasesService (dm_client busyDedup)) hostPresent"
  using host_stat_laws hostLeaseSvc_laws by (simp_all add: busyDedup_def stat_laws_def read_only_def)

theorem gcOrphanLeases_safe_witness:
  "fst (run_state (gcOrphanLeases hostDedup None ''k8s.io'') (hostNode leasedHost)) = 1 \<and>
   pinnedSnapshotsTotal (snd (run_state (gcOrphanLeases hostDedup None ''k8s.io'') (hostNode leasedHost))) = -1 \<and>
   fst (run_state (gcOrphanLeases busyDedup None ''k8s.io'') (hostNode leasedHost)) = 2 \<and>
   pinnedSnapshotsTotal (snd (run_state (gcOrphanLeases busyDedup None ''k8s.io'') (hostNode leasedHost))) = -2"
proof -
  let ?m = "\<lambda>m. gcOrphanLeases m None ''k8s.io''"
  have d: "fst (run_state (?m hostDedup) (hostNode leasedHost)) = 1"
    "fst (run_state (?m busyDedup) (hostNode leasedHost)) = 2" by code_simp+
  have ids: "distinct (map l_ID (hostLeases (world (hostNode leasedHost)) ''k8s.io''))"
    using leasedHost_ids by simp
  from gcOrphanLeases_safe [OF hostDedup_laws(1,2) ids fst_run [OF d(1)]]
    gcOrphanLeases_safe [OF busyDedup_laws ids fst_run [OF d(2)]] d
  show ?thesis by simp
qed

lemma countOrphanLeases_run:
  assumes laws: "lease_laws (cl_LeasesService (dm_client m)) store"
    and stat: "stat_laws (dm_localSn m) (cl_LeasesService (dm_client m)) present"
    and total: "stat_total (dm_localSn m) present"
    and list: "\<exists>ls. fst (run_state (listManagedLeases m ns) w) = Inr ls"
  shows "run_state (countOrphanLeases m c ns) w = (length (filter (orphan present w) (store w ns)), w)"
proof -
  let ?list = "ls_List (cl_LeasesService (dm_client m)) (Some ns) (labelFilter leaseLabelManagedBy leaseLabelManagedByValue)"
  obtain ls w1 where run: "run_state ?list w = (Inr ls, w1)"
    using list by (metis WithNamespace_def listManagedLeases_def prod.collapse)
  have "w1 = w" and "ls = filter managed (store w ns)"
    using list_lawD(1) [OF laws run] list_lawD(2) [OF laws run, of ls] by (simp_all add: managed_def [abs_def])
  moreover have "filter (\<lambda>l. owner l \<noteq> [] \<and> \<not> present w (owner l)) (filter managed ls') = filter (orphan present w) ls'" for ls'
    by (auto simp: orphan_def intro: filter_cong)
  ultimately show ?thesis
    using run by (simp add: countOrphanLeases_def go_run WithNamespace_def countOrphans_eq [OF stat total])
qed

text \<open>The scrape hook publishes the exact number of orphan leases, the managed leases whose owner
  snapshot no longer exists, when Stat answers for every snapshot that exists, and changes
  nothing else.\<close>

theorem RegisterScrapeHook_exact:
  assumes laws: "lease_laws (cl_LeasesService (dm_client m)) store"
    and stat: "stat_laws (dm_localSn m) (cl_LeasesService (dm_client m)) present"
    and total: "stat_total (dm_localSn m) present"
    and list: "\<exists>ls. fst (run_state (listManagedLeases m ''k8s.io'') (world s)) = Inr ls"
    and dedup: "ss_dedup sn = Some m"
  shows "run_state (RegisterScrapeHook sn c) s =
     ((), s\<lparr>orphanLeasesTotal := int (length (filter (orphan present (world s)) (store (world s) ''k8s.io'')))\<rparr>)"
  using countOrphanLeases_run [OF laws stat total list]
  by (simp add: RegisterScrapeHook_def dedup go_run containerdNamespaceK8s_def)

theorem RegisterScrapeHook_exact_witness:
  "orphanLeasesTotal (snd (run_state (RegisterScrapeHook (hostService True) None) (hostNode leasedHost))) = 1"
proof -
  have list: "\<exists>ls. fst (run_state (listManagedLeases hostDedup ''k8s.io'') (world (hostNode leasedHost))) = Inr ls"
    by (simp add: listManagedLeases_def hostLeaseSvc_def WithNamespace_def go_run)
  have dedup: "ss_dedup (hostService True) = Some hostDedup" by (simp add: hostService_def)
  have "length (filter (orphan hostPresent leasedHost) (hostLeases leasedHost ''k8s.io'')) = 1" by code_simp
  with RegisterScrapeHook_exact [OF hostDedup_laws(1-3) list dedup, of None] show ?thesis by simp
qed

text \<open>C21: the GC sweep is complete. When the leases can be listed and deletions of existing leases
  succeed, and Stat answers for every snapshot that exists, it deletes every orphan: it reports as many deletions as there were orphans, and
  the count that the scrape hook takes afterwards is zero.\<close>

theorem gcOrphanLeases_complete:
  assumes laws: "lease_laws (cl_LeasesService (dm_client m)) store"
    and stat: "stat_laws (dm_localSn m) (cl_LeasesService (dm_client m)) present"
    and total: "stat_total (dm_localSn m) present"
    and ok: "deletes_succeed (cl_LeasesService (dm_client m)) store ns"
    and ids: "distinct (map l_ID (store (world s) ns))"
    and list: "\<forall>w. \<exists>ls. fst (run_state (listManagedLeases m ns) w) = Inr ls"
    and run: "run_state (gcOrphanLeases m c ns) s = (deleted, s')"
  shows "deleted = length (filter (orphan present (world s)) (store (world s) ns)) \<and>
         fst (run_state (countOrphanLeases m c ns) (world s')) = 0"
proof -
  let ?ls = "filter managed (store (world s) ns)"
  from laws stat run have sweep: "run_state (gcOrphans m c (Some ns) ?ls 0) s = (deleted, s')"
    by (cases rule: gcOrphanLeases_run) (use list in auto)
  obtain D where D: "swept store ns D s s'" "deleted = card D"
      "D \<subseteq> l_ID ` {l \<in> set (store (world s) ns). orphan present (world s) l}"
    using gcOrphanLeases_orphans [OF laws stat total run] by blast
  have pres: "present (world s') = present (world s)"
    using gcOrphans_swept [OF laws stat sweep] by blast
  have gone: "l_ID l \<in> D" if "l \<in> set (store (world s) ns)" "orphan present (world s) l" for l
  proof -
    have "isl (fst (run_state (sn_Stat (dm_localSn m) c (owner l)) w))"
      if "deletions (cl_LeasesService (dm_client m)) ns (world s) w" for w
      using stat_absent [OF stat] deletions_present [OF stat that] \<open>orphan present (world s) l\<close>
      by (simp add: orphan_def)
    then have "l_ID l \<notin> l_ID ` set (store (world s') ns)"
      using gcOrphans_all [OF laws stat ok sweep, of l] that ids
      by (simp add: orphan_def distinct_map_filter)
    then show ?thesis using D(1) that by (auto simp: swept_def)
  qed
  then have "D = l_ID ` set (filter (orphan present (world s)) (store (world s) ns))" using D(3) by auto
  moreover have "distinct (map l_ID (filter (orphan present (world s)) (store (world s) ns)))"
    using ids by (rule distinct_map_filter)
  ultimately have "card D = length (filter (orphan present (world s)) (store (world s) ns))"
    by (metis distinct_card length_map set_map)
  moreover have "filter (orphan present (world s')) (store (world s') ns) = []"
    using D(1) gone pres by (auto simp: swept_def filter_empty_conv orphan_def)
  ultimately show ?thesis using D(2) countOrphanLeases_run [OF laws stat total] list by simp
qed

theorem gcOrphanLeases_complete_witness:
  "fst (run_state (countOrphanLeases hostDedup None ''k8s.io'')
      (world (snd (run_state (gcOrphanLeases hostDedup None ''k8s.io'') (hostNode leasedHost))))) = 0"
proof -
  have ids: "distinct (map l_ID (hostLeases (world (hostNode leasedHost)) ''k8s.io''))"
    using leasedHost_ids by simp
  have list: "\<forall>w. \<exists>ls. fst (run_state (listManagedLeases hostDedup ''k8s.io'') w) = Inr ls"
    by (simp add: listManagedLeases_def hostLeaseSvc_def WithNamespace_def go_run)
  from gcOrphanLeases_complete [OF hostDedup_laws ids list, of None] show ?thesis
    by (metis prod.collapse)
qed


section \<open>The gauge of pinned snapshots\<close>

text \<open>
  The daemon as a state machine on leases: in each step it pins, unpins, deletes a lease by ID
  or sweeps orphans in one of the namespaces \<open>N\<close>, in any order and with any result, or something
  else happens that leaves the leases and the gauge alone.
\<close>

inductive lease_step ::
  "'w dedupManager \<Rightarrow> ('w \<Rightarrow> string \<Rightarrow> lease list) \<Rightarrow> string set \<Rightarrow> 'w node \<Rightarrow> 'w node \<Rightarrow> bool"
  for m store N where
  pin: "ns \<in> N \<Longrightarrow> run_state (pinLayer m ns chainID key) s = (r, s') \<Longrightarrow> lease_step m store N s s'"
| unpin: "ns \<in> N \<Longrightarrow> run_state (unpinByActiveKey m ns key) s = ((), s') \<Longrightarrow> lease_step m store N s s'"
| delete: "ns \<in> N \<Longrightarrow> run_state (deleteLease m ns leaseID) s = (e, s') \<Longrightarrow> lease_step m store N s s'"
| gc: "ns \<in> N \<Longrightarrow> run_state (gcOrphanLeases m c ns) s = (d, s') \<Longrightarrow> lease_step m store N s s'"
| other: "store (world s') = store (world s) \<Longrightarrow> pinnedSnapshotsTotal s' = pinnedSnapshotsTotal s \<Longrightarrow>
    lease_step m store N s s'"

inductive_cases lease_stepE: "lease_step m store N s s'"

text \<open>The managed leases of the namespaces, which the gauge is meant to count.\<close>

definition managedLeases :: "('w \<Rightarrow> string \<Rightarrow> lease list) \<Rightarrow> string set \<Rightarrow> 'w \<Rightarrow> int" where
  "managedLeases store N w = (\<Sum>ns \<in> N. int (length (filter managed (store w ns))))"

text \<open>The invariant: lease IDs are unique and the gauge does not exceed the managed leases.\<close>

definition gauge_inv :: "('w \<Rightarrow> string \<Rightarrow> lease list) \<Rightarrow> string set \<Rightarrow> 'w node \<Rightarrow> bool" where
  "gauge_inv store N s \<longleftrightarrow>
     finite N \<and> (\<forall>ns \<in> N. distinct (map l_ID (store (world s) ns))) \<and>
     pinnedSnapshotsTotal s \<le> managedLeases store N (world s)"

lemma managedLeases_upd:
  assumes "finite N" and "ns \<in> N" and "store w' = (store w)(ns := ls)"
  shows "managedLeases store N w' =
    managedLeases store N w - int (length (filter managed (store w ns))) + int (length (filter managed ls))"
proof -
  have "(\<Sum>n \<in> N - {ns}. int (length (filter managed (store w' n)))) =
      (\<Sum>n \<in> N - {ns}. int (length (filter managed (store w n))))"
    by (rule sum.cong) (auto simp: assms(3))
  then show ?thesis using assms by (simp add: managedLeases_def sum.remove)
qed

lemma managedLeases_cong: "store w' = store w \<Longrightarrow> managedLeases store N w' = managedLeases store N w"
  by (simp add: managedLeases_def)

lemma gauge_inv_swept:
  assumes inv: "gauge_inv store N s" and ns: "ns \<in> N" and sw: "swept store ns D s s'"
  shows "gauge_inv store N s'"
proof -
  let ?ls = "store (world s) ns" and ?rest = "filter (\<lambda>k. l_ID k \<notin> D) (store (world s) ns)"
  have upd: "store (world s') = (store (world s))(ns := ?rest)" and gauge: "pinnedSnapshotsTotal s' = pinnedSnapshotsTotal s - int (card D)"
    and fin: "finite D" using sw by (simp_all add: swept_def)
  have N: "finite N" "\<forall>n \<in> N. distinct (map l_ID (store (world s) n))" "pinnedSnapshotsTotal s \<le> managedLeases store N (world s)"
    using inv by (simp_all add: gauge_inv_def)
  have "length (filter managed ?ls) \<le> length (filter managed ?rest) + card D"
    using filter_ids_managed fin N(2) ns by blast
  then have "pinnedSnapshotsTotal s' \<le> managedLeases store N (world s')"
    using managedLeases_upd [where store = store, OF N(1) ns upd] gauge N(3) by linarith
  then show ?thesis using N(1,2) upd by (simp add: gauge_inv_def distinct_map_filter)
qed

lemma gauge_inv_append:
  assumes "gauge_inv store N s" and "ns \<in> N" and "l_Labels l = pinLabels key"
    and "l_ID l \<notin> l_ID ` set (store (world s) ns)"
    and "store (world s') = (store (world s))(ns := store (world s) ns @ [l])"
    and "pinnedSnapshotsTotal s' \<le> pinnedSnapshotsTotal s + 1"
  shows "gauge_inv store N s'"
  using assms managedLeases_upd [of N ns store "world s'" "world s"] pinLabels_lease [of l key]
  by (simp add: gauge_inv_def)

lemma gauge_inv_pin:
  assumes laws: "lease_laws (cl_LeasesService (dm_client m)) store"
    and inv: "gauge_inv store N s" and ns: "ns \<in> N" and run: "run_state (pinLayer m ns chainID key) s = (r, s')"
  shows "gauge_inv store N s'"
  using laws run
proof (cases rule: pinLayer_run)
  case (pinned l)
  then show ?thesis using gauge_inv_append [OF inv ns] by simp
next
  case (failed e)
  then show ?thesis using inv by (simp add: gauge_inv_def managedLeases_def)
next
  case (leaked e l w2 e')
  then show ?thesis using gauge_inv_append [OF inv ns] by simp
qed

text \<open>The laws of the services, which hold in every state.\<close>

definition dedup_laws :: "'w dedupManager \<Rightarrow> ('w \<Rightarrow> string \<Rightarrow> lease list) \<Rightarrow> ('w \<Rightarrow> string \<Rightarrow> bool) \<Rightarrow> bool" where
  "dedup_laws m store present \<longleftrightarrow>
     lease_laws (cl_LeasesService (dm_client m)) store \<and>
     stat_laws (dm_localSn m) (cl_LeasesService (dm_client m)) present"

lemma gauge_inv_step:
  assumes laws: "dedup_laws m store present" and inv: "gauge_inv store N s" and step: "lease_step m store N s s'"
  shows "gauge_inv store N s'"
proof -
  note laws' = laws [unfolded dedup_laws_def, THEN conjunct1] laws [unfolded dedup_laws_def, THEN conjunct2]
  from step show ?thesis
  proof cases
    case (pin ns)
    then show ?thesis by (intro gauge_inv_pin [OF laws'(1) inv])
  next
    case (unpin ns)
    then obtain D where "swept store ns D s s'" using unpin_remover.releases [OF laws' unpin(2)] by blast
    then show ?thesis by (rule gauge_inv_swept [OF inv unpin(1)])
  next
    case (delete ns)
    then obtain D where "swept store ns D s s'" using delete_remover.releases [OF laws' delete(2)] by blast
    then show ?thesis by (rule gauge_inv_swept [OF inv delete(1)])
  next
    case (gc ns)
    then obtain D where "swept store ns D s s'" using gc_remover.releases [OF laws' gc(2)] by blast
    then show ?thesis by (rule gauge_inv_swept [OF inv gc(1)])
  next
    case other
    then show ?thesis using inv managedLeases_cong [where store = store, OF other(1)] by (simp add: gauge_inv_def)
  qed
qed

interpretation lease_machine:
  step_invariant "lease_step m store N" "\<lambda>s. dedup_laws m store present \<and> gauge_inv store N s" for m store N present
  by unfold_locales (use gauge_inv_step in blast)

lemma hostDedup_dedup_laws: "dedup_laws hostDedup hostLeases hostPresent"
  by (simp add: dedup_laws_def hostLeaseSvc_laws host_stat_laws)


section \<open>Prepare and Remove\<close>

text \<open>Prepare returns what the native snapshotter returned and Remove returns what it returned,
  whatever happens on the dedup path, pinning and unpinning failures included.\<close>

theorem prepare_remove_transparent:
  "fst (run_state (svc_Prepare sn c key parent opts) s) =
     fst (run_state (sn_Prepare (ss_Snapshotter sn) c key parent opts) (world s)) \<and>
   fst (run_state (svc_Remove sn c key) s) = fst (run_state (sn_Remove (ss_Snapshotter sn) c key) (world s))"
  by (auto simp: svc_Prepare_def svc_Remove_def go_run split: prod.splits option.splits)

lemma is_hex_separators [simp]: "\<not> is_hex (CHR ''/'')" "\<not> is_hex (CHR '' '')"
  by (simp_all add: is_hex_def less_char_def)

lemma isChainID_iff: "isChainID s \<longleftrightarrow> (\<exists>h. s = ''sha256:'' @ h \<and> length h = 64 \<and> list_all is_hex h)"
  by (auto simp: isChainID_def cut_prefix_Some cut_prefix_None has_prefix_iff split: option.splits if_splits)

lemma isChainID_no_slash: "isChainID s \<Longrightarrow> CHR ''/'' \<notin> set s \<and> CHR '' '' \<notin> set s"
  by (auto simp: isChainID_iff list_all_iff) (metis is_hex_separators)+


text \<open>Prepare pins a layer exactly when the new snapshot is that of a container (its ID is not a
  chain ID and not that of an unpack) and its parent is an image layer, given by its
  metadata-layer key; the layer pinned is that parent and the lease goes to the namespace of
  the key.\<close>

theorem pinTarget_iff:
  "pinTarget key parent = Some (ns, chainID) \<longleftrightarrow>
     (\<exists>seq cid. key = ns @ ''/'' @ seq @ ''/'' @ cid \<and> CHR ''/'' \<notin> set ns \<and> CHR ''/'' \<notin> set seq \<and>
        CHR '' '' \<notin> set cid \<and> (\<nexists>t. cid = ''extract-'' @ t) \<and> \<not> isChainID cid) \<and>
     (\<exists>ns' seq. parent = ns' @ ''/'' @ seq @ ''/'' @ chainID \<and> CHR ''/'' \<notin> set ns' \<and> CHR ''/'' \<notin> set seq) \<and>
     isChainID chainID"
proof -
  have "pinTarget key parent = Some (ns, chainID) \<longleftrightarrow>
     (\<exists>cid. parseSnapshotKey key = Some (ns, cid) \<and> \<not> isChainID cid) \<and>
     (\<exists>ns'. parseSnapshotKey parent = Some (ns', chainID)) \<and> isChainID chainID"
    by (auto simp: pinTarget_def split: option.splits if_splits)
  moreover have "CHR '' '' \<notin> set chainID \<and> (\<nexists>t. chainID = ''extract-'' @ t)" if "isChainID chainID"
    using that isChainID_no_slash by (auto simp: isChainID_iff)
  ultimately show ?thesis unfolding parseSnapshotKey_Some by blast
qed

text \<open>The snapshotter calls of Prepare and Remove leave the leases alone.\<close>

definition leases_untouched ::
  "'w snapshotter_api \<Rightarrow> ('w \<Rightarrow> string \<Rightarrow> lease list) \<Rightarrow> bool" where
  "leases_untouched S store \<longleftrightarrow>
     (\<forall>c k p opts w. store (snd (run_state (sn_Prepare S c k p opts) w)) = store w) \<and>
     (\<forall>c k w. store (snd (run_state (sn_Remove S c k) w)) = store w)"

lemma svc_Prepare_run:
  assumes untouched: "leases_untouched (ss_Snapshotter sn) store" and dedup: "ss_dedup sn = Some m"
    and target: "pinTarget key parent = Some (ns, chainID)"
    and run: "run_state (svc_Prepare sn c key parent opts) s = (r, s')"
  obtains w1 pr where "store w1 = store (world s)"
    "run_state (pinLayer m ns chainID key) (s\<lparr>world := w1\<rparr>) = (pr, s')"
proof -
  obtain r1 w1 where inner: "run_state (sn_Prepare (ss_Snapshotter sn) c key parent opts) (world s) = (r1, w1)"
    by (cases "run_state (sn_Prepare (ss_Snapshotter sn) c key parent opts) (world s)")
  have "store w1 = store (world s)" using untouched inner by (metis leases_untouched_def snd_conv)
  then show thesis using that run inner dedup target
    by (cases "run_state (pinLayer m ns chainID key) (s\<lparr>world := w1\<rparr>)") (auto simp: svc_Prepare_def go_run)
qed

lemma svc_Remove_run:
  assumes untouched: "leases_untouched (ss_Snapshotter sn) store" and dedup: "ss_dedup sn = Some m"
    and key: "parseSnapshotKey key = Some (ns, cid)"
    and run: "run_state (svc_Remove sn c key) s = (r, s')"
  obtains w1 where "store w1 = store (world s)"
    "run_state (unpinByActiveKey m ns key) (s\<lparr>world := w1\<rparr>) = ((), s')"
proof -
  obtain r1 w1 where inner: "run_state (sn_Remove (ss_Snapshotter sn) c key) (world s) = (r1, w1)"
    by (cases "run_state (sn_Remove (ss_Snapshotter sn) c key) (world s)")
  have "store w1 = store (world s)" using untouched inner by (metis leases_untouched_def snd_conv)
  then show thesis using that run inner dedup key
    by (cases "run_state (unpinByActiveKey m ns key) (s\<lparr>world := w1\<rparr>)") (auto simp: svc_Remove_def go_run)
qed

text \<open>Unpinning a key whose leases can be listed, when it has none or a single fresh one.\<close>

definition owned_by :: "string \<Rightarrow> lease \<Rightarrow> bool" where
  "owned_by key l = (map_of (l_Labels l) leaseLabelOwnerKey = Some key)"

lemma unpinByActiveKey_lists:
  assumes laws: "lease_laws (cl_LeasesService (dm_client m)) store"
    and list: "\<exists>ls. fst (run_state (ls_List (cl_LeasesService (dm_client m)) (Some ns) (labelFilter leaseLabelOwnerKey key)) (world s)) = Inr ls"
    and run: "run_state (unpinByActiveKey m ns key) s = ((), s')"
  shows "run_state (unpinLeases (cl_LeasesService (dm_client m)) (Some ns) (filter (owned_by key) (store (world s) ns))) s = ((), s')"
proof -
  let ?L = "cl_LeasesService (dm_client m)"
  obtain ls w1 where l: "run_state (ls_List ?L (Some ns) (labelFilter leaseLabelOwnerKey key)) (world s) = (Inr ls, w1)"
    using list by (metis prod.collapse)
  have "w1 = world s" and "ls = filter (owned_by key) (store (world s) ns)"
    using list_lawD(1) [OF laws l] list_lawD(2) [OF laws l, of ls] by (simp_all add: owned_by_def [abs_def])
  then show ?thesis using run l
    by (auto simp: unpinByActiveKey_def go_run WithNamespace_def Let_def split: if_splits)
qed

lemma unpinLeases_one:
  assumes laws: "lease_laws L store" and ok: "deletes_succeed L store ns"
    and st: "store (world s) ns = ls @ [l]" and fresh: "l_ID l \<notin> l_ID ` set ls"
    and run: "run_state (unpinLeases L (Some ns) [l]) s = ((), s')"
  shows "store (world s') = (store (world s))(ns := ls) \<and> pinnedSnapshotsTotal s' = pinnedSnapshotsTotal s - 1"
proof -
  have "fst (run_state (ls_Delete L (Some ns) l) (world s)) = None"
    using ok st unfolding deletes_succeed_def by simp
  then obtain w1 where del: "run_state (ls_Delete L (Some ns) l) (world s) = (None, w1)"
    by (metis prod.collapse)
  then show ?thesis using run delete_lawD(2) [OF laws del] st filter_fresh_id [OF fresh]
    by (auto simp: go_run)
qed

text \<open>C14: pinning and unpinning round trip. For a container key that owned no lease before, Prepare
  followed by Remove leaves exactly the leases there were and the gauge where it was, whether
  the pin succeeded, failed or was rolled back, as long as the leases can be listed and
  deletions of existing leases succeed.\<close>

theorem prepare_remove_roundtrip:
  assumes laws: "lease_laws (cl_LeasesService (dm_client m)) store"
    and ok: "deletes_succeed (cl_LeasesService (dm_client m)) store ns"
    and list: "\<forall>w. \<exists>ls. fst (run_state (ls_List (cl_LeasesService (dm_client m)) (Some ns) (labelFilter leaseLabelOwnerKey key)) w) = Inr ls"
    and untouched: "leases_untouched (ss_Snapshotter sn) store" and dedup: "ss_dedup sn = Some m"
    and target: "pinTarget key parent = Some (ns, chainID)"
    and unowned: "filter (owned_by key) (store (world s) ns) = []"
    and prepare: "run_state (svc_Prepare sn c key parent opts) s = (r, s1)"
    and remove: "run_state (svc_Remove sn c' key) s1 = (e, s2)"
  shows "store (world s2) = store (world s) \<and> pinnedSnapshotsTotal s2 = pinnedSnapshotsTotal s"
proof -
  let ?L = "cl_LeasesService (dm_client m)"
  obtain w0 pr where w0: "store w0 = store (world s)"
    and pin: "run_state (pinLayer m ns chainID key) (s\<lparr>world := w0\<rparr>) = (pr, s1)"
    using svc_Prepare_run [OF untouched dedup target prepare] by blast
  obtain cid where "parseSnapshotKey key = Some (ns, cid)"
    using target by (auto simp: pinTarget_def split: option.splits if_splits)
  then obtain w1 where w1: "store w1 = store (world s1)"
    and unpin: "run_state (unpinByActiveKey m ns key) (s1\<lparr>world := w1\<rparr>) = ((), s2)"
    using svc_Remove_run [OF untouched dedup _ remove] by blast
  have run: "run_state (unpinLeases ?L (Some ns) (filter (owned_by key) (store (world s1) ns))) (s1\<lparr>world := w1\<rparr>) = ((), s2)"
    using unpinByActiveKey_lists [OF laws _ unpin] list w1 by simp
  from laws pin show ?thesis
  proof (cases rule: pinLayer_run)
    case (pinned l)
    then have st: "store (world (s1\<lparr>world := w1\<rparr>)) ns = store (world s) ns @ [l]"
      and fresh: "l_ID l \<notin> l_ID ` set (store (world s) ns)" using w0 w1 by simp_all
    have "filter (owned_by key) (store (world s1) ns) = [l]"
      using pinned unowned w0 pinLabels_lease [of l key] by (simp add: owned_by_def)
    then have "store (world s2) = (store w1)(ns := store (world s) ns) \<and>
        pinnedSnapshotsTotal s2 = pinnedSnapshotsTotal s1 - 1"
      using unpinLeases_one [OF laws ok st fresh] run by (simp del: unpinLeases.simps)
    then show ?thesis using pinned w0 w1 by (auto simp: fun_eq_iff)
  next
    case (failed e)
    then show ?thesis using run unowned w0 w1 by (auto simp: go_run)
  next
    case (leaked e l w2 e')
    have "l_ID l \<in> l_ID ` set (store w2 ns)" using leaked by simp
    then have "fst (run_state (ls_Delete ?L (Some ns) l) w2) = None" using ok unfolding deletes_succeed_def by blast
    then show ?thesis using leaked by simp
  qed
qed

theorem prepare_remove_roundtrip_witness:
  "hostLeases (world (snd (run_state (svc_Remove (hostService True) None ''k8s.io/3/c2'')
      (snd (run_state (svc_Prepare (hostService True) None ''k8s.io/3/c2'' (''k8s.io/1/'' @ layerID) [])
         (hostNode podHost)))))) = hostLeases podHost"
proof -
  let ?sn = "hostService True"
  let ?p = "svc_Prepare ?sn None ''k8s.io/3/c2'' (''k8s.io/1/'' @ layerID) []"
  let ?r = "svc_Remove ?sn None ''k8s.io/3/c2''"
  have list: "\<forall>w. \<exists>ls. fst (run_state (ls_List (cl_LeasesService (dm_client hostDedup)) (Some ''k8s.io'')
      (labelFilter leaseLabelOwnerKey ''k8s.io/3/c2'')) w) = Inr ls"
    by (simp add: hostLeaseSvc_def go_run)
  have untouched: "leases_untouched (ss_Snapshotter ?sn) hostLeases"
    by (auto simp: leases_untouched_def hostService_def localSnapshotter_def snapStore_def snapCreate_def
        hostLeases_def Let_def)
  have dedup: "ss_dedup ?sn = Some hostDedup" by (simp add: hostService_def)
  have target: "pinTarget ''k8s.io/3/c2'' (''k8s.io/1/'' @ layerID) = Some (''k8s.io'', layerID)" by code_simp
  have unowned: "filter (owned_by ''k8s.io/3/c2'') (hostLeases (world (hostNode podHost)) ''k8s.io'') = []"
    by code_simp
  have prepare: "run_state ?p (hostNode podHost) =
      (fst (run_state ?p (hostNode podHost)), snd (run_state ?p (hostNode podHost)))" by simp
  have remove: "run_state ?r (snd (run_state ?p (hostNode podHost))) =
      (fst (run_state ?r (snd (run_state ?p (hostNode podHost)))),
       snd (run_state ?r (snd (run_state ?p (hostNode podHost)))))" by simp
  from prepare_remove_roundtrip [OF hostDedup_laws(1,4) list untouched dedup target unowned prepare remove]
  show ?thesis by simp
qed

text \<open>The delete endpoint answers 204 exactly when the lease existed and was deleted; for a lease
  that does not exist it answers 500, not 404, and neither the leases nor the gauge change.\<close>

theorem handleDeleteLease_missing:
  assumes laws: "lease_laws (cl_LeasesService (dm_client m)) store"
    and dedup: "ss_dedup sn = Some m" and id: "leaseID \<noteq> []"
    and run: "run_state (handleDeleteLease sn leaseID) s = ((code, body), s')"
  shows "(code = 204 \<or> code = 500) \<and>
         (code = 204 \<longleftrightarrow> leaseID \<in> l_ID ` set (store (world s) ''k8s.io'') \<and>
                        leaseID \<notin> l_ID ` set (store (world s') ''k8s.io'')) \<and>
         (leaseID \<notin> l_ID ` set (store (world s) ''k8s.io'') \<longrightarrow>
            code = 500 \<and> store (world s') = store (world s) \<and> pinnedSnapshotsTotal s' = pinnedSnapshotsTotal s)"
proof -
  obtain e s1 where del: "run_state (deleteLease m ''k8s.io'' leaseID) s = (e, s1)"
    by (cases "run_state (deleteLease m ''k8s.io'' leaseID) s")
  then have s1: "s1 = s'" and code: "code = (if e = None then 204 else 500)"
    using run dedup id by (auto simp: handleDeleteLease_def go_run containerdNamespaceK8s_def split: option.splits)
  have "case e of
          None \<Rightarrow> leaseID \<in> l_ID ` set (store (world s) ''k8s.io'') \<and> swept store ''k8s.io'' {leaseID} s s'
        | Some _ \<Rightarrow> swept store ''k8s.io'' {} s s'"
    using deleteLease_run [OF laws del] unfolding s1 .
  then show ?thesis by (cases e) (auto simp: code swept_def)
qed

theorem handleDeleteLease_missing_witness:
  "\<exists>body s'. run_state (handleDeleteLease (hostService True) ''nope'') (hostNode leasedHost) = ((500, body), s')"
proof -
  let ?m = "handleDeleteLease (hostService True) ''nope''"
  obtain code body s' where run: "run_state ?m (hostNode leasedHost) = ((code, body), s')" by (metis surj_pair)
  have dedup: "ss_dedup (hostService True) = Some hostDedup" by (simp add: hostService_def)
  have "''nope'' \<notin> l_ID ` set (hostLeases (world (hostNode leasedHost)) ''k8s.io'')" by code_simp
  with handleDeleteLease_missing [OF hostDedup_laws(1) dedup _ run] run show ?thesis by simp
qed

end
