(* ===== verification/Materialise_Props.thy ===== *)
theory Materialise_Props
  imports Lease_Props
begin

text \<open>
  Properties of the reference snapshots of dedup.go and of the Stat method: materialisation is
  all-or-nothing, what Stat does to the local snapshotter, and the cases in which the dedup path
  does not help.
\<close>


section \<open>Laws of the local snapshotter\<close>

text \<open>\<open>keys w\<close>: the keys of the local snapshotter in world \<open>w\<close>. Every call that changes something may fail, and
  so may Mounts; Stat is assumed to answer, that is to succeed exactly on the keys that exist.\<close>

definition snap_laws :: "'w snapshotter_api \<Rightarrow> ('w \<Rightarrow> string set) \<Rightarrow> bool" where
  "snap_laws S keys \<longleftrightarrow>
     (\<forall>c k w r w'. run_state (sn_Stat S c k) w = (r, w') \<longrightarrow> w' = w \<and> ((\<exists>i. r = Inr i) \<longleftrightarrow> k \<in> keys w)) \<and>
     (\<forall>c k p opts w e w'. run_state (sn_Prepare S c k p opts) w = (Inl e, w') \<longrightarrow> keys w' = keys w) \<and>
     (\<forall>c k p opts w ms w'. run_state (sn_Prepare S c k p opts) w = (Inr ms, w') \<longrightarrow>
        k \<notin> keys w \<and> keys w' = insert k (keys w)) \<and>
     (\<forall>c k w r w'. run_state (sn_Mounts S c k) w = (r, w') \<longrightarrow> keys w' = keys w) \<and>
     (\<forall>c n k opts w err w'. run_state (sn_Commit S c n k opts) w = (Some err, w') \<longrightarrow> keys w' = keys w) \<and>
     (\<forall>c n k opts w w'. run_state (sn_Commit S c n k opts) w = (None, w') \<longrightarrow>
        keys w' = insert n (keys w - {k})) \<and>
     (\<forall>c k w err w'. run_state (sn_Remove S c k) w = (Some err, w') \<longrightarrow> keys w' = keys w) \<and>
     (\<forall>c k w w'. run_state (sn_Remove S c k) w = (None, w') \<longrightarrow> keys w' = keys w - {k})"

text \<open>The directory operations do not touch the keys of the snapshotter.\<close>

definition os_frame :: "'w os_api \<Rightarrow> ('w \<Rightarrow> string set) \<Rightarrow> bool" where
  "os_frame os keys \<longleftrightarrow> (\<forall>p. keeps keys (os_RemoveAll os p)) \<and> (\<forall>t p. keeps keys (os_Symlink os t p))"

text \<open>The probes of the overlayfs snapshotter do not touch the local one.\<close>

definition ovl_frame :: "'w dedupManager \<Rightarrow> ('w \<Rightarrow> string set) \<Rightarrow> bool" where
  "ovl_frame m keys \<longleftrightarrow>
     (let S = cl_SnapshotService (dm_client m) overlayfsSnapshotterName in
      (\<forall>c k. keeps keys (sn_Stat S c k)) \<and> (\<forall>c k p opts. keeps keys (sn_View S c k p opts)) \<and>
      (\<forall>c k. keeps keys (sn_Remove S c k)))"

text \<open>The removal of the temporary active snapshot of a reference succeeds.\<close>

definition rollback_ok :: "'w snapshotter_api \<Rightarrow> ('w \<Rightarrow> string set) \<Rightarrow> string \<Rightarrow> bool" where
  "rollback_ok S keys chainID \<longleftrightarrow>
     (\<forall>c w. refTmpKey chainID \<in> keys w \<longrightarrow> fst (run_state (sn_Remove S c (refTmpKey chainID)) w) = None)"

lemma snap_lawsD:
  assumes "snap_laws S keys"
  shows "run_state (sn_Stat S c k) w = (r, w') \<Longrightarrow> w' = w \<and> ((\<exists>i. r = Inr i) \<longleftrightarrow> k \<in> keys w)"
    and "run_state (sn_Prepare S c k p opts) w = (Inl e, w') \<Longrightarrow> keys w' = keys w"
    and "run_state (sn_Prepare S c k p opts) w = (Inr ms, w') \<Longrightarrow> k \<notin> keys w \<and> keys w' = insert k (keys w)"
    and "run_state (sn_Mounts S c k) w = (r', w') \<Longrightarrow> keys w' = keys w"
    and "run_state (sn_Commit S c n k opts) w = (Some err, w') \<Longrightarrow> keys w' = keys w"
    and "run_state (sn_Commit S c n k opts) w = (None, w') \<Longrightarrow> keys w' = insert n (keys w - {k})"
    and "run_state (sn_Remove S c k) w = (Some err, w') \<Longrightarrow> keys w' = keys w"
    and "run_state (sn_Remove S c k) w = (None, w') \<Longrightarrow> keys w' = keys w - {k}"
  using assms unfolding snap_laws_def by simp_all


section \<open>Materialisation\<close>

lemma replaceWithSymlink_keeps: "os_frame os keys \<Longrightarrow> keeps keys (replaceWithSymlink os path target)"
  by (auto simp: replaceWithSymlink_def os_frame_def intro!: keeps_bind split: option.splits)

lemma abandonReference_run:
  assumes laws: "snap_laws (dm_localSn m) keys" and rb: "rollback_ok (dm_localSn m) keys chainID"
    and w: "keys w = insert (refTmpKey chainID) K" "refTmpKey chainID \<notin> K"
    and run: "run_state (abandonReference m c (refTmpKey chainID) err) w = (e, w')"
  shows "e = Some err \<and> keys w' = K"
proof -
  have "fst (run_state (sn_Remove (dm_localSn m) c (refTmpKey chainID)) w) = None"
    using rb w(1) by (simp add: rollback_ok_def)
  then obtain w1 where "run_state (sn_Remove (dm_localSn m) c (refTmpKey chainID)) w = (None, w1)"
    by (metis prod.collapse)
  moreover from this have "keys w1 = keys w - {refTmpKey chainID}" by (rule snap_lawsD(8) [OF laws])
  ultimately show ?thesis using run w by (simp add: abandonReference_def go_run)
qed

text \<open>The steps of a successful materialisation, in order.\<close>

lemma materializeReference_success:
  assumes "run_state (materializeReference os m c chainID parent path) w = (None, w')"
  obtains ms w1 lms w2 fs w3 where
    "run_state (sn_Prepare (dm_localSn m) c (refTmpKey chainID) parent []) w = (Inr ms, w1)"
    "run_state (sn_Mounts (dm_localSn m) c (refTmpKey chainID)) w1 = (Inr lms, w2)"
    "upperdirFromMounts lms = Inr fs"
    "run_state (replaceWithSymlink os fs path) w2 = (None, w3)"
    "run_state (sn_Commit (dm_localSn m) c chainID (refTmpKey chainID) []) w3 = (None, w')"
  using assms
  by (auto simp: materializeReference_def abandonReference_def go_run Let_def
      split: prod.splits sum.splits option.splits)

text \<open>A failure after the temporary snapshot was prepared ends in abandonReference, with the temporary
  snapshot still there.\<close>

lemma materializeReference_abandons:
  assumes laws: "snap_laws (dm_localSn m) keys" and os: "os_frame os keys"
    and prep: "run_state (sn_Prepare (dm_localSn m) c (refTmpKey chainID) parent []) w = (Inr ms, w1)"
    and run: "run_state (materializeReference os m c chainID parent path) w = (Some err, w')"
  shows "\<exists>e v. run_state (abandonReference m c (refTmpKey chainID) e) v = (Some err, w') \<and> keys v = insert (refTmpKey chainID) (keys w)"
proof -
  let ?S = "dm_localSn m" and ?t = "refTmpKey chainID"
  note go = materializeReference_def go_run Let_def prep
  obtain lm w2 where mounts: "run_state (sn_Mounts ?S c ?t) w1 = (lm, w2)" by fastforce
  have k2: "keys w2 = insert ?t (keys w)" using snap_lawsD(4) [OF laws mounts] snap_lawsD(3) [OF laws prep] by simp
  show ?thesis
  proof (cases "\<exists>lms fs. lm = Inr lms \<and> upperdirFromMounts lms = Inr fs")
    case False
    then obtain e where "run_state (abandonReference m c ?t e) w2 = (Some err, w')"
      using run mounts by (cases lm) (auto simp: go split: sum.splits)
    then show ?thesis using k2 by blast
  next
    case True
    then obtain lms fs where fs: "lm = Inr lms" "upperdirFromMounts lms = Inr fs" by blast
    obtain e3 w3 where link: "run_state (replaceWithSymlink os fs path) w2 = (e3, w3)" by fastforce
    have k3: "keys w3 = insert ?t (keys w)" using keepsD [OF replaceWithSymlink_keeps [OF os] link] k2 by simp
    obtain e4 w4 where commit: "run_state (sn_Commit ?S c chainID ?t []) w3 = (e4, w4)" by fastforce
    have "keys w4 = insert ?t (keys w)" if "e4 = Some x" for x using snap_lawsD(5) [OF laws commit [unfolded that]] k3 by simp
    then show ?thesis using run mounts fs link commit k3 by (cases e3; cases e4) (auto simp: go)
  qed
qed

lemma materializeReference_error:
  assumes laws: "snap_laws (dm_localSn m) keys" and os: "os_frame os keys"
    and rb: "rollback_ok (dm_localSn m) keys chainID"
    and run: "run_state (materializeReference os m c chainID parent path) w = (Some err, w')"
  shows "keys w' = keys w"
proof -
  obtain p w1 where prep: "run_state (sn_Prepare (dm_localSn m) c (refTmpKey chainID) parent []) w = (p, w1)" by fastforce
  show ?thesis
  proof (cases p)
    case (Inl e)
    then show ?thesis using run prep snap_lawsD(2) [OF laws prep [unfolded Inl]]
      by (simp add: materializeReference_def go_run Let_def)
  next
    case (Inr ms)
    have "refTmpKey chainID \<notin> keys w" using snap_lawsD(3) [OF laws prep [unfolded Inr]] by blast
    then show ?thesis
      using materializeReference_abandons [OF laws os prep [unfolded Inr] run] abandonReference_run [OF laws rb] by blast
  qed
qed

lemma materializeReference_keys:
  assumes laws: "snap_laws (dm_localSn m) keys" and os: "os_frame os keys"
    and rb: "rollback_ok (dm_localSn m) keys chainID"
    and run: "run_state (materializeReference os m c chainID parent path) w = (e, w')"
  shows "keys w' = (case e of None \<Rightarrow> insert chainID (keys w) | Some err \<Rightarrow> keys w)"
proof (cases e)
  case None
  obtain ms w1 lms w2 fs w3 where
    "run_state (sn_Prepare (dm_localSn m) c (refTmpKey chainID) parent []) w = (Inr ms, w1)"
    "run_state (sn_Mounts (dm_localSn m) c (refTmpKey chainID)) w1 = (Inr lms, w2)"
    "upperdirFromMounts lms = Inr fs"
    "run_state (replaceWithSymlink os fs path) w2 = (None, w3)"
    "run_state (sn_Commit (dm_localSn m) c chainID (refTmpKey chainID) []) w3 = (None, w')"
    by (rule materializeReference_success [OF run [unfolded None]])
  note steps = this
  have "keys w' = insert chainID (keys w3 - {refTmpKey chainID})" by (rule snap_lawsD(6) [OF laws steps(5)])
  moreover have "keys w3 = keys w2" by (rule keepsD [OF replaceWithSymlink_keeps [OF os] steps(4)])
  moreover have "keys w2 = keys w1" by (rule snap_lawsD(4) [OF laws steps(2)])
  moreover have "refTmpKey chainID \<notin> keys w \<and> keys w1 = insert (refTmpKey chainID) (keys w)"
    by (rule snap_lawsD(3) [OF laws steps(1)])
  ultimately show ?thesis using None by simp
next
  case (Some err)
  then show ?thesis using materializeReference_error [OF laws os rb] run by simp
qed

text \<open>C6: materialising a reference is all-or-nothing for the local snapshotter: on success exactly
  the chain ID is added, on any error the keys are what they were, and in no case is the
  temporary snapshot left behind (provided that removing it succeeds).\<close>

theorem materializeReference_atomic:
  assumes laws: "snap_laws (dm_localSn m) keys" and os: "os_frame os keys"
    and rb: "rollback_ok (dm_localSn m) keys chainID"
    and run: "run_state (materializeReference os m c chainID parent path) w = (e, w')"
  shows "keys w' = (case e of None \<Rightarrow> insert chainID (keys w) | Some err \<Rightarrow> keys w)"
  using assms by (rule materializeReference_keys)

text \<open>The reference host satisfies the laws.\<close>

definition hostKeys :: "host \<Rightarrow> string set" where
  "hostKeys w = fst ` set (ho_local w)"

lemma map_of_key: "map_of m k = None \<longleftrightarrow> k \<notin> fst ` set m"
  by (rule map_of_eq_None_iff)

lemma keys_filter: "fst ` set (filter (\<lambda>(q, i). q \<noteq> k) m) = fst ` set m - {k}"
  by force

lemma host_snap_laws: "snap_laws localSnapshotter hostKeys"
  unfolding snap_laws_def localSnapshotter_def snapStore_def snapCreate_def hostKeys_def
  by (auto simp: go_run map_of_key keys_map_put keys_filter Let_def
      split: option.splits if_splits) (metis map_of_key option.distinct(1))

lemma host_frames:
  "os_frame hostOS hostKeys" "ovl_frame hostDedup hostKeys" "rollback_ok localSnapshotter hostKeys chainID"
proof -
  show "os_frame hostOS hostKeys" by (simp add: os_frame_def hostOS_def keeps_def hostKeys_def)
  show "ovl_frame hostDedup hostKeys"
    by (auto simp: ovl_frame_def keeps_def hostKeys_def overlayfsSnapshotter_def snapStore_def snapCreate_def
        go_run Let_def)
  show "rollback_ok localSnapshotter hostKeys chainID"
    by (simp add: rollback_ok_def localSnapshotter_def snapStore_def hostKeys_def map_of_key)
qed

definition sharedHost :: host where
  "sharedHost = podHost\<lparr>ho_local := [(''base'', \<lparr>i_Kind = KindCommitted, i_Name = ''base'', i_Parent = [], i_Labels = []\<rparr>)],
     ho_overlayfs :=
       [(''base'', \<lparr>i_Kind = KindCommitted, i_Name = ''base'', i_Parent = [], i_Labels = []\<rparr>),
        (layerID, \<lparr>i_Kind = KindCommitted, i_Name = layerID, i_Parent = ''base'', i_Labels = []\<rparr>)]\<rparr>"

theorem materializeReference_atomic_witness:
  "hostKeys (snd (run_state (materializeReference hostOS hostDedup None layerID ''base'' ''/ovl/fs'') sharedHost)) =
     insert layerID (hostKeys sharedHost)"
proof -
  let ?m = "materializeReference hostOS hostDedup None layerID ''base'' ''/ovl/fs''"
  have "fst (run_state ?m sharedHost) = None" by code_simp
  then have run: "run_state ?m sharedHost = (None, snd (run_state ?m sharedHost))" by (metis prod.collapse)
  have laws: "snap_laws (dm_localSn hostDedup) hostKeys" by (simp add: host_snap_laws)
  have rb: "rollback_ok (dm_localSn hostDedup) hostKeys layerID" by (simp add: host_frames)
  from materializeReference_atomic [OF laws host_frames(1) rb run] show ?thesis by simp
qed


section \<open>Stat\<close>

lemma overlayfsLayerPath_no_panic: "fst (run_state (overlayfsLayerPath m ns chainID) w) \<noteq> None"
  by (auto simp: overlayfsLayerPath_def go_run Let_def layerPathFromMounts_def
      split: prod.splits sum.splits list.splits if_splits)

lemma statWithLazyMaterialise_no_panic:
  "\<exists>r w'. run_state (statWithLazyMaterialise os m c key S) w = (Some r, w')"
proof -
  let ?ns = "if Namespace c = [] then containerdNamespaceK8s else Namespace c"
  obtain p w1 where "run_state (overlayfsLayerPath m ?ns key) w = (Some p, w1)"
    using overlayfsLayerPath_no_panic by (metis not_None_eq prod.collapse)
  then show ?thesis
    by (cases p) (auto simp: statWithLazyMaterialise_def go_run Let_def split: prod.splits)
qed

text \<open>Stat never panics: the probe of the overlayfs layer never indexes an empty list of mounts,
  whatever the overlayfs snapshotter returns.\<close>

theorem svc_Stat_no_panic: "fst (run_state (svc_Stat P sn c key) s) \<noteq> Panic msg"
proof -
  obtain st w1 where st: "run_state (sn_Stat (ss_Snapshotter sn) c key) (world s) = (st, w1)"
    by (cases "run_state (sn_Stat (ss_Snapshotter sn) c key) (world s)")
  show ?thesis
  proof (cases "ss_dedup sn")
    case None
    then show ?thesis using st by (cases st) (simp_all add: svc_Stat_def go_run)
  next
    case (Some m)
    obtain r w2 where "run_state (statWithLazyMaterialise (pk_os P) m c key (ss_Snapshotter sn)) w1 = (Some r, w2)"
      using statWithLazyMaterialise_no_panic [of "pk_os P" m c key "ss_Snapshotter sn" w1] by blast
    then show ?thesis using st Some by (cases st) (simp_all add: svc_Stat_def go_run)
  qed
qed

lemma overlayfsLayerPath_keeps: "ovl_frame m keys \<Longrightarrow> keeps keys (overlayfsLayerPath m ns chainID)"
  unfolding ovl_frame_def overlayfsLayerPath_def Let_def
  by (intro keeps_bind) (auto intro!: keeps_bind split: sum.splits)

lemma materialiseLocked_effect:
  assumes laws: "snap_laws (dm_localSn m) keys" and os: "os_frame os keys" and ovl: "ovl_frame m keys"
    and rb: "rollback_ok (dm_localSn m) keys key"
    and run: "run_state (materialiseLocked os m c ns key path (dm_localSn m)) w = (r, w')"
  shows "case r of Inr i \<Rightarrow> keys w' = insert key (keys w) | Inl e \<Rightarrow> keys w' = keys w"
proof -
  let ?S = "dm_localSn m"
  obtain st where st: "run_state (sn_Stat ?S c key) w = (st, w)"
    using snap_lawsD(1) [OF laws] by (metis surj_pair)
  show ?thesis
  proof (cases st)
    case (Inr i)
    then show ?thesis using run st snap_lawsD(1) [OF laws st] by (auto simp: materialiseLocked_def go_run)
  next
    case (Inl e)
    obtain pr w1 where pr: "run_state (resolveParentChainID m ns key) w = (pr, w1)"
      by (cases "run_state (resolveParentChainID m ns key) w")
    have k1: "keys w1 = keys w"
      using pr ovl by (auto simp: resolveParentChainID_def go_run ovl_frame_def Let_def keeps_def split: prod.splits) (metis snd_conv)+
    let ?parent = "case pr of Inl _ \<Rightarrow> [] | Inr x \<Rightarrow> x"
    obtain e2 w2 where mat: "run_state (materializeReference os m c key ?parent path) w1 = (e2, w2)"
      by (cases "run_state (materializeReference os m c key ?parent path) w1")
    have k2: "keys w2 = (case e2 of None \<Rightarrow> insert key (keys w) | Some err \<Rightarrow> keys w)"
      using materializeReference_keys [OF laws os rb mat] unfolding k1 .
    obtain st3 where st3: "run_state (sn_Stat ?S c key) w2 = (st3, w2)"
      using snap_lawsD(1) [OF laws] by (metis surj_pair)
    show ?thesis
      using run st Inl pr mat k2 st3 snap_lawsD(1) [OF laws st3]
      by (cases e2) (auto simp: materialiseLocked_def go_run Let_def)
  qed
qed

lemma statWithLazyMaterialise_effect:
  assumes laws: "snap_laws (dm_localSn m) keys" and os: "os_frame os keys" and ovl: "ovl_frame m keys"
    and rb: "rollback_ok (dm_localSn m) keys key" and chain: "isChainID key"
    and run: "run_state (statWithLazyMaterialise os m c key (dm_localSn m)) w = (Some r, w')"
  shows "case r of Inr i \<Rightarrow> keys w' = insert key (keys w) | Inl e \<Rightarrow> keys w' = keys w"
proof -
  let ?ns = "if Namespace c = [] then containerdNamespaceK8s else Namespace c"
  obtain p w1 where p: "run_state (overlayfsLayerPath m ?ns key) w = (p, w1)" by fastforce
  have k1: "keys w1 = keys w" using keepsD [OF overlayfsLayerPath_keeps [OF ovl] p] .
  show ?thesis
  proof (cases "\<exists>path. p = Some (Inr path) \<and> path \<noteq> []")
    case True
    then obtain path where "p = Some (Inr path)" "path \<noteq> []" by blast
    then have "run_state (materialiseLocked os m c ?ns key path (dm_localSn m)) w1 = (r, w')"
      using run p chain by (auto simp: statWithLazyMaterialise_def go_run Let_def split: prod.splits)
    from materialiseLocked_effect [OF laws os ovl rb this] show ?thesis unfolding k1 .
  next
    case False
    then show ?thesis using run p k1 chain
      by (cases p) (auto simp: statWithLazyMaterialise_def go_run Let_def split: sum.splits if_splits)
  qed
qed

text \<open>C26: what Stat does to the local snapshotter. It adds at most the key it was asked for: when it
  returns an Info the key is there afterwards, when it returns an error nothing has changed;
  and it adds the key only with dedup enabled and for a key that is a bare chain ID. (When the
  removal of the temporary snapshot succeeds and the native Stat answers for the keys that exist.)\<close>

theorem svc_Stat_effect:
  assumes laws: "snap_laws (ss_Snapshotter sn) keys" and os: "os_frame (pk_os P) keys"
    and ovl: "\<forall>m. ss_dedup sn = Some m \<longrightarrow> ovl_frame m keys \<and> dm_localSn m = ss_Snapshotter sn"
    and rb: "rollback_ok (ss_Snapshotter sn) keys key"
    and run: "run_state (svc_Stat P sn c key) s = (Returns r, s')"
  shows "keys (world s') = (case r of Inr i \<Rightarrow> insert key (keys (world s)) | Inl e \<Rightarrow> keys (world s)) \<and>
         (keys (world s') \<noteq> keys (world s) \<longrightarrow> ss_dedup sn \<noteq> None \<and> isChainID key)"
proof -
  let ?S = "ss_Snapshotter sn"
  obtain st where st: "run_state (sn_Stat ?S c key) (world s) = (st, world s)"
    using snap_lawsD(1) [OF laws] by (metis surj_pair)
  show ?thesis
  proof (cases "(\<exists>i. st = Inr i) \<or> ss_dedup sn = None")
    case True
    then show ?thesis using run st snap_lawsD(1) [OF laws st] by (auto simp: svc_Stat_def go_run split: sum.splits)
  next
    case False
    then obtain e m where e: "st = Inl e" and dedup: "ss_dedup sn = Some m" by (cases st) auto
    have m: "ovl_frame m keys" "dm_localSn m = ?S" using ovl dedup by auto
    have lazy: "run_state (statWithLazyMaterialise (pk_os P) m c key (dm_localSn m)) (world s) = (Some r, world s')"
      using run st e dedup m by (auto simp: svc_Stat_def go_run split: prod.splits option.splits)
    show ?thesis
    proof (cases "isChainID key")
      case False
      then show ?thesis using lazy by (auto simp: statWithLazyMaterialise_def go_run)
    next
      case True
      show ?thesis
        using statWithLazyMaterialise_effect [OF laws [folded m(2)] os m(1) rb [folded m(2)] True lazy] True dedup by (cases r) auto
    qed
  qed
qed

theorem svc_Stat_effect_witness:
  "\<exists>i s'. run_state (svc_Stat (hostPackages []) (hostService True) None layerID) (hostNode sharedHost) = (Returns (Inr i), s') \<and>
     hostKeys (world s') = insert layerID (hostKeys sharedHost)"
proof -
  let ?m = "svc_Stat (hostPackages []) (hostService True) None layerID"
  let ?i = "\<lparr>i_Kind = KindCommitted, i_Name = layerID, i_Parent = ''base'', i_Labels = []\<rparr>"
  have "fst (run_state ?m (hostNode sharedHost)) = Returns (Inr ?i)" by code_simp
  then have run: "run_state ?m (hostNode sharedHost) = (Returns (Inr ?i), snd (run_state ?m (hostNode sharedHost)))"
    by (metis prod.collapse)
  have S: "ss_Snapshotter (hostService True) = localSnapshotter" "ss_dedup (hostService True) = Some hostDedup"
    "pk_os (hostPackages []) = hostOS" by (simp_all add: hostService_def hostPackages_def)
  note eff = svc_Stat_effect [where sn = "hostService True" and P = "hostPackages []", unfolded S,
      OF host_snap_laws host_frames(1) _ host_frames(3) run]
  show ?thesis using eff host_frames(2) run by auto
qed

text \<open>C37: for a key in the form of the metadata layer, namespace/sequence/chainID, the form in which
  the service receives keys, Stat never consults overlayfs: when the local snapshotter has no
  such key it answers at once with an error that is no longer of the class not-found.\<close>

theorem svc_Stat_wrapped_key:
  assumes key: "parseSnapshotKey key = Some (ns, chainID)" and dedup: "ss_dedup sn = Some m"
    and local: "run_state (sn_Stat (ss_Snapshotter sn) c key) (world s) = (Inl err, w1)"
  shows "\<exists>e. run_state (svc_Stat P sn c key) s = (Returns (Inl e), s\<lparr>world := w1\<rparr>) \<and>
             \<not> errors_Is e ErrNotFound"
proof -
  have "CHR ''/'' \<in> set key" using key by (auto simp: parseSnapshotKey_Some)
  then have "\<not> isChainID key" using isChainID_no_slash by blast
  then show ?thesis using local dedup by (simp add: svc_Stat_def statWithLazyMaterialise_def go_run)
qed

theorem svc_Stat_wrapped_key_witness:
  "\<exists>e. fst (run_state (svc_Stat (hostPackages []) (hostService True) (Some ''k8s.io'') (''k8s.io/7/'' @ layerID))
      (hostNode sharedHost)) = Returns (Inl e) \<and> \<not> errors_Is e ErrNotFound"
proof -
  have key: "parseSnapshotKey (''k8s.io/7/'' @ layerID) = Some (''k8s.io'', layerID)" by code_simp
  have dedup: "ss_dedup (hostService True) = Some hostDedup" by (simp add: hostService_def)
  have local: "run_state (sn_Stat (ss_Snapshotter (hostService True)) (Some ''k8s.io'') (''k8s.io/7/'' @ layerID))
      (world (hostNode sharedHost)) = (Inl (Sentinel ErrNotFound), sharedHost)"
    by (simp add: hostService_def localSnapshotter_def snapStore_def go_run sharedHost_def)
  from svc_Stat_wrapped_key [OF key dedup local, of "hostPackages []"] show ?thesis by (metis fst_conv)
qed

text \<open>C36: with dedup enabled a miss is no longer reported as not-found: when the key is no chain ID or
  the layer is not in overlayfs, Stat replaces the error of the local snapshotter, whatever its
  class, by a fresh error that errors.Is does not match with not-found.\<close>

theorem svc_Stat_miss_class:
  assumes dedup: "ss_dedup sn = Some m"
    and local: "run_state (sn_Stat (ss_Snapshotter sn) c key) (world s) = (Inl err, w1)"
    and miss: "isChainID key \<Longrightarrow>
      \<exists>e w2. run_state (sn_Stat (cl_SnapshotService (dm_client m) ''overlayfs'')
                (Some (if Namespace c = [] then ''k8s.io'' else Namespace c)) key) w1 = (Inl e, w2)"
  shows "\<exists>e s'. run_state (svc_Stat P sn c key) s = (Returns (Inl e), s') \<and> \<not> errors_Is e ErrNotFound"
proof (cases "isChainID key")
  case False
  then show ?thesis using local dedup by (simp add: svc_Stat_def statWithLazyMaterialise_def go_run)
next
  case True
  then show ?thesis using local dedup miss [OF True]
    by (auto simp: svc_Stat_def statWithLazyMaterialise_def overlayfsLayerPath_def go_run Let_def
        overlayfsSnapshotterName_def containerdNamespaceK8s_def WithNamespace_def)
qed

theorem svc_Stat_miss_class_witness:
  "\<exists>e s'. run_state (svc_Stat (hostPackages []) (hostService True) None layerID) (hostNode podHost) = (Returns (Inl e), s') \<and>
     \<not> errors_Is e ErrNotFound"
proof -
  have dedup: "ss_dedup (hostService True) = Some hostDedup" by (simp add: hostService_def)
  have local: "run_state (sn_Stat (ss_Snapshotter (hostService True)) None layerID) (world (hostNode podHost)) =
      (Inl (Sentinel ErrNotFound), podHost)"
    by (simp add: hostService_def localSnapshotter_def snapStore_def go_run podHost_def layerID_def)
  have miss: "run_state (sn_Stat (cl_SnapshotService (dm_client hostDedup) ''overlayfs'')
      (Some (if Namespace None = [] then ''k8s.io'' else Namespace None)) layerID) podHost =
      (Inl (Sentinel ErrNotFound), podHost)"
    by (simp add: overlayfsSnapshotter_def snapStore_def go_run podHost_def emptyHost_def)
  show ?thesis by (rule svc_Stat_miss_class [OF dedup local]) (use miss in blast)
qed

text \<open>
  The overlay snapshotter of containerd mounts an active snapshot that has no parent as a bind
  mount of its directory.
\<close>

definition bind_root :: "'w snapshotter_api \<Rightarrow> bool" where
  "bind_root S \<longleftrightarrow>
     (\<forall>c k opts w ms w1 mnt rest w2.
        run_state (sn_Prepare S c k [] opts) w = (Inr ms, w1) \<longrightarrow>
        run_state (sn_Mounts S c k) w1 = (Inr (mnt # rest), w2) \<longrightarrow>
        m_Type mnt = ''bind'' \<and> (\<exists>flag. m_Options mnt = [flag, ''rbind''] \<and> flag \<in> {''rw'', ''ro''}))"

text \<open>C40: a layer without parent cannot be shared: its temporary snapshot is a bind mount, whose
  options carry no upperdir, so materialising a reference for a root layer always ends in an
  error.\<close>

theorem materializeReference_root_fails:
  assumes root: "bind_root (dm_localSn m)"
  shows "\<exists>err. fst (run_state (materializeReference os m c chainID [] path) w) = Some err"
proof (rule ccontr)
  assume "\<nexists>err. fst (run_state (materializeReference os m c chainID [] path) w) = Some err"
  then have run: "run_state (materializeReference os m c chainID [] path) w =
      (None, snd (run_state (materializeReference os m c chainID [] path) w))" by (metis not_None_eq prod.collapse)
  from run show False
  proof (rule materializeReference_success)
    fix ms w1 lms w2 fs w3
    assume prep: "run_state (sn_Prepare (dm_localSn m) c (refTmpKey chainID) [] []) w = (Inr ms, w1)"
      and mounts: "run_state (sn_Mounts (dm_localSn m) c (refTmpKey chainID)) w1 = (Inr lms, w2)"
      and fs: "upperdirFromMounts lms = Inr fs"
    show False
    proof (cases lms)
      case (Cons m0 rest)
      then have "\<exists>flag. m_Options m0 = [flag, ''rbind''] \<and> flag \<in> {''rw'', ''ro''}"
        using root prep mounts unfolding bind_root_def by blast
      then have "firstUpperdir (m_Options m0) = None" by (auto simp: cut_prefix_def)
      then show False using fs Cons by (simp add: upperdirFromMounts_def)
    qed (use fs in \<open>simp add: upperdirFromMounts_def\<close>)
  qed
qed

theorem materializeReference_root_fails_witness:
  "\<exists>err. fst (run_state (materializeReference hostOS hostDedup None layerID [] ''/ovl/fs'') podHost) = Some err"
proof (rule materializeReference_root_fails)
  show "bind_root (dm_localSn hostDedup)"
    by (auto simp: bind_root_def localSnapshotter_def snapStore_def snapCreate_def snapMounts_def go_run Let_def
        split: if_splits)
qed

end
