(* ===== verification/Concurrency.thy ===== *)
theory Concurrency
  imports Materialise_Props
begin

text \<open>
  Concurrent calls of statWithLazyMaterialise (dedup.go). The body is cut into its external calls;
  between two calls of one goroutine, calls of others may run. The mutex of the manager is taken
  after the probe of the overlayfs layer and released on return. A refinement theorem ties the
  small steps to the definition of the whole body in theory Dedup.
\<close>


section \<open>The body in small steps\<close>

text \<open>Where a goroutine is: the next external call, the mutex operations, and the end.\<close>

datatype stat_pc =
    PStart
  | PView
  | PRemoveView "(gerr + string) option"
  | PLock string
  | PRecheck string
  | PParent string
  | PPrepare string string
  | PMounts string
  | PRemoveAll string string
  | PSymlink string string
  | PCommit
  | PAbandon gerr
  | PRestat
  | PUnlock "gerr + info"
  | PDone "(gerr + info) option"

definition jobNamespace :: "ctx \<Rightarrow> string" where
  "jobNamespace c = (let ns = Namespace c in if ns = [] then containerdNamespaceK8s else ns)"

definition probeKey :: "string \<Rightarrow> string" where
  "probeKey key = ''pv-snapshotter-probe-'' @ key"

definition missErr :: "string \<Rightarrow> gerr" where
  "missErr key = Errorf ''chainID %s not found in overlayfs (dedup miss)'' [key]"

definition resolvingErr :: "string \<Rightarrow> gerr \<Rightarrow> gerr" where
  "resolvingErr key err = Wrapf ''resolving overlayfs layer path for %s: %w'' [key] err"

definition materialisingErr :: "string \<Rightarrow> gerr \<Rightarrow> gerr" where
  "materialisingErr key err = Wrapf ''materialising reference for %s: %w'' [key] err"

fun tstep :: "'w os_api \<Rightarrow> 'w dedupManager \<Rightarrow> ctx \<Rightarrow> string \<Rightarrow> stat_pc \<Rightarrow> ('w, stat_pc) state" where
  "tstep os m c key PStart =
     (if \<not> isChainID key then State_Monad.return (PDone (Some (Inl (Errorf ''not a chainID: %s'' [key]))))
      else do {
        st \<leftarrow> sn_Stat (cl_SnapshotService (dm_client m) overlayfsSnapshotterName) (WithNamespace (jobNamespace c)) key;
        State_Monad.return (case st of Inl _ \<Rightarrow> PDone (Some (Inl (missErr key))) | Inr _ \<Rightarrow> PView)
      })"
| "tstep os m c key PView =
     do {
       v \<leftarrow> sn_View (cl_SnapshotService (dm_client m) overlayfsSnapshotterName) (WithNamespace (jobNamespace c))
              (probeKey key) key [];
       State_Monad.return
         (case v of
            Inl err \<Rightarrow>
              PDone (Some (Inl (resolvingErr key (Wrapf ''creating probe view for chainID %s: %w'' [key] err))))
          | Inr mounts \<Rightarrow>
              PRemoveView (if length mounts = 0
                           then Some (Inl (Errorf ''no mounts returned for probe view of chainID %s'' [key]))
                           else layerPathFromMounts mounts))
     }"
| "tstep os m c key (PRemoveView res) =
     do {
       _ \<leftarrow> sn_Remove (cl_SnapshotService (dm_client m) overlayfsSnapshotterName) (WithNamespace (jobNamespace c))
              (probeKey key);
       State_Monad.return
         (case res of
            None \<Rightarrow> PDone None
          | Some (Inl err) \<Rightarrow> PDone (Some (Inl (resolvingErr key err)))
          | Some (Inr path) \<Rightarrow> if path = [] then PDone (Some (Inl (missErr key))) else PLock path)
     }"
| "tstep os m c key (PLock path) = State_Monad.return (PRecheck path)"
| "tstep os m c key (PRecheck path) =
     do {
       st \<leftarrow> sn_Stat (dm_localSn m) c key;
       State_Monad.return (case st of Inr info \<Rightarrow> PUnlock (Inr info) | Inl _ \<Rightarrow> PParent path)
     }"
| "tstep os m c key (PParent path) =
     do {
       st \<leftarrow> sn_Stat (cl_SnapshotService (dm_client m) overlayfsSnapshotterName) (WithNamespace (jobNamespace c)) key;
       State_Monad.return (PPrepare path (case st of Inl _ \<Rightarrow> [] | Inr info \<Rightarrow> i_Parent info))
     }"
| "tstep os m c key (PPrepare path parent) =
     do {
       p \<leftarrow> sn_Prepare (dm_localSn m) c (refTmpKey key) parent [];
       State_Monad.return
         (case p of
            Inl err \<Rightarrow>
              PUnlock (Inl (materialisingErr key (Wrapf ''preparing reference snapshot for chainID %s: %w'' [key] err)))
          | Inr _ \<Rightarrow> PMounts path)
     }"
| "tstep os m c key (PMounts path) =
     do {
       lm \<leftarrow> sn_Mounts (dm_localSn m) c (refTmpKey key);
       State_Monad.return
         (case lm of
            Inl err \<Rightarrow> PAbandon (Wrapf ''getting local mounts for tmp reference %s: %w'' [refTmpKey key] err)
          | Inr mounts \<Rightarrow>
              (case upperdirFromMounts mounts of
                 Inl err \<Rightarrow> PAbandon (Wrapf ''extracting upperdir from local mounts for %s: %w'' [refTmpKey key] err)
               | Inr fs \<Rightarrow> PRemoveAll path fs))
     }"
| "tstep os m c key (PRemoveAll path fs) =
     do {
       e \<leftarrow> os_RemoveAll os fs;
       State_Monad.return
         (case e of
            Some err \<Rightarrow>
              PAbandon (Wrapf ''creating symlink %s to %s: %w'' [fs, path] (Wrapf ''removing %s: %w'' [fs] err))
          | None \<Rightarrow> PSymlink path fs)
     }"
| "tstep os m c key (PSymlink path fs) =
     do {
       e \<leftarrow> os_Symlink os path fs;
       State_Monad.return
         (case e of
            Some err \<Rightarrow>
              PAbandon (Wrapf ''creating symlink %s to %s: %w'' [fs, path]
                          (Wrapf ''symlinking %s to %s: %w'' [fs, path] err))
          | None \<Rightarrow> PCommit)
     }"
| "tstep os m c key PCommit =
     do {
       e \<leftarrow> sn_Commit (dm_localSn m) c key (refTmpKey key) [];
       State_Monad.return
         (case e of
            Some err \<Rightarrow> PAbandon (Wrapf ''committing reference snapshot for chainID %s: %w'' [key] err)
          | None \<Rightarrow> PRestat)
     }"
| "tstep os m c key (PAbandon err) =
     do {
       _ \<leftarrow> sn_Remove (dm_localSn m) c (refTmpKey key);
       State_Monad.return (PUnlock (Inl (materialisingErr key err)))
     }"
| "tstep os m c key PRestat =
     do {
       st \<leftarrow> sn_Stat (dm_localSn m) c key;
       State_Monad.return (PUnlock st)
     }"
| "tstep os m c key (PUnlock r) = State_Monad.return (PDone (Some r))"
| "tstep os m c key (PDone r) = State_Monad.return (PDone r)"

text \<open>A goroutine that runs alone.\<close>

fun runAlone :: "nat \<Rightarrow> 'w os_api \<Rightarrow> 'w dedupManager \<Rightarrow> ctx \<Rightarrow> string \<Rightarrow> stat_pc \<Rightarrow> ('w, stat_pc) state" where
  "runAlone 0 os m c key pc = State_Monad.return pc"
| "runAlone (Suc n) os m c key pc = do { pc' \<leftarrow> tstep os m c key pc; runAlone n os m c key pc' }"

lemma runAlone_done: "run_state (runAlone n os m c key (PDone r)) w = (PDone r, w)"
  by (induction n) (simp_all add: go_run)

lemma runAlone_unlock: "run_state (runAlone (Suc n) os m c key (PUnlock r)) w = (PDone (Some r), w)"
  by (simp add: go_run runAlone_done)

lemma runAlone_abandon:
  "run_state (runAlone (Suc (Suc n)) os m c key (PAbandon err)) w =
     (case run_state (abandonReference m c (refTmpKey key) err) w of
        (_, w') \<Rightarrow> (PDone (Some (Inl (materialisingErr key err))), w'))"
  by (simp add: go_run runAlone_done abandonReference_def split: prod.splits)

lemmas runAlone_ends = runAlone_done runAlone_unlock runAlone_abandon

lemma runAlone_prepare:
  "run_state (runAlone (9 + n) os m c key (PPrepare path parent)) w =
     (case run_state (materializeReference os m c key parent path) w of
        (Some err, w') \<Rightarrow> (PDone (Some (Inl (materialisingErr key err))), w')
      | (None, w') \<Rightarrow>
          (case run_state (sn_Stat (dm_localSn m) c key) w' of (st, w'') \<Rightarrow> (PDone (Some st), w'')))"
proof -
  have nine: "9 + n = Suc (Suc (Suc (Suc (Suc (Suc (Suc (Suc (Suc n))))))))" by simp
  show ?thesis
    unfolding nine runAlone.simps(2) [of "Suc (Suc (Suc (Suc (Suc (Suc (Suc (Suc n)))))))"]
    by (simp add: go_run materializeReference_def replaceWithSymlink_def abandonReference_def Let_def
        runAlone_done split: prod.splits sum.splits option.splits)
qed

lemma runAlone_recheck:
  "run_state (runAlone (11 + n) os m c key (PRecheck path)) w =
     (case run_state (materialiseLocked os m c (jobNamespace c) key path (dm_localSn m)) w of
        (r, w') \<Rightarrow> (PDone (Some r), w'))"
proof -
  obtain k where k: "k = 9 + n" by blast
  have eleven: "11 + n = Suc (Suc k)" by (simp add: k)
  note prepare = runAlone_prepare [of n, folded k]
  show ?thesis unfolding eleven
    by (auto simp: go_run runAlone_done prepare materialiseLocked_def resolveParentChainID_def
        materialisingErr_def Let_def split: prod.splits sum.splits option.splits)
qed

text \<open>C15: the small steps refine the whole body: a goroutine that runs alone for sixteen steps from the
  start has returned, with the result and in the world of statWithLazyMaterialise.\<close>

theorem small_steps_refine:
  "run_state (runAlone 16 os m c key PStart) w =
     (case run_state (statWithLazyMaterialise os m c key (dm_localSn m)) w of (r, w') \<Rightarrow> (PDone r, w'))"
proof -
  obtain k :: nat where k: "k = 11 + 1" by blast
  have sixteen: "16 = Suc (Suc (Suc (Suc k)))" by (simp add: k)
  note recheck = runAlone_recheck [of 1, folded k]
  show ?thesis unfolding sixteen
    by (auto simp: go_run runAlone_done recheck statWithLazyMaterialise_def overlayfsLayerPath_def
        jobNamespace_def probeKey_def missErr_def resolvingErr_def Let_def
        split: prod.splits sum.splits option.splits)
qed


section \<open>Interleaving\<close>

text \<open>Goroutine \<open>i\<close> serves the call with context and key \<open>job i\<close>.\<close>

record 'w system =
  sy_world :: 'w
  sy_mu :: "nat option"
  sy_pc :: "nat \<Rightarrow> stat_pc"

type_synonym jobs = "nat \<Rightarrow> ctx \<times> string"

fun mutexOp :: "stat_pc \<Rightarrow> bool" where
  "mutexOp (PLock path) = True"
| "mutexOp (PUnlock r) = True"
| "mutexOp _ = False"

inductive sys_step :: "'w os_api \<Rightarrow> 'w dedupManager \<Rightarrow> jobs \<Rightarrow> 'w system \<Rightarrow> 'w system \<Rightarrow> bool"
  for os m job where
  call: "\<not> mutexOp (sy_pc s i) \<Longrightarrow>
    run_state (tstep os m (fst (job i)) (snd (job i)) (sy_pc s i)) (sy_world s) = (pc', w') \<Longrightarrow>
    sys_step os m job s (s\<lparr>sy_world := w', sy_pc := (sy_pc s)(i := pc')\<rparr>)"
| lock: "sy_pc s i = PLock path \<Longrightarrow> sy_mu s = None \<Longrightarrow>
    sys_step os m job s (s\<lparr>sy_mu := Some i, sy_pc := (sy_pc s)(i := PRecheck path)\<rparr>)"
| unlock: "sy_pc s i = PUnlock r \<Longrightarrow> sy_mu s = Some i \<Longrightarrow>
    sys_step os m job s (s\<lparr>sy_mu := None, sy_pc := (sy_pc s)(i := PDone (Some r))\<rparr>)"

inductive_cases sys_stepE: "sys_step os m job s s'"

definition sys_init :: "'w \<Rightarrow> 'w system" where
  "sys_init w = \<lparr>sy_world = w, sy_mu = None, sy_pc = (\<lambda>i. PStart)\<rparr>"

fun critical :: "stat_pc \<Rightarrow> bool" where
  "critical PStart = False"
| "critical PView = False"
| "critical (PRemoveView res) = False"
| "critical (PLock path) = False"
| "critical (PDone r) = False"
| "critical _ = True"

text \<open>The temporary snapshot of the reference exists.\<close>

fun holdsTmp :: "stat_pc \<Rightarrow> bool" where
  "holdsTmp (PMounts path) = True"
| "holdsTmp (PRemoveAll path fs) = True"
| "holdsTmp (PSymlink path fs) = True"
| "holdsTmp PCommit = True"
| "holdsTmp (PAbandon err) = True"
| "holdsTmp _ = False"

text \<open>The re-check has found the chain ID absent.\<close>

fun rechecked :: "stat_pc \<Rightarrow> bool" where
  "rechecked (PParent path) = True"
| "rechecked (PPrepare path parent) = True"
| "rechecked pc = holdsTmp pc"

lemma rechecked_cases: "rechecked pc \<longleftrightarrow> (\<exists>p. pc = PParent p) \<or> (\<exists>p q. pc = PPrepare p q) \<or> holdsTmp pc"
  by (cases pc) auto

lemma holdsTmp_critical: "holdsTmp pc \<Longrightarrow> critical pc" and rechecked_critical: "rechecked pc \<Longrightarrow> critical pc"
  by (cases pc; simp)+

definition sys_inv :: "('w \<Rightarrow> string set) \<Rightarrow> jobs \<Rightarrow> 'w system \<Rightarrow> bool" where
  "sys_inv keys job s \<longleftrightarrow>
     (\<forall>i. critical (sy_pc s i) \<longleftrightarrow> sy_mu s = Some i) \<and>
     (\<forall>i. sy_pc s i \<noteq> PStart \<longrightarrow> (\<exists>r. sy_pc s i = PDone r) \<or> isChainID (snd (job i))) \<and>
     (\<forall>i. rechecked (sy_pc s i) \<longrightarrow> snd (job i) \<notin> keys (sy_world s)) \<and>
     (\<forall>i. holdsTmp (sy_pc s i) \<longrightarrow> refTmpKey (snd (job i)) \<in> keys (sy_world s)) \<and>
     (\<forall>k. refTmpKey k \<in> keys (sy_world s) \<longrightarrow> (\<exists>i. holdsTmp (sy_pc s i) \<and> snd (job i) = k))"

lemma refTmpKey_inject: "refTmpKey a = refTmpKey b \<longleftrightarrow> a = b"
  by (simp add: refTmpKey_def)

lemma refTmpKey_not_chainID: "\<not> isChainID (refTmpKey k)"
  by (simp add: refTmpKey_def isChainID_def cut_prefix_def)

lemma refTmpKey_other: "isChainID key \<Longrightarrow> refTmpKey k \<noteq> key"
  using refTmpKey_not_chainID by metis

text \<open>The steps that change the keys of the local snapshotter.\<close>

fun changesKeys :: "stat_pc \<Rightarrow> bool" where
  "changesKeys (PPrepare path parent) = True"
| "changesKeys PCommit = True"
| "changesKeys (PAbandon err) = True"
| "changesKeys _ = False"

text \<open>What a step within the critical section makes of the keys, for the call with chain ID \<open>key\<close>.\<close>

definition criticalEffect :: "('w \<Rightarrow> string set) \<Rightarrow> string \<Rightarrow> 'w \<Rightarrow> stat_pc \<Rightarrow> 'w \<Rightarrow> bool" where
  "criticalEffect keys key w pc' w' \<longleftrightarrow>
     critical pc' \<and> (rechecked pc' \<longrightarrow> key \<notin> keys w') \<and> (holdsTmp pc' \<longleftrightarrow> refTmpKey key \<in> keys w') \<and>
     (\<forall>k. k \<noteq> key \<longrightarrow> (refTmpKey k \<in> keys w' \<longleftrightarrow> refTmpKey k \<in> keys w))"

text \<open>
  What the interleaved calls rely on: the contract of the local snapshotter, and that neither the
  directory operations nor the probes of overlayfs touch its keys.
\<close>

locale materialisation =
  fixes os :: "'w os_api" and m :: "'w dedupManager" and keys :: "'w \<Rightarrow> string set" and job :: jobs
  assumes local_laws: "snap_laws (dm_localSn m) keys" and files: "os_frame os keys" and overlayfs: "ovl_frame m keys"
    and rollback: "rollback_ok (dm_localSn m) keys k"
begin

lemma ovl_calls:
  "run_state (sn_Stat (cl_SnapshotService (dm_client m) overlayfsSnapshotterName) c k) w = (st, w') \<Longrightarrow> keys w' = keys w"
  "run_state (sn_View (cl_SnapshotService (dm_client m) overlayfsSnapshotterName) c k p opts) w = (v, w') \<Longrightarrow> keys w' = keys w"
  "run_state (sn_Remove (cl_SnapshotService (dm_client m) overlayfsSnapshotterName) c k) w = (e, w') \<Longrightarrow> keys w' = keys w"
proof -
  let ?O = "cl_SnapshotService (dm_client m) overlayfsSnapshotterName"
  have "keeps keys (sn_Stat ?O c k)" "keeps keys (sn_View ?O c k p opts)" "keeps keys (sn_Remove ?O c k)"
    using overlayfs by (simp_all add: ovl_frame_def Let_def)
  note frame = this
  show "run_state (sn_Stat ?O c k) w = (st, w') \<Longrightarrow> keys w' = keys w" by (rule keepsD [OF frame(1)])
  show "run_state (sn_View ?O c k p opts) w = (v, w') \<Longrightarrow> keys w' = keys w" by (rule keepsD [OF frame(2)])
  show "run_state (sn_Remove ?O c k) w = (e, w') \<Longrightarrow> keys w' = keys w" by (rule keepsD [OF frame(3)])
qed

lemma os_calls:
  "run_state (os_RemoveAll os p) w = (e, w') \<Longrightarrow> keys w' = keys w"
  "run_state (os_Symlink os t p) w = (e, w') \<Longrightarrow> keys w' = keys w"
proof -
  have frame: "keeps keys (os_RemoveAll os p)" "keeps keys (os_Symlink os t p)" using files by (simp_all add: os_frame_def)
  show "run_state (os_RemoveAll os p) w = (e, w') \<Longrightarrow> keys w' = keys w" by (rule keepsD [OF frame(1)])
  show "run_state (os_Symlink os t p) w = (e, w') \<Longrightarrow> keys w' = keys w" by (rule keepsD [OF frame(2)])
qed

lemma tstep_noncritical:
  assumes "\<not> critical pc" "\<not> mutexOp pc" and "run_state (tstep os m c key pc) w = (pc', w')"
  shows "keys w' = keys w \<and> \<not> critical pc' \<and>
    (pc' \<noteq> PStart \<longrightarrow> (\<exists>r. pc' = PDone r) \<or> isChainID key \<or> (pc \<noteq> PStart \<and> (\<forall>r. pc \<noteq> PDone r)))"
  using assms by (cases pc)
    (auto simp: go_run dest: ovl_calls split: prod.splits sum.splits option.splits if_splits)

text \<open>Within the critical section all steps but three leave the keys alone.\<close>

lemma tstep_quiet:
  assumes "critical pc" "\<not> mutexOp pc" "\<not> changesKeys pc" and "run_state (tstep os m c key pc) w = (pc', w')"
  shows "keys w' = keys w \<and> critical pc' \<and> (holdsTmp pc' \<longleftrightarrow> holdsTmp pc) \<and> (rechecked pc' \<longrightarrow> rechecked pc \<or> key \<notin> keys w)"
  using assms by (cases pc)
    (auto simp: go_run dest: ovl_calls os_calls snap_lawsD(1,4) [OF local_laws] split: prod.splits sum.splits option.splits)

lemma tstep_prepare:
  assumes pre: "key \<notin> keys w" "refTmpKey key \<notin> keys w" and chain: "isChainID key"
    and run: "run_state (tstep os m c key (PPrepare path parent)) w = (pc', w')"
  shows "criticalEffect keys key w pc' w'"
proof -
  obtain p w1 where p: "run_state (sn_Prepare (dm_localSn m) c (refTmpKey key) parent []) w = (p, w1)" by fastforce
  show ?thesis
  proof (cases p)
    case (Inl e)
    then obtain r where "pc' = PUnlock r" "w' = w1" using run p by (auto simp: go_run)
    then show ?thesis using pre snap_lawsD(2) [OF local_laws p [unfolded Inl]] by (simp add: criticalEffect_def)
  next
    case (Inr ms)
    then show ?thesis using run pre p snap_lawsD(3) [OF local_laws p [unfolded Inr]] refTmpKey_other [OF chain, of key]
      by (auto simp: criticalEffect_def go_run refTmpKey_inject)
  qed
qed

lemma tstep_commit:
  assumes pre: "key \<notin> keys w" "refTmpKey key \<in> keys w" and chain: "isChainID key"
    and run: "run_state (tstep os m c key PCommit) w = (pc', w')"
  shows "criticalEffect keys key w pc' w'"
proof -
  obtain e w1 where e: "run_state (sn_Commit (dm_localSn m) c key (refTmpKey key) []) w = (e, w1)" by fastforce
  show ?thesis
  proof (cases e)
    case None
    then show ?thesis using run e snap_lawsD(6) [OF local_laws e [unfolded None]] refTmpKey_other [OF chain]
      by (auto simp: criticalEffect_def go_run refTmpKey_inject)
  next
    case (Some err)
    then show ?thesis using run pre e snap_lawsD(5) [OF local_laws e [unfolded Some]] by (auto simp: criticalEffect_def go_run)
  qed
qed

lemma tstep_abandon:
  assumes pre: "refTmpKey key \<in> keys w" and run: "run_state (tstep os m c key (PAbandon err)) w = (pc', w')"
  shows "criticalEffect keys key w pc' w'"
proof -
  have "fst (run_state (sn_Remove (dm_localSn m) c (refTmpKey key)) w) = None"
    using rollback [of key] pre by (simp add: rollback_ok_def)
  note e = fst_run [OF this]
  have "pc' = PUnlock (Inl (materialisingErr key err))" "w' = snd (run_state (sn_Remove (dm_localSn m) c (refTmpKey key)) w)"
    using run by (simp_all add: go_run split_beta)
  then show ?thesis using snap_lawsD(8) [OF local_laws e] by (simp add: criticalEffect_def refTmpKey_inject)
qed

lemma tstep_critical:
  assumes chain: "isChainID key" and pc: "critical pc" "\<not> mutexOp pc"
    and pre: "rechecked pc \<Longrightarrow> key \<notin> keys w" "holdsTmp pc \<longleftrightarrow> refTmpKey key \<in> keys w"
    and run: "run_state (tstep os m c key pc) w = (pc', w')"
  shows "criticalEffect keys key w pc' w'"
proof (cases "changesKeys pc")
  case True
  then show ?thesis using tstep_prepare tstep_commit tstep_abandon pre chain run by (cases pc) auto
next
  case False
  show ?thesis using tstep_quiet [OF pc False run] pre by (auto simp: criticalEffect_def)
qed

end

lemma sys_inv_holder:
  assumes "sys_inv keys job s" and "critical (sy_pc s i)" and "j \<noteq> i"
  shows "\<not> critical (sy_pc s j) \<and> \<not> rechecked (sy_pc s j) \<and> \<not> holdsTmp (sy_pc s j)"
  using assms rechecked_critical holdsTmp_critical unfolding sys_inv_def by (metis option.inject)

lemma sys_inv_tmp:
  assumes "sys_inv keys job s" and "critical (sy_pc s i)"
  shows "holdsTmp (sy_pc s i) \<longleftrightarrow> refTmpKey (snd (job i)) \<in> keys (sy_world s)"
proof
  assume "refTmpKey (snd (job i)) \<in> keys (sy_world s)"
  then obtain j where "holdsTmp (sy_pc s j)" using assms(1) unfolding sys_inv_def by blast
  then show "holdsTmp (sy_pc s i)" using sys_inv_holder [OF assms, of j] by (cases "j = i") auto
qed (use assms(1) in \<open>auto simp: sys_inv_def\<close>)

text \<open>A step of goroutine \<open>i\<close> that leaves the keys alone and has no temporary snapshot before or after.\<close>

lemma sys_inv_update:
  assumes inv: "sys_inv keys job s" and pc: "\<not> holdsTmp (sy_pc s i)" "\<not> holdsTmp pc'" "\<not> rechecked pc'"
    and w: "keys w = keys (sy_world s)" and mu: "\<forall>j. critical (((sy_pc s)(i := pc')) j) \<longleftrightarrow> mu = Some j"
    and chain: "pc' \<noteq> PStart \<Longrightarrow> (\<exists>r. pc' = PDone r) \<or> isChainID (snd (job i))"
  shows "sys_inv keys job (s\<lparr>sy_world := w, sy_mu := mu, sy_pc := (sy_pc s)(i := pc')\<rparr>)"
  unfolding sys_inv_def
proof (intro conjI allI)
  fix k
  show "refTmpKey k \<in> keys (sy_world (s\<lparr>sy_world := w, sy_mu := mu, sy_pc := (sy_pc s)(i := pc')\<rparr>)) \<longrightarrow>
      (\<exists>j. holdsTmp (sy_pc (s\<lparr>sy_world := w, sy_mu := mu, sy_pc := (sy_pc s)(i := pc')\<rparr>) j) \<and> snd (job j) = k)"
  proof
    assume "refTmpKey k \<in> keys (sy_world (s\<lparr>sy_world := w, sy_mu := mu, sy_pc := (sy_pc s)(i := pc')\<rparr>))"
    then obtain j where j: "holdsTmp (sy_pc s j)" "snd (job j) = k" using inv w unfolding sys_inv_def by auto
    then have "j \<noteq> i" using pc(1) by blast
    then show "\<exists>j. holdsTmp (sy_pc (s\<lparr>sy_world := w, sy_mu := mu, sy_pc := (sy_pc s)(i := pc')\<rparr>) j) \<and> snd (job j) = k"
      using j by (intro exI [of _ j]) simp
  qed
qed (use inv pc w mu chain in \<open>auto simp: sys_inv_def\<close>)

context materialisation
begin

lemma sys_inv_call_outside:
  assumes inv: "sys_inv keys job s" and pc: "\<not> critical (sy_pc s i)" "\<not> mutexOp (sy_pc s i)"
    and run: "run_state (tstep os m (fst (job i)) (snd (job i)) (sy_pc s i)) (sy_world s) = (pc', w')"
  shows "sys_inv keys job (s\<lparr>sy_world := w', sy_mu := sy_mu s, sy_pc := (sy_pc s)(i := pc')\<rparr>)"
proof (rule sys_inv_update [OF inv])
  note eff = tstep_noncritical [OF pc run]
  show "\<not> holdsTmp (sy_pc s i)" "\<not> holdsTmp pc'" "\<not> rechecked pc'"
    using pc(1) eff holdsTmp_critical rechecked_critical by blast+
  show "keys w' = keys (sy_world s)" using eff by blast
  show "\<forall>j. critical (((sy_pc s)(i := pc')) j) \<longleftrightarrow> sy_mu s = Some j" using inv eff pc(1) by (auto simp: sys_inv_def)
  show "pc' \<noteq> PStart \<Longrightarrow> (\<exists>r. pc' = PDone r) \<or> isChainID (snd (job i))" using inv eff unfolding sys_inv_def by blast
qed

lemma sys_inv_call_inside:
  assumes inv: "sys_inv keys job s" and pc: "critical (sy_pc s i)" "\<not> mutexOp (sy_pc s i)"
    and run: "run_state (tstep os m (fst (job i)) (snd (job i)) (sy_pc s i)) (sy_world s) = (pc', w')"
  shows "sys_inv keys job (s\<lparr>sy_world := w', sy_pc := (sy_pc s)(i := pc')\<rparr>)" (is "sys_inv keys job ?s")
proof -
  have chain: "isChainID (snd (job i))" using inv pc(1) unfolding sys_inv_def by (metis critical.simps(1,5))
  have "rechecked (sy_pc s i) \<Longrightarrow> snd (job i) \<notin> keys (sy_world s)" using inv by (simp add: sys_inv_def)
  note eff = tstep_critical [OF chain pc this sys_inv_tmp [OF inv pc(1)] run, unfolded criticalEffect_def]
    and others = sys_inv_holder [OF inv pc(1)]
  have tmp: "k = snd (job i)" if k: "refTmpKey k \<in> keys w'" for k
  proof (rule ccontr)
    assume ne: "k \<noteq> snd (job i)"
    then have "refTmpKey k \<in> keys (sy_world s)" using k eff by simp
    then obtain j where "holdsTmp (sy_pc s j)" "snd (job j) = k" using inv unfolding sys_inv_def by blast
    then show False using others [of j] ne by (cases "j = i") auto
  qed
  show ?thesis unfolding sys_inv_def
  proof (intro conjI allI)
    fix j
    show "critical (sy_pc ?s j) \<longleftrightarrow> sy_mu ?s = Some j" using inv eff pc(1) by (auto simp: sys_inv_def)
    show "sy_pc ?s j \<noteq> PStart \<longrightarrow> (\<exists>r. sy_pc ?s j = PDone r) \<or> isChainID (snd (job j))"
      using inv chain by (auto simp: sys_inv_def)
    show "rechecked (sy_pc ?s j) \<longrightarrow> snd (job j) \<notin> keys (sy_world ?s)" using eff others by auto
    show "holdsTmp (sy_pc ?s j) \<longrightarrow> refTmpKey (snd (job j)) \<in> keys (sy_world ?s)" using eff others by auto
  next
    fix k
    show "refTmpKey k \<in> keys (sy_world ?s) \<longrightarrow> (\<exists>j. holdsTmp (sy_pc ?s j) \<and> snd (job j) = k)"
      using tmp [of k] eff by (intro impI exI [of _ i]) simp
  qed
qed

lemma sys_inv_mutex:
  assumes inv: "sys_inv keys job s"
  shows "sy_pc s i = PLock path \<Longrightarrow> sy_mu s = None \<Longrightarrow>
      sys_inv keys job (s\<lparr>sy_world := sy_world s, sy_mu := Some i, sy_pc := (sy_pc s)(i := PRecheck path)\<rparr>)"
    and "sy_pc s i = PUnlock r \<Longrightarrow> sy_mu s = Some i \<Longrightarrow>
      sys_inv keys job (s\<lparr>sy_world := sy_world s, sy_mu := None, sy_pc := (sy_pc s)(i := PDone (Some r))\<rparr>)"
proof -
  assume pc: "sy_pc s i = PLock path" "sy_mu s = None"
  then have "isChainID (snd (job i))" using inv unfolding sys_inv_def by (metis stat_pc.distinct(5) stat_pc.simps)
  then show "sys_inv keys job (s\<lparr>sy_world := sy_world s, sy_mu := Some i, sy_pc := (sy_pc s)(i := PRecheck path)\<rparr>)"
    using inv pc by (intro sys_inv_update [OF inv]) (auto simp: sys_inv_def)
next
  assume pc: "sy_pc s i = PUnlock r" "sy_mu s = Some i"
  then show "sys_inv keys job (s\<lparr>sy_world := sy_world s, sy_mu := None, sy_pc := (sy_pc s)(i := PDone (Some r))\<rparr>)"
    using inv by (intro sys_inv_update [OF inv]) (auto simp: sys_inv_def)
qed

lemma sys_inv_step: "sys_inv keys job s \<Longrightarrow> sys_step os m job s s' \<Longrightarrow> sys_inv keys job s'"
  using sys_inv_call_outside sys_inv_call_inside sys_inv_mutex by (fastforce elim!: sys_stepE)

end

sublocale materialisation \<subseteq> interleaving: step_invariant "sys_step os m job" "sys_inv keys job"
  by unfold_locales (rule sys_inv_step)

lemma sys_inv_init: "(\<forall>k. refTmpKey k \<notin> keys w) \<Longrightarrow> sys_inv keys job (sys_init w)"
  by (simp add: sys_inv_def sys_init_def)

text \<open>Concurrent calls on the reference host.\<close>

interpretation host_calls: materialisation hostOS hostDedup hostKeys job for job
  by unfold_locales (simp_all add: host_snap_laws host_frames)

text \<open>C5: any number of concurrent Stat calls, in every interleaving: at most one of them is between
  Lock and Unlock; a call that is about to prepare its temporary snapshot finds the key free,
  and a call that is about to commit finds its chain ID not yet materialised and its temporary
  snapshot in place. So concurrent materialisations of one layer never collide, and none is
  done twice. (When no temporary snapshot is there at the start, the removal of a temporary
  snapshot on an error path succeeds, and Stat of the local snapshotter answers for the keys that
  exist.)\<close>

theorem concurrent_materialisation_safe:
  assumes laws: "snap_laws (dm_localSn m) keys" and os: "os_frame os keys" and ovl: "ovl_frame m keys"
    and rb: "\<forall>k. rollback_ok (dm_localSn m) keys k"
    and start: "\<forall>k. refTmpKey k \<notin> keys w" and reach: "(sys_step os m job)\<^sup>*\<^sup>* (sys_init w) s"
  shows "(critical (sy_pc s i) \<and> critical (sy_pc s j) \<longrightarrow> i = j) \<and>
         (sy_pc s i = PPrepare path parent \<longrightarrow> refTmpKey (snd (job i)) \<notin> keys (sy_world s)) \<and>
         (sy_pc s i = PCommit \<longrightarrow> snd (job i) \<notin> keys (sy_world s) \<and> refTmpKey (snd (job i)) \<in> keys (sy_world s))"
proof -
  have "materialisation os m keys" by unfold_locales (use laws os ovl rb in auto)
  then have "step_invariant (sys_step os m job) (sys_inv keys job)" by (rule materialisation.sys_inv_step [THEN step_invariant.intro])
  then have inv: "sys_inv keys job s" by (rule step_invariant.reachable [OF _ reach]) (rule sys_inv_init [where keys = keys, OF start])
  have "i = j" if "critical (sy_pc s i)" "critical (sy_pc s j)" using sys_inv_holder [OF inv that(1), of j] that(2) by blast
  moreover have "refTmpKey (snd (job i)) \<notin> keys (sy_world s)" if "sy_pc s i = PPrepare path parent"
    using sys_inv_tmp [OF inv, of i] that by simp
  moreover have "snd (job i) \<notin> keys (sy_world s) \<and> refTmpKey (snd (job i)) \<in> keys (sy_world s)" if "sy_pc s i = PCommit"
    using inv that unfolding sys_inv_def by (metis holdsTmp.simps(4) rechecked_cases)
  ultimately show ?thesis by blast
qed

text \<open>A scheduler: the next step of goroutine \<open>i\<close>, None when it has to wait for the mutex.\<close>

definition moveOf :: "'w os_api \<Rightarrow> 'w dedupManager \<Rightarrow> jobs \<Rightarrow> nat \<Rightarrow> 'w system \<Rightarrow> 'w system option" where
  "moveOf os m job i s =
     (case run_state (tstep os m (fst (job i)) (snd (job i)) (sy_pc s i)) (sy_world s) of
        (pc', w') \<Rightarrow>
          if \<not> mutexOp (sy_pc s i) then Some (s\<lparr>sy_world := w', sy_pc := (sy_pc s)(i := pc')\<rparr>)
          else if \<not> critical (sy_pc s i) \<and> sy_mu s = None then Some (s\<lparr>sy_mu := Some i, sy_pc := (sy_pc s)(i := pc')\<rparr>)
          else if critical (sy_pc s i) \<and> sy_mu s = Some i then Some (s\<lparr>sy_mu := None, sy_pc := (sy_pc s)(i := pc')\<rparr>)
          else None)"

lemma moveOf_step: "moveOf os m job i s = Some s' \<Longrightarrow> sys_step os m job s s'"
proof (cases "mutexOp (sy_pc s i)")
  case False
  then show "moveOf os m job i s = Some s' \<Longrightarrow> ?thesis"
    by (auto simp: moveOf_def intro: sys_step.call split: prod.splits)
next
  case True
  then show "moveOf os m job i s = Some s' \<Longrightarrow> ?thesis"
    by (cases "sy_pc s i") (auto simp: moveOf_def go_run intro: sys_step.lock sys_step.unlock split: if_splits)
qed

fun movesOf :: "'w os_api \<Rightarrow> 'w dedupManager \<Rightarrow> jobs \<Rightarrow> nat list \<Rightarrow> 'w system \<Rightarrow> 'w system option" where
  "movesOf os m job [] s = Some s"
| "movesOf os m job (i # is) s = (case moveOf os m job i s of None \<Rightarrow> None | Some s' \<Rightarrow> movesOf os m job is s')"

lemma movesOf_reach: "movesOf os m job is s = Some s' \<Longrightarrow> (sys_step os m job)\<^sup>*\<^sup>* s s'"
  by (induction "is" arbitrary: s)
    (auto split: option.splits intro: converse_rtranclp_into_rtranclp moveOf_step)

text \<open>Two calls for the one layer of the example host: both pass the probe, then the first takes the mutex
  and goes on to its commit while the second waits.\<close>

definition sameLayer :: jobs where
  "sameLayer = (\<lambda>i. (None, layerID))"

definition raceToCommit :: "nat list" where
  "raceToCommit = [0, 0, 0, 1, 1, 1, 0, 0, 0, 0, 0, 0, 0]"

lemma raceToCommit_reach:
  "\<exists>s. (sys_step hostOS hostDedup sameLayer)\<^sup>*\<^sup>* (sys_init sharedHost) s \<and> sy_pc s 0 = PCommit \<and>
       sy_pc s 1 = PLock ''/ovl/snapshots/sha256''"
proof -
  let ?r = "movesOf hostOS hostDedup sameLayer raceToCommit (sys_init sharedHost)"
  have "?r \<noteq> None" by code_simp
  then obtain s where s: "?r = Some s" by (metis not_None_eq)
  have "map_option (\<lambda>s. (sy_pc s 0, sy_pc s 1)) ?r = Some (PCommit, PLock ''/ovl/snapshots/sha256'')" by code_simp
  then have "sy_pc s 0 = PCommit" "sy_pc s 1 = PLock ''/ovl/snapshots/sha256''" unfolding s by simp_all
  then show ?thesis using movesOf_reach [OF s] by blast
qed

lemma sameLayer_laws:
  "snap_laws (dm_localSn hostDedup) hostKeys" "\<forall>k. rollback_ok (dm_localSn hostDedup) hostKeys k"
  "\<forall>k. refTmpKey k \<notin> hostKeys sharedHost"
  by (simp_all add: host_snap_laws host_frames) (simp add: hostKeys_def sharedHost_def refTmpKey_def)

theorem concurrent_materialisation_safe_witness:
  "\<exists>s. (sys_step hostOS hostDedup sameLayer)\<^sup>*\<^sup>* (sys_init sharedHost) s \<and> sy_pc s 0 = PCommit \<and>
       layerID \<notin> hostKeys (sy_world s) \<and> refTmpKey layerID \<in> hostKeys (sy_world s)"
proof -
  obtain s where s: "(sys_step hostOS hostDedup sameLayer)\<^sup>*\<^sup>* (sys_init sharedHost) s" "sy_pc s 0 = PCommit"
    using raceToCommit_reach by blast
  from concurrent_materialisation_safe [OF sameLayer_laws(1) host_frames(1,2) sameLayer_laws(2,3) s(1), of 0 0] s
  show ?thesis by (auto simp: sameLayer_def)
qed


section \<open>Progress\<close>

text \<open>How many steps a goroutine has left at most.\<close>

fun stepsLeft :: "stat_pc \<Rightarrow> nat" where
  "stepsLeft PStart = 14"
| "stepsLeft PView = 13"
| "stepsLeft (PRemoveView res) = 12"
| "stepsLeft (PLock path) = 11"
| "stepsLeft (PRecheck path) = 10"
| "stepsLeft (PParent path) = 9"
| "stepsLeft (PPrepare path parent) = 8"
| "stepsLeft (PMounts path) = 7"
| "stepsLeft (PRemoveAll path fs) = 6"
| "stepsLeft (PSymlink path fs) = 5"
| "stepsLeft PCommit = 4"
| "stepsLeft (PAbandon err) = 3"
| "stepsLeft PRestat = 2"
| "stepsLeft (PUnlock r) = 1"
| "stepsLeft (PDone r) = 0"

lemma tstep_progress:
  "stepsLeft pc \<noteq> 0 \<Longrightarrow> run_state (tstep os m c key pc) w = (pc', w') \<Longrightarrow> stepsLeft pc' < stepsLeft pc"
  by (cases pc) (auto simp: go_run split: prod.splits sum.splits option.splits if_splits)

lemma moveOf_progress:
  assumes "moveOf os m job i s = Some s'" and "stepsLeft (sy_pc s i) \<noteq> 0"
  shows "stepsLeft (sy_pc s' i) < stepsLeft (sy_pc s i) \<and> (\<forall>j. j \<noteq> i \<longrightarrow> sy_pc s' j = sy_pc s j)"
  using assms tstep_progress [OF assms(2)] by (auto simp: moveOf_def split: prod.splits if_splits)

text \<open>The mutex is held exactly by the call that is between Lock and Unlock; this needs no law of the
  snapshotters.\<close>

lemma tstep_keeps_critical:
  "\<not> mutexOp pc \<Longrightarrow> run_state (tstep os m c key pc) w = (pc', w') \<Longrightarrow> critical pc' \<longleftrightarrow> critical pc"
  by (cases pc) (auto simp: go_run split: prod.splits sum.splits option.splits if_splits)

interpretation mutex: step_invariant "sys_step os m job" "\<lambda>s. \<forall>i. critical (sy_pc s i) \<longleftrightarrow> sy_mu s = Some i" for os m job
proof
  fix s s'
  assume inv: "\<forall>i. critical (sy_pc s i) \<longleftrightarrow> sy_mu s = Some i" and "sys_step os m job s s'"
  from this(2) show "\<forall>i. critical (sy_pc s' i) \<longleftrightarrow> sy_mu s' = Some i"
  proof cases
    case (call j pc' w')
    then show ?thesis using inv tstep_keeps_critical [OF call(2,3)] by auto
  qed (use inv in auto)
qed

lemma mutex_held:
  assumes "(sys_step os m job)\<^sup>*\<^sup>* (sys_init w) s"
  shows "critical (sy_pc s i) \<longleftrightarrow> sy_mu s = Some i"
  using mutex.reachable [OF assms] by (simp add: sys_init_def)

text \<open>C16: concurrent Stat calls never deadlock, whatever the snapshotters answer: while some call has not
  returned, some call that has not returned can move, and its move brings it nearer to its return
  and leaves the other calls where they are. No return path of the body keeps the mutex.\<close>

theorem concurrent_no_deadlock:
  assumes reach: "(sys_step os m job)\<^sup>*\<^sup>* (sys_init w) s" and left: "\<forall>r. sy_pc s i \<noteq> PDone r"
  shows "\<exists>j s'. moveOf os m job j s = Some s' \<and> stepsLeft (sy_pc s' j) < stepsLeft (sy_pc s j) \<and>
    (\<forall>k. k \<noteq> j \<longrightarrow> sy_pc s' k = sy_pc s k)"
proof -
  note held = mutex_held [OF reach]
  have "\<exists>j s'. moveOf os m job j s = Some s' \<and> stepsLeft (sy_pc s j) \<noteq> 0"
  proof (cases "sy_mu s")
    case None
    then have "moveOf os m job i s \<noteq> None" using held [of i] by (auto simp: moveOf_def split: prod.splits)
    moreover have "stepsLeft (sy_pc s i) \<noteq> 0" using left by (cases "sy_pc s i") auto
    ultimately show ?thesis by blast
  next
    case (Some j)
    then have crit: "critical (sy_pc s j)" using held by simp
    then have "moveOf os m job j s \<noteq> None" using Some by (auto simp: moveOf_def split: prod.splits)
    moreover have "stepsLeft (sy_pc s j) \<noteq> 0" using crit by (cases "sy_pc s j") auto
    ultimately show ?thesis by blast
  qed
  then show ?thesis using moveOf_progress by blast
qed

theorem concurrent_no_deadlock_witness:
  "\<exists>s j s'. (sys_step hostOS hostDedup sameLayer)\<^sup>*\<^sup>* (sys_init sharedHost) s \<and>
     sy_pc s 1 = PLock ''/ovl/snapshots/sha256'' \<and>
     moveOf hostOS hostDedup sameLayer j s = Some s' \<and> stepsLeft (sy_pc s' j) < stepsLeft (sy_pc s j)"
proof -
  obtain s where s: "(sys_step hostOS hostDedup sameLayer)\<^sup>*\<^sup>* (sys_init sharedHost) s"
    "sy_pc s 1 = PLock ''/ovl/snapshots/sha256''" using raceToCommit_reach by blast
  from concurrent_no_deadlock [OF s(1), of 1] s show ?thesis by auto
qed


section \<open>The probe is outside the lock\<close>

text \<open>
  The overlayfs snapshotter as the probe sees it, in the namespace of the call: \<open>ks w\<close> are its keys. Stat
  finds exactly the keys that exist, View adds its key, and View of a key that exists fails with the
  class of errors for that.
\<close>

definition probe_laws :: "'w snapshotter_api \<Rightarrow> ctx \<Rightarrow> ('w \<Rightarrow> string set) \<Rightarrow> bool" where
  "probe_laws S c ks \<longleftrightarrow>
     (\<forall>k w r w'. run_state (sn_Stat S c k) w = (r, w') \<longrightarrow> ks w' = ks w \<and> ((\<exists>i. r = Inr i) \<longleftrightarrow> k \<in> ks w)) \<and>
     (\<forall>k p opts w ms w'. run_state (sn_View S c k p opts) w = (Inr ms, w') \<longrightarrow> ks w' = insert k (ks w)) \<and>
     (\<forall>k p opts w. k \<in> ks w \<longrightarrow>
        (\<exists>err. fst (run_state (sn_View S c k p opts) w) = Inl err \<and> errors_Is err ErrAlreadyExists))"

lemma probe_lawsD:
  assumes "probe_laws S c ks"
  shows "run_state (sn_Stat S c k) w = (r, w') \<Longrightarrow> ks w' = ks w \<and> ((\<exists>i. r = Inr i) \<longleftrightarrow> k \<in> ks w)"
    and "run_state (sn_View S c k p opts) w = (Inr ms, w') \<Longrightarrow> ks w' = insert k (ks w)"
    and "k \<in> ks w \<Longrightarrow> \<exists>err. fst (run_state (sn_View S c k p opts) w) = Inl err \<and> errors_Is err ErrAlreadyExists"
  using assms unfolding probe_laws_def by simp_all

text \<open>A call that materialises its layer has passed the probe.\<close>

lemma materialised_probe:
  assumes "fst (run_state (statWithLazyMaterialise os m c key L) w) = Some (Inr info)"
  shows "isChainID key \<and> (\<exists>i w1 ms w2.
     run_state (sn_Stat (cl_SnapshotService (dm_client m) overlayfsSnapshotterName) (WithNamespace (jobNamespace c)) key) w = (Inr i, w1) \<and>
     run_state (sn_View (cl_SnapshotService (dm_client m) overlayfsSnapshotterName) (WithNamespace (jobNamespace c))
       (probeKey key) key []) w1 = (Inr ms, w2))"
  using assms
  by (auto simp: statWithLazyMaterialise_def overlayfsLayerPath_def jobNamespace_def probeKey_def go_run Let_def
      split: if_splits prod.splits sum.splits)

lemma call_step:
  assumes "\<not> mutexOp (sy_pc s i)" and "job i = (c, key)"
    and "run_state (tstep os m c key (sy_pc s i)) (sy_world s) = (pc', w')"
  shows "sys_step os m job s (s\<lparr>sy_world := w', sy_pc := (sy_pc s)(i := pc')\<rparr>)"
  using assms by (intro sys_step.call) simp_all

text \<open>C35: the probe view of a layer has one key per chain ID and is created before Lock, so the mutex does
  not protect it. Whatever the snapshotters are, as long as overlayfs refuses a View of an existing
  key: if a call for a layer succeeds when it runs alone, then two such calls have an interleaving
  in which one of them returns the error of an existing key, while the mutex is free and the other
  has not returned.\<close>

theorem concurrent_probe_race:
  assumes laws: "probe_laws (cl_SnapshotService (dm_client m) overlayfsSnapshotterName) (WithNamespace (jobNamespace c)) ks"
    and alone: "fst (run_state (statWithLazyMaterialise os m c key (dm_localSn m)) w) = Some (Inr info)"
    and two: "i \<noteq> j" "job i = (c, key)" "job j = (c, key)"
  shows "\<exists>s e. (sys_step os m job)\<^sup>*\<^sup>* (sys_init w) s \<and> sy_mu s = None \<and> (\<forall>r. sy_pc s i \<noteq> PDone r) \<and>
     sy_pc s j = PDone (Some (Inl e)) \<and> errors_Is e ErrAlreadyExists"
proof -
  let ?S = "cl_SnapshotService (dm_client m) overlayfsSnapshotterName" and ?c = "WithNamespace (jobNamespace c)"
  obtain x w1 ms w2 where chain: "isChainID key" and stat1: "run_state (sn_Stat ?S ?c key) w = (Inr x, w1)"
    and view1: "run_state (sn_View ?S ?c (probeKey key) key []) w1 = (Inr ms, w2)"
    using materialised_probe [OF alone] by blast
  obtain y w3 where stat2: "run_state (sn_Stat ?S ?c key) w2 = (y, w3)" by fastforce
  have "key \<in> ks w" "ks w1 = ks w" using probe_lawsD(1) [where ks = ks, OF laws stat1] by auto
  then have k2: "key \<in> ks w2" "probeKey key \<in> ks w2" using probe_lawsD(2) [where ks = ks, OF laws view1] by simp_all
  obtain z where y: "y = Inr z" and "probeKey key \<in> ks w3" using probe_lawsD(1) [where ks = ks, OF laws stat2] k2 by auto
  then obtain err w4 where view2: "run_state (sn_View ?S ?c (probeKey key) key []) w3 = (Inl err, w4)"
    and err: "errors_Is err ErrAlreadyExists"
    using probe_lawsD(3) [where ks = ks, OF laws, of "probeKey key" w3 key "[]"] by (metis prod.collapse)
  obtain res where res: "run_state (tstep os m c key PView) w1 = (PRemoveView res, w2)"
    using view1 by (simp add: go_run)
  let ?e = "resolvingErr key (Wrapf ''creating probe view for chainID %s: %w'' [key] err)"
  let ?s1 = "(sys_init w)\<lparr>sy_world := w1, sy_pc := (sy_pc (sys_init w))(i := PView)\<rparr>"
  let ?s2 = "?s1\<lparr>sy_world := w2, sy_pc := (sy_pc ?s1)(i := PRemoveView res)\<rparr>"
  let ?s3 = "?s2\<lparr>sy_world := w3, sy_pc := (sy_pc ?s2)(j := PView)\<rparr>"
  let ?s4 = "?s3\<lparr>sy_world := w4, sy_pc := (sy_pc ?s3)(j := PDone (Some (Inl ?e)))\<rparr>"
  have st1: "sys_step os m job (sys_init w) ?s1" using stat1 chain two
    by (intro call_step [where job = job and i = i, OF _ two(2)]) (simp_all add: sys_init_def go_run)
  have st2: "sys_step os m job ?s1 ?s2" using res by (intro call_step [where job = job and i = i, OF _ two(2)]) simp_all
  have st3: "sys_step os m job ?s2 ?s3" using stat2 chain y two(1)
    by (intro call_step [where job = job and i = j, OF _ two(3)]) (simp_all add: sys_init_def go_run)
  have st4: "sys_step os m job ?s3 ?s4" using view2 by (intro call_step [where job = job and i = j, OF _ two(3)]) (simp_all add: go_run)
  note more = converse_rtranclp_into_rtranclp [where r = "sys_step os m job"]
  have "(sys_step os m job)\<^sup>*\<^sup>* (sys_init w) ?s4"
    by (rule more [OF st1 more [OF st2 more [OF st3 more [OF st4 rtranclp.rtrancl_refl]]]])
  moreover have "sy_mu ?s4 = None" "\<forall>r. sy_pc ?s4 i \<noteq> PDone r" "sy_pc ?s4 j = PDone (Some (Inl ?e))"
    using two(1) by (simp_all add: sys_init_def)
  moreover have "errors_Is ?e ErrAlreadyExists" using err by (simp add: resolvingErr_def)
  ultimately show ?thesis by blast
qed

definition overlayfsKeys :: "host \<Rightarrow> string set" where
  "overlayfsKeys w = dom (map_of (ho_overlayfs w))"

lemma overlayfs_probe_laws: "probe_laws overlayfsSnapshotter c overlayfsKeys"
  by (auto simp: probe_laws_def overlayfsSnapshotter_def snapStore_def snapCreate_def overlayfsKeys_def go_run Let_def
      split: option.splits if_splits)

theorem concurrent_probe_race_witness:
  "\<exists>s e. (sys_step hostOS hostDedup sameLayer)\<^sup>*\<^sup>* (sys_init sharedHost) s \<and>
     sy_pc s 1 = PDone (Some (Inl e)) \<and> errors_Is e ErrAlreadyExists"
proof -
  have laws: "probe_laws (cl_SnapshotService (dm_client hostDedup) overlayfsSnapshotterName) (WithNamespace (jobNamespace None)) overlayfsKeys"
    by (simp add: overlayfs_probe_laws)
  let ?v = "fst (run_state (statWithLazyMaterialise hostOS hostDedup None layerID (dm_localSn hostDedup)) sharedHost)"
  have "(case ?v of Some (Inr info) \<Rightarrow> True | _ \<Rightarrow> False)" by code_simp
  then obtain info where alone: "?v = Some (Inr info)" by (auto split: option.splits sum.splits)
  from concurrent_probe_race [where ks = overlayfsKeys and i = 0 and j = 1 and job = sameLayer, OF laws alone] show ?thesis
    by (auto simp: sameLayer_def)
qed

end
