(* ===== verification/Sha256.thy ===== *)
theory Sha256
  imports Go_Prelude "HOL-Library.Word"
begin

text \<open>
  The template function sha256 of pkg/webhook/mutating.go: \<^verbatim>\<open>fmt.Sprintf("%x", sha256.Sum256([]byte(s)))\<close>.
  A Go string is a sequence of bytes, as a HOL string is. The digest is that of FIPS 180-4, on
  32-bit words whose additions wrap around.
\<close>

unbundle bit_operations_syntax


section \<open>Definitions\<close>

type_synonym word32 = "32 word"

definition rotr :: "nat \<Rightarrow> word32 \<Rightarrow> word32" where
  "rotr n x = drop_bit n x OR push_bit (32 - n) x"

definition Ch :: "word32 \<Rightarrow> word32 \<Rightarrow> word32 \<Rightarrow> word32" where
  "Ch x y z = (x AND y) XOR (NOT x AND z)"
definition Maj :: "word32 \<Rightarrow> word32 \<Rightarrow> word32 \<Rightarrow> word32" where
  "Maj x y z = (x AND y) XOR (x AND z) XOR (y AND z)"
definition bigSigma0 :: "word32 \<Rightarrow> word32" where
  "bigSigma0 x = rotr 2 x XOR rotr 13 x XOR rotr 22 x"
definition bigSigma1 :: "word32 \<Rightarrow> word32" where
  "bigSigma1 x = rotr 6 x XOR rotr 11 x XOR rotr 25 x"
definition smallSigma0 :: "word32 \<Rightarrow> word32" where
  "smallSigma0 x = rotr 7 x XOR rotr 18 x XOR drop_bit 3 x"
definition smallSigma1 :: "word32 \<Rightarrow> word32" where
  "smallSigma1 x = rotr 17 x XOR rotr 19 x XOR drop_bit 10 x"

definition roundConstants :: "word32 list" where
  "roundConstants =
    [1116352408, 1899447441, 3049323471, 3921009573, 961987163, 1508970993, 2453635748,
     2870763221, 3624381080, 310598401, 607225278, 1426881987, 1925078388, 2162078206,
     2614888103, 3248222580, 3835390401, 4022224774, 264347078, 604807628, 770255983,
     1249150122, 1555081692, 1996064986, 2554220882, 2821834349, 2952996808, 3210313671,
     3336571891, 3584528711, 113926993, 338241895, 666307205, 773529912, 1294757372,
     1396182291, 1695183700, 1986661051, 2177026350, 2456956037, 2730485921, 2820302411,
     3259730800, 3345764771, 3516065817, 3600352804, 4094571909, 275423344, 430227734,
     506948616, 659060556, 883997877, 958139571, 1322822218, 1537002063, 1747873779,
     1955562222, 2024104815, 2227730452, 2361852424, 2428436474, 2756734187, 3204031479,
     3329325298]"

definition initialHash :: "word32 list" where
  "initialHash =
    [1779033703, 3144134277, 1013904242, 2773480762, 1359893119, 2600822924, 528734635,
     1541459225]"

text \<open>The message schedule, the newest word first.\<close>

fun schedule :: "nat \<Rightarrow> word32 list \<Rightarrow> word32 list" where
  "schedule 0 ws = ws"
| "schedule (Suc n) ws =
     schedule n ((smallSigma1 (ws ! 1) + ws ! 6 + smallSigma0 (ws ! 14) + ws ! 15) # ws)"

fun sha_round :: "word32 \<times> word32 \<Rightarrow> word32 list \<Rightarrow> word32 list" where
  "sha_round (k, w) [a, b, c, d, e, f, g, h] =
     (let t1 = h + bigSigma1 e + Ch e f g + k + w;
          t2 = bigSigma0 a + Maj a b c
      in [t1 + t2, a, b, c, d + t1, e, f, g])"
| "sha_round kw hs = hs"

definition compress :: "word32 list \<Rightarrow> word32 list \<Rightarrow> word32 list" where
  "compress block hs =
     map2 (+) hs (fold sha_round (zip roundConstants (rev (schedule 48 (rev block)))) hs)"

text \<open>Padding: a one bit, zeros, and the length of the message in bits as eight bytes.\<close>

definition beBytes :: "nat \<Rightarrow> int \<Rightarrow> int list" where
  "beBytes n x = map (\<lambda>i. (x div 256 ^ i) mod 256) (rev [0..<n])"

definition shaPadding :: "int \<Rightarrow> int list" where
  "shaPadding len = 128 # replicate (nat ((55 - len) mod 64)) 0 @ beBytes 8 (8 * len)"

fun toWords :: "int list \<Rightarrow> word32 list" where
  "toWords (a # b # c # d # bs) = of_int (((a * 256 + b) * 256 + c) * 256 + d) # toWords bs"
| "toWords _ = []"

text \<open>Folding over the blocks of sixteen words.\<close>

fun shaBlocks :: "nat \<Rightarrow> word32 list \<Rightarrow> word32 list \<Rightarrow> word32 list" where
  "shaBlocks 0 ws hs = hs"
| "shaBlocks (Suc n) ws hs = shaBlocks n (drop 16 ws) (compress (take 16 ws) hs)"

definition Sum256 :: "string \<Rightarrow> int list" where
  "Sum256 s =
     (let bytes = map of_char s;
          ws = toWords (bytes @ shaPadding (int (length s)))
      in concat (map (\<lambda>w. beBytes 4 (uint w)) (shaBlocks (length ws div 16) ws initialHash)))"

definition hexDigit :: "int \<Rightarrow> char" where
  "hexDigit n = ''0123456789abcdef'' ! nat (n mod 16)"

definition hexBytes :: "int list \<Rightarrow> string" where
  "hexBytes bs = concat (map (\<lambda>b. [hexDigit (b div 16), hexDigit b]) bs)"

definition sha256 :: "string \<Rightarrow> string" where
  "sha256 s = hexBytes (Sum256 s)"


section \<open>The constants\<close>

text \<open>The first 64 primes, whose roots give the constants of FIPS 180-4.\<close>

definition shaPrimes :: "int list" where
  "shaPrimes =
    [2, 3, 5, 7, 11, 13, 17, 19, 23, 29, 31, 37, 41, 43, 47, 53, 59, 61, 67, 71, 73, 79, 83,
     89, 97, 101, 103, 107, 109, 113, 127, 131, 137, 139, 149, 151, 157, 163, 167, 173, 179,
     181, 191, 193, 197, 199, 211, 223, 227, 229, 233, 239, 241, 251, 257, 263, 269, 271,
     277, 281, 283, 293, 307, 311]"

text \<open>\<open>x\<close> is the first 32 bits of the fractional part of the \<open>e\<close>-th root of \<open>p\<close>, whose integral part is
  \<open>i\<close>.\<close>

definition fractionOfRoot :: "nat \<Rightarrow> int \<Rightarrow> word32 \<Rightarrow> int \<Rightarrow> bool" where
  "fractionOfRoot e p x i =
     (let c = i * 4294967296 + uint x in c ^ e \<le> p * 4294967296 ^ e \<and> p * 4294967296 ^ e < (c + 1) ^ e)"

lemma roundConstants_roots:
  "list_all (\<lambda>(p, k). list_ex (fractionOfRoot 3 p k) [1, 2, 3, 4, 5, 6]) (zip shaPrimes roundConstants)"
  by code_simp

lemma initialHash_roots:
  "list_all (\<lambda>(p, h). list_ex (fractionOfRoot 2 p h) [1, 2, 3, 4]) (zip shaPrimes initialHash)"
  by code_simp


section \<open>Shape of the digest\<close>

lemma sha_round_length: "length (sha_round kw hs) = length hs"
  by (cases "(kw, hs)" rule: sha_round.cases) (simp_all add: Let_def)

lemma fold_sha_round_length: "length (fold sha_round kws hs) = length hs"
  by (induction kws arbitrary: hs) (simp_all add: sha_round_length)

lemma shaBlocks_length: "length (shaBlocks n ws hs) = length hs"
  by (induction n arbitrary: ws hs) (simp_all add: compress_def fold_sha_round_length)

lemma length_concat_const: "(\<And>x. x \<in> set xs \<Longrightarrow> length (f x) = n) \<Longrightarrow> length (concat (map f xs)) = length xs * n"
  by (induction xs) auto

lemma Sum256_length: "length (Sum256 s) = 32"
proof -
  have "length (shaBlocks n ws initialHash) = 8" for n ws
    by (simp add: shaBlocks_length initialHash_def)
  then show ?thesis by (simp add: Sum256_def Let_def length_concat_const [where n = 4] beBytes_def)
qed

lemma hexDigit_hex: "hexDigit n \<in> set ''0123456789abcdef''"
  unfolding hexDigit_def by (rule nth_mem) (simp add: nat_less_iff)

lemma sha256_length: "length (sha256 s) = 64"
  by (simp add: sha256_def hexBytes_def length_concat_const [where n = 2] Sum256_length)

lemma sha256_hex: "set (sha256 s) \<subseteq> set ''0123456789abcdef''"
proof
  fix c
  assume "c \<in> set (sha256 s)"
  then obtain n where "c = hexDigit n" by (auto simp: sha256_def hexBytes_def)
  then show "c \<in> set ''0123456789abcdef''" by (simp only: hexDigit_hex)
qed


section \<open>Known answer\<close>

text \<open>The worked example of FIPS 180-4, message abc: its schedule and the state after every 16 rounds.\<close>

definition abcBlock :: "word32 list" where
  "abcBlock = 1633837952 # replicate 14 0 @ [24]"

definition abcSchedule :: "word32 list" where
  "abcSchedule =
    [1633837952, 0, 0, 0, 0, 0, 0, 0, 0, 0, 0, 0, 0, 0, 0, 24, 1633837952, 983040,
     2108187653, 1610613702, 1050508152, 25426944, 316456923, 3806512014, 3357629466,
     3073800610, 3854317833, 845560923, 2636160359, 3968280267, 1881225380, 3552024379,
     2482346367, 996719219, 2952069057, 4043988066, 176896406, 1924104970, 2483675966,
     610538786, 2672279444, 4037431130, 1042573945, 657669027, 206005234, 2215296807,
     2049510749, 106709978, 4215179723, 3430291419, 3118885940, 2845390439, 2226839261,
     3256115900, 344409900, 2987358873, 4015503821, 3957764664, 2682456414, 2025622859,
     2755645205, 1720397816, 4004225740, 313650667]"

lemma abc_words: "toWords (map of_char ''abc'' @ shaPadding (int (length ''abc''))) = abcBlock"
  by code_simp

lemma abc_schedule: "rev (schedule 48 (rev abcBlock)) = abcSchedule"
  by code_simp

definition abcRounds :: "nat \<Rightarrow> word32 list \<Rightarrow> word32 list" where
  "abcRounds i hs = fold sha_round (take 16 (drop (16 * i) (zip roundConstants abcSchedule))) hs"

lemma abc_rounds0:
  "abcRounds 0 initialHash =
     [2969183118, 3227803614, 3643992854, 2274437520, 123276749, 194179596, 1952073950,
     509051416]"
  by code_simp

lemma abc_rounds1:
  "abcRounds 1 [2969183118, 3227803614, 3643992854, 2274437520, 123276749, 194179596, 1952073950,
     509051416] =
     [1941126133, 3935906338, 2684750640, 909411017, 3126399250, 17410874, 2917635127,
     1628611511]"
  by code_simp

lemma abc_rounds2:
  "abcRounds 2 [1941126133, 3935906338, 2684750640, 909411017, 3126399250, 17410874, 2917635127,
     1628611511] =
     [1098003085, 2706117808, 1923828625, 643991573, 4274981830, 3581645993, 3077922209,
     2819559920]"
  by code_simp

lemma abc_rounds3:
  "abcRounds 3 [1098003085, 2706117808, 1923828625, 643991573, 4274981830, 3581645993, 3077922209,
     2819559920] =
     [1349398616, 3550093669, 80891244, 3093179625, 1593118500, 4212265488, 2492278198,
     2518632596]"
  by code_simp

lemma fold_by_16:
  assumes "length xs = 64"
  shows "fold f xs hs = fold f (take 16 (drop 48 xs)) (fold f (take 16 (drop 32 xs))
           (fold f (take 16 (drop 16 xs)) (fold f (take 16 xs) hs)))"
proof -
  have "xs = take 16 xs @ take 16 (drop 16 xs) @ take 16 (drop 32 xs) @ take 16 (drop 48 xs)"
    using assms append_take_drop_id [of 16 xs] append_take_drop_id [of 16 "drop 16 xs"]
      append_take_drop_id [of 16 "drop 32 xs"] by simp
  then show ?thesis by (metis fold_append comp_apply)
qed

lemma abc_compress: "compress abcBlock initialHash =
     [3128432319, 2399260650, 1094795486, 1571693091, 2953011619, 2518121116, 3021012833,
     4060091821]"
proof -
  have len: "length (zip roundConstants abcSchedule) = 64" by (simp add: roundConstants_def abcSchedule_def)
  have "fold sha_round (zip roundConstants abcSchedule) initialHash =
      abcRounds 3 (abcRounds 2 (abcRounds 1 (abcRounds 0 initialHash)))"
    unfolding abcRounds_def using fold_by_16 [OF len] by simp
  then show ?thesis
    unfolding compress_def abc_schedule abc_rounds0 abc_rounds1 abc_rounds2 abc_rounds3
    by (simp add: initialHash_def)
qed

lemma sha256_abc: "sha256 ''abc'' = ''ba7816bf8f01cfea414140de5dae2223b00361a396177a9cb410ff61f20015ad''"
proof -
  have len: "length abcBlock = 16" by (simp add: abcBlock_def)
  then have "shaBlocks (Suc 0) abcBlock initialHash = compress abcBlock initialHash" by simp
  then have blocks: "shaBlocks (length abcBlock div 16) abcBlock initialHash = compress abcBlock initialHash" by (simp add: len)
  show ?thesis unfolding sha256_def Sum256_def Let_def abc_words blocks abc_compress by code_simp
qed

end
