(* ===== verification/Webhook.thy ===== *)
theory Webhook
  imports Annotation Go_Template Sha256
begin

text \<open>
  pkg/webhook/mutating.go: the mutating admission webhook. Owner resolution, PVC resolution,
  the wait for the PVC to be bound, the JSON patch and the admission response.

  The Kubernetes clients, the clock and \<^verbatim>\<open>labels.Parse\<close> are the record \<open>'w kube\<close>; the
  template package is \<open>('t, templateData) text_template\<close>; JSON decoding of the request and
  encoding of the patch are parameters. Durations are in nanoseconds, as in package time.
\<close>


section \<open>Data\<close>

record ownerReference =
  or_Kind :: string
  or_Name :: string
  or_Controller :: "bool option"

record volumeMount =
  vm_Name :: string
  vm_MountPath :: string

record volume =
  vol_Name :: string
  vol_ClaimName :: string

record container_spec =
  ct_Name :: string
  ct_VolumeMounts :: "volumeMount list option"

text \<open>The fields of corev1.Pod the webhook reads; \<open>None\<close> is a nil map, slice or pointer.\<close>

record pod =
  pod_Name :: string
  pod_Labels :: "(string, string) gomap"
  pod_Annotations :: "(string, string) gomap option"
  pod_OwnerReferences :: "ownerReference list"
  pod_Volumes :: "volume list option"
  pod_Containers :: "container_spec list"
  pod_RuntimeClassName :: "string option"

record pvc =
  pvc_Name :: string
  pvc_Phase :: string
  pvc_VolumeName :: string

text \<open>A PersistentVolume: the volume handle of its CSI source, if it has one.\<close>

record pv =
  pv_CSI_VolumeHandle :: "string option"

record gvr =
  gvr_Group :: string
  gvr_Version :: string
  gvr_Resource :: string

record templateData =
  OwnerName :: string
  PodName :: string
  PVName :: string
  VolumeHandle :: string
  PodIndex :: string
  PodUID :: string
  PodNamespace :: string

text \<open>
  The calls that leave the process. \<open>kb_GetPVC\<close> returns the object and the error together,
  as the typed client does. \<open>kb_Wait d\<close> is the select on \<^verbatim>\<open>ctx.Done()\<close> and
  \<^verbatim>\<open>time.After(d)\<close>: \<open>Some e\<close> when the context was cancelled with error \<open>e\<close>.
\<close>

record 'w kube =
  kb_GetOwner :: "gvr \<Rightarrow> string \<Rightarrow> string \<Rightarrow> ('w, gerr + (string \<times> ownerReference list)) state"
  kb_GetPVC :: "string \<Rightarrow> string \<Rightarrow> ('w, pvc \<times> gerr option) state"
  kb_ListPVCs :: "string \<Rightarrow> string \<Rightarrow> ('w, gerr + pvc list) state"
  kb_GetPV :: "string \<Rightarrow> ('w, gerr + pv) state"
  kb_ParseSelector :: "string \<Rightarrow> gerr + string"
  kb_Now :: "('w, int) state"
  kb_Wait :: "int \<Rightarrow> ('w, gerr option) state"

record ('w, 't) handler =
  h_kube :: "'w kube"
  h_template :: "('t, templateData) text_template"
  h_pvcNameTmpl :: "'t option"
  h_pvcSelectorTmpl :: "'t option"
  h_pvcNameTmplAnnotation :: string
  h_annotationTmpls :: "(string, 't) gomap"
  h_maxOwnerDepth :: int
  h_defaultRuntimeClass :: string
  h_runtimeClassSuffix :: string
  h_stateMountPath :: string
  h_boundTimeout :: int


section \<open>Definitions\<close>

definition annotationSuffixPVCNameTemplate :: string where
  "annotationSuffixPVCNameTemplate = ''pvc-name-template''"
definition statePVCVolumeName :: string where
  "statePVCVolumeName = ''pv-snapshotter--state''"
definition podIndexLabel :: string where
  "podIndexLabel = ''apps.kubernetes.io/pod-index''"
definition boundPollInterval :: int where
  "boundPollInterval = 2 * 1000000000"
definition ClaimBound :: string where "ClaimBound = ''Bound''"

definition defaultAnnotationTemplates :: "(string, string) gomap" where
  "defaultAnnotationTemplates =
     [(''pv-snapshotter.humble-mun.io/upperdir-path-template'',
       ''/var/lib/kubelet/pods/{{.PodUID}}/volumes/kubernetes.io~csi/{{.PVName}}/mount''),
      (''pv-snapshotter.humble-mun.io/var.PVName'', ''{{.PVName}}'')]"


subsection \<open>Templates\<close>

text \<open>The function map: the custom function sha256.\<close>

definition templateFuncs :: "string \<Rightarrow> (string \<Rightarrow> string) option" where
  "templateFuncs name = (if name = ''sha256'' then Some sha256 else None)"

text \<open>
  Compiling a template. \<open>T\<close> is the package with \<open>templateFuncs\<close> registered; the name only labels the
  messages of the package.
\<close>

definition parseTemplate :: "('t, templateData) text_template \<Rightarrow> string \<Rightarrow> string \<Rightarrow> gerr + 't" where
  [simp]: "parseTemplate T name source = tt_Parse T source"

definition renderTemplate ::
  "('t, templateData) text_template \<Rightarrow> 't option \<Rightarrow> templateData \<Rightarrow> gerr + string" where
  "renderTemplate T tmpl data =
     (case tmpl of None \<Rightarrow> Inr [] | Some t \<Rightarrow> tt_Execute T t data)"

text \<open>Evaluation of a field of \<open>templateData\<close> by text/template; other names are an error.\<close>

definition data_field :: "templateData \<Rightarrow> string \<Rightarrow> gerr + string" where
  "data_field d f =
     (if f = ''OwnerName'' then Inr (OwnerName d)
      else if f = ''PodName'' then Inr (PodName d)
      else if f = ''PVName'' then Inr (PVName d)
      else if f = ''VolumeHandle'' then Inr (VolumeHandle d)
      else if f = ''PodIndex'' then Inr (PodIndex d)
      else if f = ''PodUID'' then Inr (PodUID d)
      else if f = ''PodNamespace'' then Inr (PodNamespace d)
      else Inl (Errorf ''can't evaluate field %s in type webhook.templateData'' [f]))"

text \<open>The fragment of the package with the function map of the webhook.\<close>

definition webhookTemplates :: "(tnode list, templateData) text_template" where
  "webhookTemplates =
     fragment [''sha256''] (\<lambda>g v. case templateFuncs g of Some f \<Rightarrow> f v | None \<Rightarrow> []) data_field"


subsection \<open>Owner resolution\<close>

definition controllerRefs :: "ownerReference list \<Rightarrow> ownerReference list" where
  "controllerRefs refs = filter (\<lambda>r. or_Controller r = Some True) refs"

definition ownerRefToGVR :: "ownerReference \<Rightarrow> gerr + gvr" where
  "ownerRefToGVR ref =
     (let apps = (\<lambda>res. \<lparr>gvr_Group = ''apps'', gvr_Version = ''v1'', gvr_Resource = res\<rparr>);
          batch = (\<lambda>res. \<lparr>gvr_Group = ''batch'', gvr_Version = ''v1'', gvr_Resource = res\<rparr>) in
      if or_Kind ref = ''ReplicaSet'' then Inr (apps ''replicasets'')
      else if or_Kind ref = ''StatefulSet'' then Inr (apps ''statefulsets'')
      else if or_Kind ref = ''Deployment'' then Inr (apps ''deployments'')
      else if or_Kind ref = ''DaemonSet'' then Inr (apps ''daemonsets'')
      else if or_Kind ref = ''Job'' then Inr (batch ''jobs'')
      else if or_Kind ref = ''CronJob'' then Inr (batch ''cronjobs'')
      else Inl (Errorf ''unrecognised owner kind %q'' [or_Kind ref]))"

text \<open>The loop of resolveOwner; the first argument counts the hops that are left.\<close>

fun ownerLoop ::
  "nat \<Rightarrow> nat \<Rightarrow> 'w kube \<Rightarrow> string \<Rightarrow> string \<Rightarrow> ownerReference list \<Rightarrow> ('w, gerr + string) state" where
  "ownerLoop 0 depth K ns currentName currentRefs = State_Monad.return (Inr currentName)"
| "ownerLoop (Suc left) depth K ns currentName currentRefs =
     (case controllerRefs currentRefs of
        [] \<Rightarrow> State_Monad.return (Inr currentName)
      | ref # _ \<Rightarrow>
          (case ownerRefToGVR ref of
             Inl _ \<Rightarrow> State_Monad.return (Inr currentName)
           | Inr g \<Rightarrow> do {
               r \<leftarrow> kb_GetOwner K g ns (or_Name ref);
               case r of
                 Inl err \<Rightarrow>
                   State_Monad.return
                     (Inl (Wrapf ''getting %s/%s (depth %d): %w'' [or_Kind ref, or_Name ref, itoa depth] err))
               | Inr (name, refs) \<Rightarrow> ownerLoop left (depth + 1) K ns name refs
             }))"

definition resolveOwner ::
  "('w, 't) handler \<Rightarrow> pod \<Rightarrow> string \<Rightarrow> ('w, gerr + string) state" where
  "resolveOwner h pod ns =
     (if h_maxOwnerDepth h = 0 then State_Monad.return (Inr (pod_Name pod))
      else ownerLoop (nat (h_maxOwnerDepth h)) 0 (h_kube h) ns (pod_Name pod) (pod_OwnerReferences pod))"


subsection \<open>PVC resolution\<close>

definition resolvePVCFromAnnotation ::
  "('w, 't) handler \<Rightarrow> string \<Rightarrow> string \<Rightarrow> templateData \<Rightarrow> ('w, gerr + pvc) state" where
  "resolvePVCFromAnnotation h ns tmplText data =
     (case parseTemplate (h_template h) ''pvc-name-annotation'' tmplText of
        Inl err \<Rightarrow>
          State_Monad.return
            (Inl (Wrapf ''parsing pod annotation %q as template: %w'' [h_pvcNameTmplAnnotation h] err))
      | Inr tmpl \<Rightarrow>
          (case renderTemplate (h_template h) (Some tmpl) data of
             Inl err \<Rightarrow>
               State_Monad.return
                 (Inl (Wrapf ''rendering pod annotation %q: %w'' [h_pvcNameTmplAnnotation h] err))
           | Inr pvcName \<Rightarrow>
               if pvcName = [] then
                 State_Monad.return
                   (Inl (Errorf ''pod annotation %q rendered an empty PVC name''
                           [h_pvcNameTmplAnnotation h]))
               else do {
                 (p, e) \<leftarrow> kb_GetPVC (h_kube h) ns pvcName;
                 State_Monad.return
                   (case e of
                      Some err \<Rightarrow>
                        Inl (Wrapf ''fetching PVC %q (from pod annotation %q): %w''
                               [pvcName, h_pvcNameTmplAnnotation h] err)
                    | None \<Rightarrow> Inr p)
               }))"

text \<open>The third step: list the PVCs that match the rendered selector and take the first.\<close>

definition resolvePVCBySelector ::
  "('w, 't) handler \<Rightarrow> string \<Rightarrow> templateData \<Rightarrow> ('w, gerr + pvc) state" where
  "resolvePVCBySelector h ns data =
     (case renderTemplate (h_template h) (h_pvcSelectorTmpl h) data of
        Inl err \<Rightarrow> State_Monad.return (Inl (Wrapf ''rendering pvc-selector-template: %w'' [] err))
      | Inr selectorStr \<Rightarrow>
          if selectorStr = [] then
            State_Monad.return
              (Inl (Errorf ''neither pvc-name-template nor pvc-selector-template produced a value (ownerName=%q, podName=%q)''
                      [OwnerName data, PodName data]))
          else
            (case kb_ParseSelector (h_kube h) selectorStr of
               Inl err \<Rightarrow>
                 State_Monad.return (Inl (Wrapf ''parsing PVC label selector %q: %w'' [selectorStr] err))
             | Inr sel \<Rightarrow> do {
                 r \<leftarrow> kb_ListPVCs (h_kube h) ns sel;
                 State_Monad.return
                   (case r of
                      Inl err \<Rightarrow> Inl (Wrapf ''listing PVCs with selector %q: %w'' [selectorStr] err)
                    | Inr [] \<Rightarrow> Inl (Errorf ''no PVC matched selector %q'' [selectorStr])
                    | Inr (p # _) \<Rightarrow> Inr p)
               }))"

definition podAnnotation :: "pod \<Rightarrow> string \<Rightarrow> string option" where
  "podAnnotation pod k = (case pod_Annotations pod of None \<Rightarrow> None | Some m \<Rightarrow> map_of m k)"

definition resolvePVC ::
  "('w, 't) handler \<Rightarrow> string \<Rightarrow> pod \<Rightarrow> templateData \<Rightarrow> ('w, gerr + pvc) state" where
  "resolvePVC h ns pod data =
     (case (if h_pvcNameTmplAnnotation h \<noteq> [] then podAnnotation pod (h_pvcNameTmplAnnotation h)
            else None) of
        Some tmplText \<Rightarrow> resolvePVCFromAnnotation h ns tmplText data
      | None \<Rightarrow>
          (case renderTemplate (h_template h) (h_pvcNameTmpl h) data of
             Inl err \<Rightarrow> State_Monad.return (Inl (Wrapf ''rendering pvc-name-template: %w'' [] err))
           | Inr pvcName \<Rightarrow>
               if pvcName \<noteq> [] then do {
                 (p, e) \<leftarrow> kb_GetPVC (h_kube h) ns pvcName;
                 State_Monad.return
                   (case e of
                      Some gerr \<Rightarrow> Inl (Wrapf ''fetching PVC %q: %w'' [pvcName] gerr)
                    | None \<Rightarrow> Inr p)
               }
               else resolvePVCBySelector h ns data))"


subsection \<open>Waiting for the PVC\<close>

text \<open>
  The polling loop of waitBound. It ends only when the PVC is bound, the deadline has passed,
  the context is cancelled or a fetch fails, so the model counts iterations: \<open>None\<close> when
  \<open>fuel\<close> runs out. (The duration operand of the timeout message is left out of the error value.)
\<close>

fun waitLoop ::
  "nat \<Rightarrow> 'w kube \<Rightarrow> int \<Rightarrow> string \<Rightarrow> pvc \<Rightarrow> ('w, (gerr + pvc) option) state" where
  "waitLoop 0 K deadline ns p = State_Monad.return None"
| "waitLoop (Suc fuel) K deadline ns p =
     (if pvc_Phase p = ClaimBound then State_Monad.return (Some (Inr p))
      else do {
        now \<leftarrow> kb_Now K;
        let remaining = deadline - now;
        if remaining \<le> 0 then
          State_Monad.return
            (Some (Inl (Errorf ''timed out waiting for PVC %q to be bound (current phase: %s)''
                          [pvc_Name p, pvc_Phase p])))
        else do {
          let sleep = (if boundPollInterval > remaining then remaining else boundPollInterval);
          w \<leftarrow> kb_Wait K sleep;
          case w of
            Some err \<Rightarrow>
              State_Monad.return
                (Some (Inl (Wrapf ''context cancelled while waiting for PVC %q: %w'' [pvc_Name p] err)))
          | None \<Rightarrow> do {
              (p', e) \<leftarrow> kb_GetPVC K ns (pvc_Name p);
              case e of
                Some err \<Rightarrow>
                  State_Monad.return (Some (Inl (Wrapf ''re-fetching PVC %q: %w'' [pvc_Name p'] err)))
              | None \<Rightarrow> waitLoop fuel K deadline ns p'
            }
        }
      })"

definition boundVolume :: "'w kube \<Rightarrow> pvc \<Rightarrow> ('w, gerr + (string \<times> string)) state" where
  "boundVolume K p =
     (let pvName = pvc_VolumeName p in
      if pvName = [] then
        State_Monad.return (Inl (Errorf ''PVC %q is Bound but spec.volumeName is empty'' [pvc_Name p]))
      else do {
        r \<leftarrow> kb_GetPV K pvName;
        State_Monad.return
          (case r of
             Inl gerr \<Rightarrow> Inl (Wrapf ''fetching PV %q: %w'' [pvName] gerr)
           | Inr v \<Rightarrow>
               Inr (pvName, case pv_CSI_VolumeHandle v of None \<Rightarrow> [] | Some handle \<Rightarrow> handle))
      })"

definition waitBound ::
  "nat \<Rightarrow> ('w, 't) handler \<Rightarrow> pvc \<Rightarrow> string \<Rightarrow> ('w, (gerr + (string \<times> string)) option) state" where
  "waitBound fuel h p ns =
     do {
       now \<leftarrow> kb_Now (h_kube h);
       let deadline = now + h_boundTimeout h;
       r \<leftarrow> waitLoop fuel (h_kube h) deadline ns p;
       case r of
         None \<Rightarrow> State_Monad.return None
       | Some (Inl err) \<Rightarrow> State_Monad.return (Some (Inl err))
       | Some (Inr p') \<Rightarrow> do {
           v \<leftarrow> boundVolume (h_kube h) p';
           State_Monad.return (Some v)
         }
     }"


subsection \<open>The patch\<close>

datatype patch_value =
    VString string
  | VStringMap "(string, string) gomap"
  | VEmptyList
  | VVolume volume
  | VMount volumeMount
  | VMounts "volumeMount list"

record jsonPatchOp =
  op_Op :: string
  op_Path :: string
  op_Value :: patch_value

definition escapeKey :: "string \<Rightarrow> string" where
  "escapeKey key = replace_all (replace_all key (CHR ''~'') ''~0'') (CHR ''/'') ''~1''"

fun annotationOps ::
  "('t, templateData) text_template \<Rightarrow> templateData \<Rightarrow> (string, 't) gomap \<Rightarrow>
   gerr + jsonPatchOp list" where
  "annotationOps T data [] = Inr []"
| "annotationOps T data ((key, tmpl) # rest) =
     (case renderTemplate T (Some tmpl) data of
        Inl err \<Rightarrow> Inl (Wrapf ''rendering annotation template for key %q: %w'' [key] err)
      | Inr val \<Rightarrow>
          (case annotationOps T data rest of
             Inl err \<Rightarrow> Inl err
           | Inr ops \<Rightarrow>
               Inr (\<lparr>op_Op = ''add'', op_Path = ''/metadata/annotations/'' @ escapeKey key,
                     op_Value = VString val\<rparr> # ops)))"

definition stateVolume :: "string \<Rightarrow> volume" where
  "stateVolume pvcName = \<lparr>vol_Name = statePVCVolumeName, vol_ClaimName = pvcName\<rparr>"

definition stateMount :: "('w, 't) handler \<Rightarrow> volumeMount" where
  "stateMount h = \<lparr>vm_Name = statePVCVolumeName, vm_MountPath = h_stateMountPath h\<rparr>"

definition mountOps :: "('w, 't) handler \<Rightarrow> pod \<Rightarrow> jsonPatchOp list" where
  "mountOps h pod =
     (case pod_Containers pod of
        [] \<Rightarrow> []
      | c # _ \<Rightarrow>
          (case ct_VolumeMounts c of
             None \<Rightarrow> [\<lparr>op_Op = ''add'', op_Path = ''/spec/containers/0/volumeMounts'',
                        op_Value = VMounts [stateMount h]\<rparr>]
           | Some _ \<Rightarrow> [\<lparr>op_Op = ''add'', op_Path = ''/spec/containers/0/volumeMounts/-'',
                           op_Value = VMount (stateMount h)\<rparr>]))"

definition runtimeClassBase :: "('w, 't) handler \<Rightarrow> pod \<Rightarrow> string" where
  "runtimeClassBase h pod =
     (let baseRC = (case pod_RuntimeClassName pod of None \<Rightarrow> [] | Some rc \<Rightarrow> rc)
      in if baseRC = [] then h_defaultRuntimeClass h else baseRC)"

definition runtimeClassOps :: "('w, 't) handler \<Rightarrow> pod \<Rightarrow> jsonPatchOp list" where
  "runtimeClassOps h pod =
     (let baseRC = runtimeClassBase h pod in
      if baseRC = [] then []
      else let pvRC = baseRC @ h_runtimeClassSuffix h in
      [\<lparr>op_Op = (if pod_RuntimeClassName pod = None then ''add'' else ''replace''),
        op_Path = ''/spec/runtimeClassName'', op_Value = VString pvRC\<rparr>])"

definition buildPatch ::
  "('w, 't) handler \<Rightarrow> pod \<Rightarrow> string \<Rightarrow> templateData \<Rightarrow> gerr + jsonPatchOp list" where
  "buildPatch h pod pvcName data =
     (case annotationOps (h_template h) data (h_annotationTmpls h) of
        Inl err \<Rightarrow> Inl err
      | Inr aops \<Rightarrow>
          Inr ((if pod_Annotations pod = None
                then [\<lparr>op_Op = ''add'', op_Path = ''/metadata/annotations'', op_Value = VStringMap []\<rparr>]
                else []) @
               aops @
               (if pod_Volumes pod = None
                then [\<lparr>op_Op = ''add'', op_Path = ''/spec/volumes'', op_Value = VEmptyList\<rparr>]
                else []) @
               [\<lparr>op_Op = ''add'', op_Path = ''/spec/volumes/-'', op_Value = VVolume (stateVolume pvcName)\<rparr>] @
               mountOps h pod @
               runtimeClassOps h pod))"


subsection \<open>Admission\<close>

record admissionRequest =
  rq_UID :: string
  rq_Name :: string
  rq_Namespace :: string
  rq_Object :: string

record admissionResponse =
  rs_UID :: string
  rs_Allowed :: bool
  rs_Code :: "nat option"
  rs_Message :: "string list"
  rs_Cause :: "gerr option"
  rs_Patch :: "string option"
  rs_PatchType :: "string option"

text \<open>The message of a denial: its format with the operands, and the error it ends with.\<close>

definition deny :: "string \<Rightarrow> string list \<Rightarrow> gerr \<Rightarrow> admissionResponse" where
  "deny uid msg err =
     \<lparr>rs_UID = uid, rs_Allowed = False, rs_Code = Some 422, rs_Message = msg, rs_Cause = Some err,
      rs_Patch = None, rs_PatchType = None\<rparr>"

definition initialData :: "string \<Rightarrow> admissionRequest \<Rightarrow> pod \<Rightarrow> templateData" where
  "initialData ownerName req pod =
     \<lparr>OwnerName = ownerName, PodName = rq_Name req, PVName = [], VolumeHandle = [],
      PodIndex = map_get (pod_Labels pod) podIndexLabel,
      PodUID = ''{{.PodUID}}'', PodNamespace = ''{{.PodNamespace}}''\<rparr>"

record admissionReview =
  rv_APIVersion :: string
  rv_Kind :: string
  rv_Request :: "admissionRequest option"

text \<open>The encoders of JSON the handler calls.\<close>

record json_pkg =
  js_bindReview :: "string \<Rightarrow> gerr + admissionReview"
  js_decodePod :: "string \<Rightarrow> gerr + pod"
  js_encodePatch :: "jsonPatchOp list \<Rightarrow> gerr + string"

text \<open>\<open>None\<close>: the polling loop has run out of fuel.\<close>

definition mutate ::
  "nat \<Rightarrow> json_pkg \<Rightarrow> ('w, 't) handler \<Rightarrow> admissionRequest \<Rightarrow> ('w, admissionResponse option) state" where
  "mutate fuel J h req =
     (case js_decodePod J (rq_Object req) of
        Inl err \<Rightarrow> State_Monad.return (Some (deny (rq_UID req) [''decoding pod: %v''] err))
      | Inr pod \<Rightarrow> do {
          ow \<leftarrow> resolveOwner h pod (rq_Namespace req);
          case ow of
            Inl err \<Rightarrow>
              State_Monad.return (Some (deny (rq_UID req) [''resolving controlling owner: %v''] err))
          | Inr ownerName \<Rightarrow> do {
              let data = initialData ownerName req pod;
              c \<leftarrow> resolvePVC h (rq_Namespace req) pod data;
              case c of
                Inl err \<Rightarrow>
                  State_Monad.return
                    (Some (deny (rq_UID req) [''resolving PVC for owner %q: %v'', ownerName] err))
              | Inr p \<Rightarrow> do {
                  b \<leftarrow> waitBound fuel h p (rq_Namespace req);
                  case b of
                    None \<Rightarrow> State_Monad.return None
                  | Some (Inl err) \<Rightarrow>
                      State_Monad.return
                        (Some (deny (rq_UID req) [''waiting for PVC %q to be bound: %v'', pvc_Name p] err))
                  | Some (Inr (pvName, volumeHandle)) \<Rightarrow>
                      (case buildPatch h pod (pvc_Name p)
                              (data\<lparr>PVName := pvName, VolumeHandle := volumeHandle\<rparr>) of
                         Inl err \<Rightarrow>
                           State_Monad.return (Some (deny (rq_UID req) [''building patch: %v''] err))
                       | Inr patch \<Rightarrow>
                           (case js_encodePatch J patch of
                              Inl err \<Rightarrow>
                                State_Monad.return (Some (deny (rq_UID req) [''marshaling patch: %v''] err))
                            | Inr patchBytes \<Rightarrow>
                                State_Monad.return
                                  (Some \<lparr>rs_UID = rq_UID req, rs_Allowed = True, rs_Code = None,
                                         rs_Message = [], rs_Cause = None, rs_Patch = Some patchBytes,
                                         rs_PatchType = Some ''JSONPatch''\<rparr>)))
                }
            }
        })"

text \<open>
  The HTTP handler: status 400 with the reason, or status 200 with the review that carries the
  response under the API version and kind of the request.
\<close>

datatype handle_response =
    BadRequest gerr
  | Review string string admissionResponse

definition handle ::
  "nat \<Rightarrow> json_pkg \<Rightarrow> ('w, 't) handler \<Rightarrow> string \<Rightarrow> ('w, handle_response option) state" where
  "handle fuel J h body =
     (case js_bindReview J body of
        Inl err \<Rightarrow> State_Monad.return (Some (BadRequest err))
      | Inr review \<Rightarrow>
          (case rv_Request review of
             None \<Rightarrow>
               State_Monad.return (Some (BadRequest (Errorf ''AdmissionReview.request is nil'' [])))
           | Some req \<Rightarrow> do {
               resp \<leftarrow> mutate fuel J h req;
               State_Monad.return
                 (case resp of
                    None \<Rightarrow> None
                  | Some r \<Rightarrow> Some (Review (rv_APIVersion review) (rv_Kind review) r))
             }))"


subsection \<open>Construction\<close>

text \<open>
  What New reads: the results of building the REST configuration and the two clients, the flag
  values, and the validation of the annotation prefix.
\<close>

record 'w webhook_setup =
  ws_GetConfig :: "gerr option"
  ws_typedClient :: "gerr option"
  ws_dynamicClient :: "gerr option"
  ws_kube :: "'w kube"
  ws_isDNS1123Subdomain :: "string \<Rightarrow> string list"
  ws_GetString :: "string \<Rightarrow> string"
  ws_GetInt :: "string \<Rightarrow> int"
  ws_GetDuration :: "string \<Rightarrow> int"
  ws_GetStringMapString :: "string \<Rightarrow> (string, string) gomap"

definition flagPVCNameTemplate :: string where "flagPVCNameTemplate = ''webhook-pvc-name-template''"
definition flagPVCSelectorTemplate :: string where
  "flagPVCSelectorTemplate = ''webhook-pvc-selector-template''"
definition flagMaxOwnerDepth :: string where "flagMaxOwnerDepth = ''webhook-max-owner-depth''"
definition flagDefaultRuntimeClass :: string where
  "flagDefaultRuntimeClass = ''webhook-default-runtime-class''"
definition flagRuntimeClassSuffix :: string where
  "flagRuntimeClassSuffix = ''webhook-runtime-class-suffix''"
definition flagAnnotationTemplates :: string where
  "flagAnnotationTemplates = ''webhook-annotation-templates''"
definition flagStateMountPath :: string where "flagStateMountPath = ''webhook-state-mount-path''"
definition flagBoundTimeout :: string where "flagBoundTimeout = ''webhook-bound-timeout''"

fun parseAnnotationTemplates ::
  "('t, templateData) text_template \<Rightarrow> (string, string) gomap \<Rightarrow> (string, 't) gomap \<Rightarrow>
   gerr + (string, 't) gomap" where
  "parseAnnotationTemplates T [] tmpls = Inr tmpls"
| "parseAnnotationTemplates T ((k, v) # raw) tmpls =
     (case parseTemplate T (''annotation/'' @ k) v of
        Inl err \<Rightarrow> Inl (Wrapf ''parsing annotation template for key %q: %w'' [k] err)
      | Inr t \<Rightarrow> parseAnnotationTemplates T raw (map_put tmpls k t))"

definition New ::
  "('t, templateData) text_template \<Rightarrow> 'w webhook_setup \<Rightarrow> gerr + ('w, 't) handler" where
  "New T W =
     (case ws_GetConfig W of
        Some err \<Rightarrow> Inl (Wrapf ''building in-cluster REST config: %w'' [] err)
      | None \<Rightarrow>
     (case ws_typedClient W of
        Some err \<Rightarrow> Inl (Wrapf ''building Kubernetes typed client: %w'' [] err)
      | None \<Rightarrow>
     (case ws_dynamicClient W of
        Some err \<Rightarrow> Inl (Wrapf ''building Kubernetes dynamic client: %w'' [] err)
      | None \<Rightarrow>
     (case parseTemplate T ''pvc-name'' (ws_GetString W flagPVCNameTemplate) of
        Inl err \<Rightarrow> Inl (Wrapf ''parsing --%s: %w'' [flagPVCNameTemplate] err)
      | Inr pvcNameTmpl \<Rightarrow>
     (case parseTemplate T ''pvc-selector'' (ws_GetString W flagPVCSelectorTemplate) of
        Inl err \<Rightarrow> Inl (Wrapf ''parsing --%s: %w'' [flagPVCSelectorTemplate] err)
      | Inr pvcSelectorTmpl \<Rightarrow>
     (case ResolvePrefix (ws_isDNS1123Subdomain W) (ws_GetString W) of
        Inl err \<Rightarrow> Inl err
      | Inr prefix \<Rightarrow>
     (case parseAnnotationTemplates T (ws_GetStringMapString W flagAnnotationTemplates) [] of
        Inl err \<Rightarrow> Inl err
      | Inr annotationTmpls \<Rightarrow>
          Inr \<lparr>h_kube = ws_kube W, h_template = T,
               h_pvcNameTmpl = Some pvcNameTmpl, h_pvcSelectorTmpl = Some pvcSelectorTmpl,
               h_pvcNameTmplAnnotation = Key prefix annotationSuffixPVCNameTemplate,
               h_annotationTmpls = annotationTmpls,
               h_maxOwnerDepth = ws_GetInt W flagMaxOwnerDepth,
               h_defaultRuntimeClass = ws_GetString W flagDefaultRuntimeClass,
               h_runtimeClassSuffix = ws_GetString W flagRuntimeClassSuffix,
               h_stateMountPath = ws_GetString W flagStateMountPath,
               h_boundTimeout = ws_GetDuration W flagBoundTimeout\<rparr>)))))))"

end
