(* ===== verification/Config_Patcher.thy ===== *)
theory Config_Patcher
  imports Go_Prelude
begin

text \<open>
  pkg/containerd/config/patcher.go and flags.go: detection of the missing sections of
  containerd's config.toml and the text appended for them.

  The TOML package (go-toml) is not part of the repository: \<open>toml_Unmarshal\<close> and
  \<open>toml_Marshal\<close> are parameters. A parsed document is a tree of tables; the order of the
  entries of a table is the iteration order of the Go map in one run.
\<close>


section \<open>Data\<close>

datatype toml =
    Table "(string \<times> toml) list"
  | Str string
  | Integer int
  | Boolean bool
  | Array "toml list"
  | Other string

type_synonym table = "(string, toml) gomap"

record RuntimeEntry =
  rt_Name :: string
  rt_BaseRuntimeName :: string

record Params =
  ConfigPath :: string
  SocketPath :: string
  Runtimes :: "RuntimeEntry list"

datatype missingSection = ProxyPlugin | Runtime string "table option"

record toml_pkg =
  toml_Unmarshal :: "string \<Rightarrow> gerr + table"
  toml_Marshal :: "table \<Rightarrow> gerr + string"

text \<open>Reading a file, and the handle of a file opened for appending.\<close>

record 'w file_api =
  f_ReadFile :: "string \<Rightarrow> ('w, gerr + string) state"
  f_OpenAppend :: "string \<Rightarrow> ('w, gerr option) state"
  f_WriteString :: "string \<Rightarrow> string \<Rightarrow> ('w, gerr option) state"
  f_Close :: "string \<Rightarrow> ('w, unit) state"


section \<open>Definitions\<close>

abbreviation newline :: string where "newline \<equiv> [CHR 0x0A]"
abbreviation dquote :: string where "dquote \<equiv> [CHR 0x22]"

definition snippetHeader :: string where
  "snippetHeader = newline @ ''# BEGIN pv-snapshotter managed block'' @ newline"

definition snippetFooter :: string where
  "snippetFooter = ''# END pv-snapshotter managed block'' @ newline"

definition criKeys :: "string list" where
  "criKeys = [''io.containerd.grpc.v1.cri'', ''io.containerd.cri.v1.runtime'']"

text \<open>\<^verbatim>\<open>m[k].(map[string]any)\<close>: \<open>None\<close> when the key is missing or not a table.\<close>

definition subtable :: "table \<Rightarrow> string \<Rightarrow> table option" where
  "subtable m k = (case map_of m k of Some (Table t) \<Rightarrow> Some t | _ \<Rightarrow> None)"

fun hasKey :: "table \<Rightarrow> string list \<Rightarrow> bool" where
  "hasKey cur [] = True"
| "hasKey cur (seg # path) =
     (case map_of cur seg of
        None \<Rightarrow> False
      | Some v \<Rightarrow>
          if path = [] then True
          else (case v of Table next \<Rightarrow> hasKey next path | _ \<Rightarrow> False))"

text \<open>The table of runtimes under one CRI plugin key.\<close>

definition runtimesOf :: "table \<Rightarrow> string \<Rightarrow> table option" where
  "runtimesOf plugins criKey =
     (case subtable plugins criKey of
        None \<Rightarrow> None
      | Some cri \<Rightarrow>
          (case subtable cri ''containerd'' of
             None \<Rightarrow> None
           | Some ctrd \<Rightarrow> subtable ctrd ''runtimes''))"

fun anyRuntime :: "table \<Rightarrow> string list \<Rightarrow> string \<Rightarrow> bool" where
  "anyRuntime plugins [] name = False"
| "anyRuntime plugins (criKey # keys) name =
     (case runtimesOf plugins criKey of
        None \<Rightarrow> anyRuntime plugins keys name
      | Some runtimes \<Rightarrow>
          if map_of runtimes name \<noteq> None then True else anyRuntime plugins keys name)"

definition hasRuntimeEntry :: "table \<Rightarrow> string \<Rightarrow> bool" where
  "hasRuntimeEntry tree name =
     (case subtable tree ''plugins'' of
        None \<Rightarrow> False
      | Some plugins \<Rightarrow> anyRuntime plugins criKeys name)"

fun deepCopyMap :: "table \<Rightarrow> table" where
  "deepCopyMap [] = []"
| "deepCopyMap ((k, Table sub) # m) = (k, Table (deepCopyMap sub)) # deepCopyMap m"
| "deepCopyMap ((k, v) # m) = (k, v) # deepCopyMap m"

fun firstBaseRuntime :: "table \<Rightarrow> string list \<Rightarrow> string \<Rightarrow> table option" where
  "firstBaseRuntime plugins [] baseName = None"
| "firstBaseRuntime plugins (criKey # keys) baseName =
     (case runtimesOf plugins criKey of
        None \<Rightarrow> firstBaseRuntime plugins keys baseName
      | Some runtimes \<Rightarrow>
          (case subtable runtimes baseName of
             None \<Rightarrow> firstBaseRuntime plugins keys baseName
           | Some base \<Rightarrow> Some (deepCopyMap base)))"

definition lookupBaseRuntime :: "table \<Rightarrow> string \<Rightarrow> table option" where
  "lookupBaseRuntime tree baseName =
     (if baseName = [] then None
      else case subtable tree ''plugins'' of
        None \<Rightarrow> None
      | Some plugins \<Rightarrow> firstBaseRuntime plugins criKeys baseName)"

fun missingRuntimes :: "table \<Rightarrow> RuntimeEntry list \<Rightarrow> missingSection list" where
  "missingRuntimes tree [] = []"
| "missingRuntimes tree (rt # rts) =
     (if \<not> hasRuntimeEntry tree (rt_Name rt)
      then Runtime (rt_Name rt) (lookupBaseRuntime tree (rt_BaseRuntimeName rt)) # missingRuntimes tree rts
      else missingRuntimes tree rts)"

definition collectMissing :: "table \<Rightarrow> Params \<Rightarrow> missingSection list" where
  "collectMissing tree params =
     (if \<not> hasKey tree [''proxy_plugins'', ''pv-snapshotter''] then [ProxyPlugin] else []) @
     missingRuntimes tree (Runtimes params)"

fun indentLines :: "string list \<Rightarrow> string \<Rightarrow> string" where
  "indentLines [] prefix = []"
| "indentLines (line # lines) prefix =
     (if length (trim_space line) = 0 then newline @ indentLines lines prefix
      else prefix @ line @ newline @ indentLines lines prefix)"

definition indentTOML :: "string \<Rightarrow> string \<Rightarrow> string" where
  "indentTOML b prefix = indentLines (split_all b (CHR 0x0A)) prefix"

definition criPrefix :: string where
  "criPrefix = ''plugins.'' @ dquote @ ''io.containerd.grpc.v1.cri'' @ dquote @ ''.containerd.runtimes.''"

text \<open>The configuration of a new runtime: a copy of the base with its snapshotter overridden.\<close>

definition runtimeConfig :: "table option \<Rightarrow> table" where
  "runtimeConfig baseConfig =
     map_put (case baseConfig of
                Some cfg \<Rightarrow> cfg
              | None \<Rightarrow> [(''runtime_type'', Str ''io.containerd.runc.v2'')])
       ''snapshotter'' (Str ''pv-snapshotter'')"

fun is_table :: "toml \<Rightarrow> bool" where
  "is_table (Table t) = True"
| "is_table _ = False"

definition scalarsOf :: "table \<Rightarrow> table" where
  "scalarsOf cfg = filter (\<lambda>(k, v). \<not> is_table v) cfg"

fun subtablesOf :: "table \<Rightarrow> (string \<times> table) list" where
  "subtablesOf [] = []"
| "subtablesOf ((k, Table t) # m) = (k, t) # subtablesOf m"
| "subtablesOf ((k, v) # m) = subtablesOf m"

definition marshalIndented :: "toml_pkg \<Rightarrow> table \<Rightarrow> string" where
  "marshalIndented TP t =
     (case toml_Marshal TP t of Inl _ \<Rightarrow> [] | Inr b \<Rightarrow> indentTOML b ''  '')"

definition runtimeSnippet :: "toml_pkg \<Rightarrow> string \<Rightarrow> table option \<Rightarrow> string" where
  "runtimeSnippet TP name baseConfig =
     (let cfg = runtimeConfig baseConfig; scalars = scalarsOf cfg in
      newline @ ''['' @ criPrefix @ name @ '']'' @ newline @
      (if length scalars > 0 then marshalIndented TP scalars else []) @
      newline @
      concat (map (\<lambda>(subKey, subMap).
                ''['' @ criPrefix @ name @ ''.'' @ subKey @ '']'' @ newline @
                marshalIndented TP subMap @ newline) (subtablesOf cfg)))"

definition proxyPluginSnippet :: "string \<Rightarrow> string" where
  "proxyPluginSnippet socketPath =
     newline @ ''[proxy_plugins.pv-snapshotter]'' @ newline @
     ''  type    = '' @ dquote @ ''snapshot'' @ dquote @ newline @
     ''  address = '' @ quote socketPath @ newline @ newline"

fun sectionSnippet :: "toml_pkg \<Rightarrow> string \<Rightarrow> missingSection \<Rightarrow> string" where
  "sectionSnippet TP socketPath ProxyPlugin = proxyPluginSnippet socketPath"
| "sectionSnippet TP socketPath (Runtime name baseConfig) = runtimeSnippet TP name baseConfig"

definition buildSnippet :: "toml_pkg \<Rightarrow> string \<Rightarrow> missingSection list \<Rightarrow> string" where
  "buildSnippet TP socketPath sections =
     snippetHeader @ concat (map (sectionSnippet TP socketPath) sections) @ snippetFooter"

definition appendToFile :: "'w file_api \<Rightarrow> string \<Rightarrow> string \<Rightarrow> ('w, gerr option) state" where
  "appendToFile F path text =
     do {
       e \<leftarrow> f_OpenAppend F path;
       case e of
         Some err \<Rightarrow> State_Monad.return (Some (Wrapf ''opening %s for append: %w'' [path] err))
       | None \<Rightarrow> do {
           e' \<leftarrow> f_WriteString F path text;
           _ \<leftarrow> f_Close F path;
           State_Monad.return
             (case e' of Some err \<Rightarrow> Some (Wrapf ''writing to %s: %w'' [path] err) | None \<Rightarrow> None)
         }
     }"

definition Apply :: "toml_pkg \<Rightarrow> 'w file_api \<Rightarrow> Params \<Rightarrow> ('w, gerr + bool) state" where
  "Apply TP F params =
     do {
       r \<leftarrow> f_ReadFile F (ConfigPath params);
       case r of
         Inl err \<Rightarrow> State_Monad.return (Inl (Wrapf ''reading %s: %w'' [ConfigPath params] err))
       | Inr raw \<Rightarrow>
           (case toml_Unmarshal TP raw of
              Inl err \<Rightarrow> State_Monad.return (Inl (Wrapf ''parsing %s: %w'' [ConfigPath params] err))
            | Inr tree \<Rightarrow>
                (let missing = collectMissing tree params in
                 if length missing = 0 then State_Monad.return (Inr False)
                 else do {
                   e \<leftarrow> appendToFile F (ConfigPath params) (buildSnippet TP (SocketPath params) missing);
                   State_Monad.return (case e of Some err \<Rightarrow> Inl err | None \<Rightarrow> Inr True)
                 }))
     }"


subsection \<open>Flags\<close>

definition flagConfigPath :: string where "flagConfigPath = ''config-path''"
definition flagRuntimeClasses :: string where "flagRuntimeClasses = ''runtime-classes''"
definition flagRuntimeClassSuffix_config :: string where "flagRuntimeClassSuffix_config = ''runtime-class-suffix''"
definition flagSocketPath :: string where "flagSocketPath = ''socket-path''"
definition defaultConfigPath :: string where "defaultConfigPath = ''/etc/containerd/config.toml''"
definition defaultRuntimeClassSuffix_config :: string where "defaultRuntimeClassSuffix_config = ''-pv''"
definition defaultUnixSocketPath_config :: string where
  "defaultUnixSocketPath_config = ''/var/run/pv-snapshotter/daemon.sock''"

fun runtimeEntries :: "string list \<Rightarrow> string \<Rightarrow> RuntimeEntry list" where
  "runtimeEntries [] suffix = []"
| "runtimeEntries (b # bases) suffix =
     (let base = trim_space b in
      if base = [] then runtimeEntries bases suffix
      else \<lparr>rt_Name = base @ suffix, rt_BaseRuntimeName = base\<rparr> # runtimeEntries bases suffix)"

definition GetParams :: "(string \<Rightarrow> string) \<Rightarrow> (string \<Rightarrow> string list) \<Rightarrow> Params" where
  "GetParams getString getStringSlice =
     \<lparr>ConfigPath = getString flagConfigPath,
      SocketPath = getString flagSocketPath,
      Runtimes = runtimeEntries (getStringSlice flagRuntimeClasses) (getString flagRuntimeClassSuffix_config)\<rparr>"

definition GetSocketPath :: "(string \<Rightarrow> string) \<Rightarrow> string" where
  "GetSocketPath getString = getString flagSocketPath"

end
