(* ===== verification/Config_Sidecar.thy ===== *)
theory Config_Sidecar
  imports Config_Patcher
begin

text \<open>
  pkg/containerd/config/wait.go and nsenter.go, and the config subcommand of
  cmd/daemon/config.go: wait for the daemon, patch config.toml, restart containerd when the
  file changed, block until termination.

  The HTTP client, the timer and process creation are parameters; \<open>rd_Wait d\<close> is the select on
  \<^verbatim>\<open>ctx.Done()\<close> and \<^verbatim>\<open>time.After(d)\<close>, with \<open>Some e\<close> for a cancelled context.
\<close>


section \<open>Readiness\<close>

definition waitPollInterval :: int where "waitPollInterval = 2 * 1000000000"
definition waitHTTPTimeout :: int where "waitHTTPTimeout = waitPollInterval"

text \<open>What a client is configured with: its timeout and the address every connection goes to.\<close>

record http_client =
  hc_Timeout :: int
  hc_Network :: string
  hc_Address :: string

definition unixHTTPClient :: "string \<Rightarrow> http_client" where
  "unixHTTPClient socketPath =
     \<lparr>hc_Timeout = waitHTTPTimeout, hc_Network = ''unix'', hc_Address = socketPath\<rparr>"

text \<open>\<open>rd_Do\<close> sends a GET request for a URL with a client and gives the status code.\<close>

record 'w ready_api =
  rd_NewRequest :: "string \<Rightarrow> gerr option"
  rd_Do :: "http_client \<Rightarrow> string \<Rightarrow> ('w, gerr + nat) state"
  rd_Wait :: "int \<Rightarrow> ('w, gerr option) state"

definition probeReadyz :: "'w ready_api \<Rightarrow> http_client \<Rightarrow> ('w, gerr option) state" where
  "probeReadyz R client =
     (case rd_NewRequest R ''http://localhost/readyz'' of
        Some err \<Rightarrow> State_Monad.return (Some (Wrapf ''build request: %w'' [] err))
      | None \<Rightarrow> do {
          r \<leftarrow> rd_Do R client ''http://localhost/readyz'';
          State_Monad.return
            (case r of
               Inl err \<Rightarrow> Some (Wrapf ''do request: %w'' [] err)
             | Inr code \<Rightarrow>
                 if code \<noteq> 200 then Some (Errorf ''readyz returned %d'' [itoa code]) else None)
        })"

definition waitRetryBaseLevel :: int where "waitRetryBaseLevel = 10"

definition retryLevel :: "nat \<Rightarrow> int" where
  "retryLevel attempts =
     (let level = waitRetryBaseLevel - int attempts in if level < 1 then 1 else level)"

text \<open>
  The loop of WaitUntilReady, with the verbosity levels of its retry messages. It has no
  bound of its own, so the model counts iterations: \<open>None\<close> when \<open>fuel\<close> runs out.
\<close>

fun waitReadyLoop ::
  "nat \<Rightarrow> 'w ready_api \<Rightarrow> http_client \<Rightarrow> nat \<Rightarrow> int list \<Rightarrow> ('w, (gerr option \<times> int list) option) state" where
  "waitReadyLoop 0 R client attempts levels = State_Monad.return None"
| "waitReadyLoop (Suc fuel) R client attempts levels =
     do {
       e \<leftarrow> probeReadyz R client;
       case e of
         None \<Rightarrow> State_Monad.return (Some (None, levels))
       | Some _ \<Rightarrow> do {
           let levels' = levels @ [retryLevel attempts];
           c \<leftarrow> rd_Wait R waitPollInterval;
           case c of
             Some err \<Rightarrow> State_Monad.return (Some (Some err, levels'))
           | None \<Rightarrow> waitReadyLoop fuel R client (attempts + 1) levels'
         }
     }"

definition WaitUntilReady ::
  "nat \<Rightarrow> 'w ready_api \<Rightarrow> string \<Rightarrow> ('w, (gerr option \<times> int list) option) state" where
  "WaitUntilReady fuel R socketPath = waitReadyLoop fuel R (unixHTTPClient socketPath) 0 []"


section \<open>Restarting containerd\<close>

definition nsenterEnvKey :: string where "nsenterEnvKey = ''_PV_NSENTER''"

text \<open>What the C constructor sees of the host: the results of its system calls.\<close>

record host_ns =
  ns_open_mnt :: "string option"
  ns_setns :: "string option"
  ns_executable :: "string \<Rightarrow> bool"
  ns_execv :: "string \<Rightarrow> string option"

text \<open>
  How the constructor ends: it returns to the Go runtime, exits with status 1, or the process
  image is replaced.
\<close>

datatype preamble_result =
    ContinueToGo
  | Exit1 "string list"
  | ExecReplaced string "string list"

fun firstExecutable :: "(string \<Rightarrow> bool) \<Rightarrow> string list \<Rightarrow> string option" where
  "firstExecutable ok [] = None"
| "firstExecutable ok (c # cs) = (if ok c then Some c else firstExecutable ok cs)"

definition nsenter_preamble :: "host_ns \<Rightarrow> (string, string) gomap \<Rightarrow> preamble_result" where
  "nsenter_preamble H env =
     (case map_of env nsenterEnvKey of
        None \<Rightarrow> ContinueToGo
      | Some trigger \<Rightarrow>
          if trigger = [] then ContinueToGo
          else case ns_open_mnt H of
            Some err \<Rightarrow> Exit1 [''open /proc/1/ns/mnt: %s'', err]
          | None \<Rightarrow>
              (case ns_setns H of
                 Some err \<Rightarrow> Exit1 [''setns CLONE_NEWNS: %s'', err]
               | None \<Rightarrow>
                   (case firstExecutable (ns_executable H) [''/usr/bin/systemctl'', ''/bin/systemctl''] of
                      None \<Rightarrow> Exit1 [''systemctl not found'']
                    | Some systemctl \<Rightarrow>
                        (case ns_execv H systemctl of
                           Some err \<Rightarrow> Exit1 [''execv %s: %s'', systemctl, err]
                         | None \<Rightarrow>
                             ExecReplaced systemctl [''systemctl'', ''restart'', ''containerd'']))))"

text \<open>
  Running the binary again: \<open>rs_Run env\<close> starts it with the environment \<open>env\<close>, waits and
  reports a failed start or a non-zero exit. \<^verbatim>\<open>exec.Cmd\<close> keeps the last value of a variable
  that is set twice.
\<close>

record 'w restart_api =
  rs_Executable :: "gerr option"
  rs_Environ :: "(string, string) gomap"
  rs_Run :: "(string, string) gomap \<Rightarrow> ('w, gerr option) state"

definition childEnv :: "(string, string) gomap \<Rightarrow> (string, string) gomap" where
  "childEnv environ = map_put environ nsenterEnvKey ''1''"

definition RestartContainerd :: "'w restart_api \<Rightarrow> ('w, gerr option) state" where
  "RestartContainerd X =
     (case rs_Executable X of
        Some err \<Rightarrow> State_Monad.return (Some (Wrapf ''resolving executable path: %w'' [] err))
      | None \<Rightarrow> do {
          e \<leftarrow> rs_Run X (childEnv (rs_Environ X));
          State_Monad.return
            (case e of
               Some err \<Rightarrow> Some (Wrapf ''containerd restart via nsenter preamble: %w'' [] err)
             | None \<Rightarrow> None)
        })"


section \<open>The config subcommand\<close>

record 'w sidecar =
  sc_baseContext :: "gerr option"
  sc_ready :: "'w ready_api"
  sc_toml :: toml_pkg
  sc_files :: "'w file_api"
  sc_restart :: "'w restart_api"
  sc_getString :: "string \<Rightarrow> string"
  sc_getStringSlice :: "string \<Rightarrow> string list"

text \<open>
  RunE: \<open>Inl e\<close> is a returned error; \<open>Inr restarted\<close> means that the command has reached the
  final block on \<^verbatim>\<open>ctx.Done()\<close>, after which it returns nil. \<open>None\<close>: out of fuel.
\<close>

definition configRunE :: "nat \<Rightarrow> 'w sidecar \<Rightarrow> ('w, (gerr + bool) option) state" where
  "configRunE fuel S =
     (case sc_baseContext S of
        Some err \<Rightarrow> State_Monad.return (Some (Inl (Wrapf ''initialising base context: %w'' [] err)))
      | None \<Rightarrow> do {
          let socketPath = GetSocketPath (sc_getString S);
          r \<leftarrow> WaitUntilReady fuel (sc_ready S) socketPath;
          case r of
            None \<Rightarrow> State_Monad.return None
          | Some (Some err, _) \<Rightarrow>
              State_Monad.return (Some (Inl (Wrapf ''waiting for pv-snapshotter daemon: %w'' [] err)))
          | Some (None, _) \<Rightarrow> do {
              let params = GetParams (sc_getString S) (sc_getStringSlice S);
              a \<leftarrow> Apply (sc_toml S) (sc_files S) params;
              case a of
                Inl err \<Rightarrow>
                  State_Monad.return (Some (Inl (Wrapf ''applying containerd config: %w'' [] err)))
              | Inr modified \<Rightarrow>
                  if modified then do {
                    e \<leftarrow> RestartContainerd (sc_restart S);
                    State_Monad.return
                      (Some (case e of
                               Some err \<Rightarrow> Inl (Wrapf ''restarting containerd: %w'' [] err)
                             | None \<Rightarrow> Inr True))
                  }
                  else State_Monad.return (Some (Inr False))
            }
        })"

definition runtimeNames :: "RuntimeEntry list \<Rightarrow> string list" where
  "runtimeNames rts = map rt_Name rts"

end
