(* ===== verification/Flags.thy ===== *)
theory Flags
  imports Service Webhook Config_Sidecar
begin

text \<open>
  The command-line flags of the daemon and of the config subcommand: what the four RegisterFlags
  functions (prefix.go, service.go, mutating.go, flags.go) register, with types and defaults, and
  how the values that viper gives reach the constructors. Usage texts are left out.

  pflag and viper are not part of the repository: a RegisterFlags function is the list of the
  registrations it makes, and viper is the record of its getters.
\<close>


section \<open>Definitions\<close>

datatype flag_value =
    FString string
  | FBool bool
  | FInt int
  | FDuration int
  | FStringSlice "string list"
  | FStringToString "(string, string) gomap"

type_synonym flag_set = "(string \<times> flag_value) list"

record viper =
  vp_GetString :: "string \<Rightarrow> string"
  vp_GetBool :: "string \<Rightarrow> bool"
  vp_GetInt :: "string \<Rightarrow> int"
  vp_GetDuration :: "string \<Rightarrow> int"
  vp_GetStringSlice :: "string \<Rightarrow> string list"
  vp_GetStringMapString :: "string \<Rightarrow> (string, string) gomap"


subsection \<open>Annotation prefix\<close>

definition annotation_RegisterFlags :: flag_set where
  "annotation_RegisterFlags = [(flagPrefix, FString defaultPrefix)]"


subsection \<open>Snapshotter\<close>

definition flagUnixSocketPath :: string where "flagUnixSocketPath = ''unix-socket-path''"
definition defaultUnixSocketPath :: string where
  "defaultUnixSocketPath = ''/var/run/pv-snapshotter/daemon.sock''"
definition flagShareOverlayfsLowers :: string where "flagShareOverlayfsLowers = ''share-overlayfs-lowers''"
definition defaultContainerdSocket :: string where
  "defaultContainerdSocket = ''/run/containerd/containerd.sock''"

definition snapshotter_RegisterFlags :: flag_set where
  "snapshotter_RegisterFlags =
     [(flagUnixSocketPath, FString defaultUnixSocketPath),
      (flagContainerdSocket, FString defaultContainerdSocket),
      (flagShareOverlayfsLowers, FBool False)]"

definition GetUnixSocketPath :: "viper \<Rightarrow> string" where
  "GetUnixSocketPath V = vp_GetString V flagUnixSocketPath"


subsection \<open>Webhook\<close>

definition flagEnabled :: string where "flagEnabled = ''webhook-enabled''"
definition defaultPVCNameTemplate :: string where "defaultPVCNameTemplate = ''{{.OwnerName}}''"
definition defaultPVCSelectorTemplate :: string where "defaultPVCSelectorTemplate = []"
definition defaultMaxOwnerDepth :: int where "defaultMaxOwnerDepth = 2"
definition defaultDefaultRuntimeClass :: string where "defaultDefaultRuntimeClass = []"
definition defaultRuntimeClassSuffix :: string where "defaultRuntimeClassSuffix = ''-pv''"
definition defaultStateMountPath :: string where "defaultStateMountPath = ''/.platform/state''"
definition defaultBoundTimeout :: int where "defaultBoundTimeout = 30 * 1000000000"
definition defaultEnabled :: bool where "defaultEnabled = True"

definition webhook_RegisterFlags :: flag_set where
  "webhook_RegisterFlags =
     [(flagPVCNameTemplate, FString defaultPVCNameTemplate),
      (flagPVCSelectorTemplate, FString defaultPVCSelectorTemplate),
      (flagMaxOwnerDepth, FInt defaultMaxOwnerDepth),
      (flagDefaultRuntimeClass, FString defaultDefaultRuntimeClass),
      (flagRuntimeClassSuffix, FString defaultRuntimeClassSuffix),
      (flagAnnotationTemplates, FStringToString defaultAnnotationTemplates),
      (flagStateMountPath, FString defaultStateMountPath),
      (flagBoundTimeout, FDuration defaultBoundTimeout),
      (flagEnabled, FBool defaultEnabled)]"

definition Enabled :: "viper \<Rightarrow> bool" where
  "Enabled V = vp_GetBool V flagEnabled"


subsection \<open>Config subcommand\<close>

definition config_RegisterFlags :: flag_set where
  "config_RegisterFlags =
     [(flagConfigPath, FString defaultConfigPath),
      (flagRuntimeClasses, FStringSlice []),
      (flagRuntimeClassSuffix_config, FString defaultRuntimeClassSuffix_config),
      (flagSocketPath, FString defaultUnixSocketPath_config)]"


subsection \<open>The two commands\<close>

text \<open>What PrepareFlags is given for the root command and for the config subcommand.\<close>

definition rootFlags :: flag_set where
  "rootFlags = annotation_RegisterFlags @ snapshotter_RegisterFlags @ webhook_RegisterFlags"

definition configFlags :: flag_set where
  "configFlags = config_RegisterFlags"

text \<open>The constructors of the service, the webhook and the sidecar with the getters of viper.\<close>

definition serviceWith :: "viper \<Rightarrow> 'w constructors \<Rightarrow> 'w constructors" where
  "serviceWith V K =
     K\<lparr>k_getString := vp_GetString V, k_shareOverlayfsLowers := vp_GetBool V flagShareOverlayfsLowers\<rparr>"

definition webhookWith :: "viper \<Rightarrow> 'w webhook_setup \<Rightarrow> 'w webhook_setup" where
  "webhookWith V W =
     W\<lparr>ws_GetString := vp_GetString V, ws_GetInt := vp_GetInt V, ws_GetDuration := vp_GetDuration V,
       ws_GetStringMapString := vp_GetStringMapString V\<rparr>"

definition sidecarWith :: "viper \<Rightarrow> 'w sidecar \<Rightarrow> 'w sidecar" where
  "sidecarWith V S = S\<lparr>sc_getString := vp_GetString V, sc_getStringSlice := vp_GetStringSlice V\<rparr>"


section \<open>Registration and reads\<close>

lemmas flag_names = flagPrefix_def flagUnixSocketPath_def flagContainerdSocket_def flagShareOverlayfsLowers_def
  flagPVCNameTemplate_def flagPVCSelectorTemplate_def flagMaxOwnerDepth_def flagDefaultRuntimeClass_def
  flagRuntimeClassSuffix_def flagAnnotationTemplates_def flagStateMountPath_def flagBoundTimeout_def flagEnabled_def
  flagConfigPath_def flagRuntimeClasses_def flagRuntimeClassSuffix_config_def flagSocketPath_def

lemmas flag_sets = rootFlags_def configFlags_def annotation_RegisterFlags_def snapshotter_RegisterFlags_def
  webhook_RegisterFlags_def config_RegisterFlags_def

text \<open>Two sources of configuration that agree on a flag, read at its type.\<close>

fun sameRead :: "viper \<Rightarrow> viper \<Rightarrow> string \<times> flag_value \<Rightarrow> bool" where
  "sameRead V V' (n, FString _) = (vp_GetString V n = vp_GetString V' n)"
| "sameRead V V' (n, FBool _) = (vp_GetBool V n = vp_GetBool V' n)"
| "sameRead V V' (n, FInt _) = (vp_GetInt V n = vp_GetInt V' n)"
| "sameRead V V' (n, FDuration _) = (vp_GetDuration V n = vp_GetDuration V' n)"
| "sameRead V V' (n, FStringSlice _) = (vp_GetStringSlice V n = vp_GetStringSlice V' n)"
| "sameRead V V' (n, FStringToString _) = (vp_GetStringMapString V n = vp_GetStringMapString V' n)"

text \<open>A source that gives the registered default of a flag.\<close>

fun readsDefault :: "viper \<Rightarrow> string \<times> flag_value \<Rightarrow> bool" where
  "readsDefault V (n, FString s) = (vp_GetString V n = s)"
| "readsDefault V (n, FBool b) = (vp_GetBool V n = b)"
| "readsDefault V (n, FInt i) = (vp_GetInt V n = i)"
| "readsDefault V (n, FDuration d) = (vp_GetDuration V n = d)"
| "readsDefault V (n, FStringSlice ss) = (vp_GetStringSlice V n = ss)"
| "readsDefault V (n, FStringToString m) = (vp_GetStringMapString V n = m)"

lemma With_simps [simp]:
  "k_UnmarshalKey (serviceWith V K) = k_UnmarshalKey K" "k_NewSnapshotter (serviceWith V K) = k_NewSnapshotter K"
  "k_SupportsIDMappedMounts (serviceWith V K) = k_SupportsIDMappedMounts K" "k_NewClient (serviceWith V K) = k_NewClient K"
  "k_asCleaner (serviceWith V K) = k_asCleaner K" "k_isDNS1123Subdomain (serviceWith V K) = k_isDNS1123Subdomain K"
  "k_getString (serviceWith V K) = vp_GetString V"
  "k_shareOverlayfsLowers (serviceWith V K) = vp_GetBool V flagShareOverlayfsLowers"
  "ws_GetConfig (webhookWith V W) = ws_GetConfig W" "ws_typedClient (webhookWith V W) = ws_typedClient W"
  "ws_dynamicClient (webhookWith V W) = ws_dynamicClient W" "ws_kube (webhookWith V W) = ws_kube W"
  "ws_isDNS1123Subdomain (webhookWith V W) = ws_isDNS1123Subdomain W" "ws_GetString (webhookWith V W) = vp_GetString V"
  "ws_GetInt (webhookWith V W) = vp_GetInt V" "ws_GetDuration (webhookWith V W) = vp_GetDuration V"
  "ws_GetStringMapString (webhookWith V W) = vp_GetStringMapString V"
  "sc_baseContext (sidecarWith V S) = sc_baseContext S" "sc_ready (sidecarWith V S) = sc_ready S"
  "sc_toml (sidecarWith V S) = sc_toml S" "sc_files (sidecarWith V S) = sc_files S"
  "sc_restart (sidecarWith V S) = sc_restart S" "sc_getString (sidecarWith V S) = vp_GetString V"
  "sc_getStringSlice (sidecarWith V S) = vp_GetStringSlice V"
  by (simp_all add: serviceWith_def webhookWith_def sidecarWith_def)

lemma root_reads:
  assumes "\<forall>f \<in> set rootFlags. sameRead V V' f"
  shows "ResolvePrefix d (vp_GetString V) = ResolvePrefix d (vp_GetString V')"
    and "newResolver d (vp_GetString V) cl = newResolver d (vp_GetString V') cl"
    and "vp_GetString V flagContainerdSocket = vp_GetString V' flagContainerdSocket"
    and "vp_GetBool V flagShareOverlayfsLowers = vp_GetBool V' flagShareOverlayfsLowers"
    and "vp_GetString V flagPVCNameTemplate = vp_GetString V' flagPVCNameTemplate"
    and "vp_GetString V flagPVCSelectorTemplate = vp_GetString V' flagPVCSelectorTemplate"
    and "vp_GetInt V flagMaxOwnerDepth = vp_GetInt V' flagMaxOwnerDepth"
    and "vp_GetString V flagDefaultRuntimeClass = vp_GetString V' flagDefaultRuntimeClass"
    and "vp_GetString V flagRuntimeClassSuffix = vp_GetString V' flagRuntimeClassSuffix"
    and "vp_GetStringMapString V flagAnnotationTemplates = vp_GetStringMapString V' flagAnnotationTemplates"
    and "vp_GetString V flagStateMountPath = vp_GetString V' flagStateMountPath"
    and "vp_GetDuration V flagBoundTimeout = vp_GetDuration V' flagBoundTimeout"
  using assms by (simp_all add: flag_sets ResolvePrefix_def newResolver_def)

lemma New_reads:
  "\<forall>f \<in> set rootFlags. sameRead V V' f \<Longrightarrow> New T (webhookWith V W) = New T (webhookWith V' W)"
  unfolding New_def With_simps by (simp only: root_reads [of V V'])

lemma RegisterGRPCService_reads:
  "\<forall>f \<in> set rootFlags. sameRead V V' f \<Longrightarrow>
   RegisterGRPCService (serviceWith V K) snFirst nodeName = RegisterGRPCService (serviceWith V' K) snFirst nodeName"
  unfolding RegisterGRPCService_def createNativeOverlaySnapshotter_def With_simps
  by (simp only: root_reads [of V V'])

lemma configRunE_reads:
  assumes "\<forall>f \<in> set configFlags. sameRead V V' f"
  shows "configRunE fuel (sidecarWith V S) = configRunE fuel (sidecarWith V' S)"
proof -
  have params: "GetParams (vp_GetString V) (vp_GetStringSlice V) = GetParams (vp_GetString V') (vp_GetStringSlice V')"
    and socket: "GetSocketPath (vp_GetString V) = GetSocketPath (vp_GetString V')"
    using assms by (simp_all add: flag_sets GetParams_def GetSocketPath_def)
  show ?thesis unfolding configRunE_def With_simps params socket by (rule refl)
qed

lemma root_getters:
  "\<forall>f \<in> set rootFlags. sameRead V V' f \<Longrightarrow> Enabled V = Enabled V' \<and> GetUnixSocketPath V = GetUnixSocketPath V'"
  by (simp add: flag_sets Enabled_def GetUnixSocketPath_def)

text \<open>The configuration that gives every registered flag its default.\<close>

definition defaultViper :: viper where
  "defaultViper =
     \<lparr>vp_GetString = (\<lambda>n. case map_of (rootFlags @ configFlags) n of Some (FString v) \<Rightarrow> v | _ \<Rightarrow> []),
      vp_GetBool = (\<lambda>n. map_of (rootFlags @ configFlags) n = Some (FBool True)),
      vp_GetInt = (\<lambda>n. case map_of (rootFlags @ configFlags) n of Some (FInt v) \<Rightarrow> v | _ \<Rightarrow> 0),
      vp_GetDuration = (\<lambda>n. case map_of (rootFlags @ configFlags) n of Some (FDuration v) \<Rightarrow> v | _ \<Rightarrow> 0),
      vp_GetStringSlice = (\<lambda>n. case map_of (rootFlags @ configFlags) n of Some (FStringSlice v) \<Rightarrow> v | _ \<Rightarrow> []),
      vp_GetStringMapString = (\<lambda>n. case map_of (rootFlags @ configFlags) n of Some (FStringToString v) \<Rightarrow> v | _ \<Rightarrow> [])\<rparr>"

end
