(* ===== verification/Daemon.thy ===== *)
theory Daemon
  imports Flags
begin

text \<open>
  cmd/daemon/main.go: the start-up sequence of the daemon, and the HTTP routes that the service
  (service.go) and the webhook (mutating.go) register.

  The application framework is not part of the repository. \<open>dm_BaseContext\<close> is its BaseContext:
  given the flags of the command and the getter of the listening address it gives the node name
  and the configuration, or an error. \<open>dm_Start\<close> starts the server with the gRPC service, the
  routes and the scrape hook that were registered; \<open>dm_Done\<close> is the block on the context, during
  which the server calls them.
\<close>


section \<open>Definitions\<close>

subsection \<open>Routes\<close>

text \<open>What a handler reads of a request: its context, the path parameter and the body.\<close>

record http_request =
  hr_Context :: ctx
  hr_leaseID :: string
  hr_Body :: string

datatype http_answer =
    LeaseAnswer http_response
  | WebhookAnswer "handle_response option"

record 'w route =
  ro_Method :: string
  ro_Path :: string
  ro_Handler :: "http_request \<Rightarrow> ('w node, http_answer) state"

definition answerLeases :: "('w node, http_response) state \<Rightarrow> ('w node, http_answer) state" where
  "answerLeases m = do { r \<leftarrow> m; State_Monad.return (LeaseAnswer r) }"

definition snapshotter_RegisterRoute :: "'w snapshotter \<Rightarrow> 'w route list" where
  "snapshotter_RegisterRoute sn =
     [\<lparr>ro_Method = ''GET'', ro_Path = ''/dedup/leases'',
       ro_Handler = (\<lambda>rq. answerLeases (handleListLeases sn))\<rparr>,
      \<lparr>ro_Method = ''DELETE'', ro_Path = ''/dedup/leases/:leaseID'',
       ro_Handler = (\<lambda>rq. answerLeases (handleDeleteLease sn (hr_leaseID rq)))\<rparr>,
      \<lparr>ro_Method = ''POST'', ro_Path = ''/dedup/leases/gc'',
       ro_Handler = (\<lambda>rq. answerLeases (handleGCLeases sn (hr_Context rq)))\<rparr>]"

definition webhook_RegisterRoute :: "nat \<Rightarrow> json_pkg \<Rightarrow> ('w, 't) handler \<Rightarrow> 'w route list" where
  "webhook_RegisterRoute fuel J h =
     [\<lparr>ro_Method = ''POST'', ro_Path = ''/mutate'',
       ro_Handler = (\<lambda>rq. do {
         r \<leftarrow> ext (handle fuel J h (hr_Body rq));
         State_Monad.return (WebhookAnswer r)
       })\<rparr>]"


subsection \<open>The root command\<close>

record ('w, 't) daemon =
  dm_BaseContext :: "flag_set \<Rightarrow> (viper \<Rightarrow> string) \<Rightarrow> ('w node, gerr + (string \<times> viper)) state"
  dm_constructors :: "'w constructors"
  dm_snFirst :: bool
  dm_setup :: "'w webhook_setup"
  dm_template :: "('t, templateData) text_template"
  dm_json :: json_pkg
  dm_fuel :: nat
  dm_Start :: "'w wrapped \<Rightarrow> 'w route list \<Rightarrow> (ctx \<Rightarrow> ('w node, unit) state) \<Rightarrow> ('w node, gerr option) state"
  dm_Done :: "'w wrapped \<Rightarrow> 'w route list \<Rightarrow> (ctx \<Rightarrow> ('w node, unit) state) \<Rightarrow> ('w node, unit) state"

text \<open>The routes of the server: those of the service and, when it is enabled, that of the webhook.\<close>

definition registeredRoutes :: "('w, 't) daemon \<Rightarrow> viper \<Rightarrow> 'w snapshotter \<Rightarrow> gerr + 'w route list" where
  "registeredRoutes D V svc =
     (let routes = snapshotter_RegisterRoute svc in
      if Enabled V then
        (case New (dm_template D) (webhookWith V (dm_setup D)) of
           Inl err \<Rightarrow> Inl err
         | Inr h \<Rightarrow> Inr (routes @ webhook_RegisterRoute (dm_fuel D) (dm_json D) h))
      else Inr routes)"

text \<open>RunE between the deferred Close and the return: the error is the one that is returned.\<close>

definition serve ::
  "('w, 't) daemon \<Rightarrow> viper \<Rightarrow> 'w snapshotter \<Rightarrow> 'w wrapped \<Rightarrow> ('w node, gerr option) state" where
  "serve D V svc wrapped =
     (case registeredRoutes D V svc of
        Inl err \<Rightarrow> State_Monad.return (Some err)
      | Inr routes \<Rightarrow> do {
          e \<leftarrow> dm_Start D wrapped routes (RegisterScrapeHook svc);
          case e of
            Some err \<Rightarrow> State_Monad.return (Some err)
          | None \<Rightarrow> do {
              _ \<leftarrow> dm_Done D wrapped routes (RegisterScrapeHook svc);
              State_Monad.return None
            }
        })"

text \<open>RunE of the root command. The error of the deferred Close is only logged.\<close>

definition rootRunE :: "('w, 't) daemon \<Rightarrow> ('w node, gerr option) state" where
  "rootRunE D =
     do {
       b \<leftarrow> dm_BaseContext D rootFlags GetUnixSocketPath;
       case b of
         Inl err \<Rightarrow> State_Monad.return (Some err)
       | Inr (nodeName, V) \<Rightarrow> do {
           r \<leftarrow> ext (RegisterGRPCService (serviceWith V (dm_constructors D)) (dm_snFirst D) nodeName);
           case r of
             Inl err \<Rightarrow> State_Monad.return (Some err)
           | Inr (svc, wrapped) \<Rightarrow> do {
               err \<leftarrow> serve D V svc wrapped;
               _ \<leftarrow> svc_Close svc;
               State_Monad.return err
             }
         }
     }"

end
