(* ===== verification/Service_Props.thy ===== *)
theory Service_Props
  imports Materialise_Props
begin

text \<open>
  The snapshotter service as a state machine: every gRPC method and every HTTP endpoint of
  service.go is a step. Its steps simulate the lease machine of theory Lease_Props, so what holds
  there of the leases and the gauge holds of the service under any sequence of calls.
\<close>


section \<open>Frames of the services\<close>

text \<open>No call of a snapshotter, of the container queries or of the operating system changes \<open>obs\<close>.\<close>

definition sn_frame :: "'w snapshotter_api \<Rightarrow> ('w \<Rightarrow> 'k) \<Rightarrow> bool" where
  "sn_frame S obs \<longleftrightarrow>
     (\<forall>c k. keeps obs (sn_Stat S c k)) \<and> (\<forall>c i f. keeps obs (sn_Update S c i f)) \<and>
     (\<forall>c k. keeps obs (sn_Usage S c k)) \<and> (\<forall>c k. keeps obs (sn_Mounts S c k)) \<and>
     (\<forall>c k p opts. keeps obs (sn_Prepare S c k p opts)) \<and> (\<forall>c k p opts. keeps obs (sn_View S c k p opts)) \<and>
     (\<forall>c n k opts. keeps obs (sn_Commit S c n k opts)) \<and> (\<forall>c k. keeps obs (sn_Remove S c k)) \<and>
     (\<forall>c fn fs. keeps obs (sn_Walk S c fn fs))"

definition client_frame :: "'w client \<Rightarrow> ('w \<Rightarrow> 'k) \<Rightarrow> bool" where
  "client_frame cl obs \<longleftrightarrow>
     (\<forall>c f. keeps obs (cl_Containers cl c f)) \<and> (\<forall>c i. keeps obs (cl_Info cl c i)) \<and>
     (\<forall>c i. keeps obs (cl_Extensions cl c i))"

definition fs_frame :: "'w os_api \<Rightarrow> ('w \<Rightarrow> 'k) \<Rightarrow> bool" where
  "fs_frame os obs \<longleftrightarrow>
     (\<forall>p. keeps obs (os_Stat os p)) \<and> (\<forall>p. keeps obs (sys_Stat_Dev os p)) \<and>
     (\<forall>p n. keeps obs (os_MkdirAll os p n)) \<and> (\<forall>p. keeps obs (os_RemoveAll os p)) \<and>
     (\<forall>t p. keeps obs (os_Symlink os t p))"

definition svc_frame :: "('w, 't) packages \<Rightarrow> 'w snapshotter \<Rightarrow> ('w \<Rightarrow> 'k) \<Rightarrow> bool" where
  "svc_frame P sn obs \<longleftrightarrow>
     sn_frame (ss_Snapshotter sn) obs \<and> client_frame (res_client (ss_resolver sn)) obs \<and> fs_frame (pk_os P) obs \<and>
     (\<forall>m. ss_dedup sn = Some m \<longrightarrow>
        sn_frame (dm_localSn m) obs \<and> sn_frame (cl_SnapshotService (dm_client m) overlayfsSnapshotterName) obs)"

lemma sn_frameD [frames]:
  assumes "sn_frame S obs"
  shows "keeps obs (sn_Stat S c k)" "keeps obs (sn_Update S c i f)" "keeps obs (sn_Usage S c k)"
    "keeps obs (sn_Mounts S c k)" "keeps obs (sn_Prepare S c k p opts)" "keeps obs (sn_View S c k p opts)"
    "keeps obs (sn_Commit S c n k opts)" "keeps obs (sn_Remove S c k)" "keeps obs (sn_Walk S c fn fs)"
  using assms by (simp_all add: sn_frame_def)

lemma client_frameD [frames]:
  assumes "client_frame cl obs"
  shows "keeps obs (cl_Containers cl c f)" "keeps obs (cl_Info cl c j)" "keeps obs (cl_Extensions cl c j)"
  using assms by (simp_all add: client_frame_def)

lemma fs_frameD [frames]:
  assumes "fs_frame os obs"
  shows "keeps obs (os_Stat os p)" "keeps obs (sys_Stat_Dev os p)" "keeps obs (os_MkdirAll os p n)"
    "keeps obs (os_RemoveAll os p)" "keeps obs (os_Symlink os t p)"
  using assms by (simp_all add: fs_frame_def)

lemma makeSubdirs_keeps [frames]: "fs_frame os obs \<Longrightarrow> keeps obs (makeSubdirs os root subs)"
  by (induction subs) (auto intro!: frames)

lemma ensureUpperdirReady_keeps [frames]: "fs_frame os obs \<Longrightarrow> keeps obs (ensureUpperdirReady os root)"
  unfolding ensureUpperdirReady_def by (intro frames)

lemma resolveAtMountsTime_keeps [frames]:
  "client_frame (res_client r) obs \<Longrightarrow> keeps obs (resolveAtMountsTime T unmarshal r key)"
  unfolding resolveAtMountsTime_def upperdirFromSandboxID_def upperdirFromSandboxContainer_def
  by (intro frames)

lemma statWithLazyMaterialise_keeps [frames]:
  assumes "fs_frame os obs" and "sn_frame (dm_localSn m) obs" and "sn_frame S obs"
    and "sn_frame (cl_SnapshotService (dm_client m) overlayfsSnapshotterName) obs"
  shows "keeps obs (statWithLazyMaterialise os m c key S)"
  using assms
  unfolding statWithLazyMaterialise_def materialiseLocked_def materializeReference_def overlayfsLayerPath_def
    abandonReference_def replaceWithSymlink_def resolveParentChainID_def
  by (intro frames) simp_all


section \<open>The service as a state machine\<close>

text \<open>The namespace in a snapshot key is one of \<open>N\<close>.\<close>

definition keyIn :: "string set \<Rightarrow> string \<Rightarrow> bool" where
  "keyIn N key \<longleftrightarrow> (case parseSnapshotKey key of None \<Rightarrow> True | Some (ns, cid) \<Rightarrow> ns \<in> N)"

text \<open>The service that is registered, behind its cleaner or not, and what Cleanup leaves alone.\<close>

fun wrapped_service :: "'w wrapped \<Rightarrow> 'w snapshotter" where
  "wrapped_service (PlainSnapshotter sn) = sn"
| "wrapped_service (CleanerSnapshotter cs) = cs_snapshotter cs"

definition cleaner_frame :: "'w wrapped \<Rightarrow> ('w \<Rightarrow> 'k) \<Rightarrow> bool" where
  "cleaner_frame wr obs \<longleftrightarrow> (\<forall>cs c. wr = CleanerSnapshotter cs \<longrightarrow> keeps obs (cs_cleaner cs c))"

inductive svc_step ::
  "('w, 't) packages \<Rightarrow> 'w wrapped \<Rightarrow> string set \<Rightarrow> 'w node \<Rightarrow> 'w node \<Rightarrow> bool" for P wr N where
  Stat: "run_state (svc_Stat P (wrapped_service wr) c key) s = (r, s') \<Longrightarrow> svc_step P wr N s s'"
| Update: "run_state (svc_Update (wrapped_service wr) c i fieldpaths) s = (r, s') \<Longrightarrow> svc_step P wr N s s'"
| Usage: "run_state (svc_Usage (wrapped_service wr) c key) s = (u, s') \<Longrightarrow> svc_step P wr N s s'"
| Mounts: "run_state (svc_Mounts P (wrapped_service wr) c key) s = (ms, s') \<Longrightarrow> svc_step P wr N s s'"
| Prepare: "keyIn N key \<Longrightarrow> run_state (svc_Prepare (wrapped_service wr) c key parent opts) s = (p, s') \<Longrightarrow> svc_step P wr N s s'"
| View: "run_state (svc_View (wrapped_service wr) c key parent opts) s = (p, s') \<Longrightarrow> svc_step P wr N s s'"
| Commit: "run_state (svc_Commit (wrapped_service wr) c name key opts) s = (e, s') \<Longrightarrow> svc_step P wr N s s'"
| Remove: "keyIn N key \<Longrightarrow> run_state (svc_Remove (wrapped_service wr) c key) s = (e, s') \<Longrightarrow> svc_step P wr N s s'"
| Walk: "run_state (svc_Walk (wrapped_service wr) c fn filters) s = (e, s') \<Longrightarrow> svc_step P wr N s s'"
| Cleanup: "wr = CleanerSnapshotter cs \<Longrightarrow> run_state (svc_Cleanup cs c) s = (e, s') \<Longrightarrow> svc_step P wr N s s'"
| Scrape: "run_state (RegisterScrapeHook (wrapped_service wr) c) s = ((), s') \<Longrightarrow> svc_step P wr N s s'"
| ListLeases: "run_state (handleListLeases (wrapped_service wr)) s = (h, s') \<Longrightarrow> svc_step P wr N s s'"
| DeleteLease: "run_state (handleDeleteLease (wrapped_service wr) leaseID) s = (h, s') \<Longrightarrow> svc_step P wr N s s'"
| GCLeases: "run_state (handleGCLeases (wrapped_service wr) c) s = (h, s') \<Longrightarrow> svc_step P wr N s s'"

inductive_cases svc_stepE: "svc_step P wr N s s'"

text \<open>What a call leaves alone on the lease side.\<close>

abbreviation leaseSide :: "('w \<Rightarrow> string \<Rightarrow> lease list) \<Rightarrow> 'w node \<Rightarrow> (string \<Rightarrow> lease list) \<times> int" where
  "leaseSide store s \<equiv> (store (world s), pinnedSnapshotsTotal s)"

lemma leaseSide_ext [frames]: "keeps store m \<Longrightarrow> keeps (leaseSide store) (ext m)"
  by (simp add: keeps_def go_run split_beta)

lemma leaseSide_orphans [frames]: "keeps (leaseSide store) (orphanLeases_Set n)"
  by (simp add: keeps_def go_run)

lemma leaseSide_step: "keeps (leaseSide store) m \<Longrightarrow> run_state m s = (a, s') \<Longrightarrow> lease_step d store N s s'"
  using keepsD [of "leaseSide store" m s a s'] by (auto intro: lease_step.other)

lemma svc_frameD:
  assumes "svc_frame P sn obs"
  shows "sn_frame (ss_Snapshotter sn) obs" "client_frame (res_client (ss_resolver sn)) obs" "fs_frame (pk_os P) obs"
    and "ss_dedup sn = Some m \<Longrightarrow> sn_frame (dm_localSn m) obs"
    and "ss_dedup sn = Some m \<Longrightarrow> sn_frame (cl_SnapshotService (dm_client m) overlayfsSnapshotterName) obs"
  using assms by (simp_all add: svc_frame_def)

lemma svc_reads_keep:
  assumes "svc_frame P sn store"
  shows "keeps (leaseSide store) (svc_Stat P sn c key)" "keeps (leaseSide store) (svc_Update sn c i fps)"
    "keeps (leaseSide store) (svc_Usage sn c key)" "keeps (leaseSide store) (svc_Mounts P sn c key)"
    "keeps (leaseSide store) (svc_View sn c key parent opts)" "keeps (leaseSide store) (svc_Commit sn c name key opts)"
    "keeps (leaseSide store) (svc_Walk sn c fn fs)"
  using svc_frameD [OF assms]
  unfolding svc_Stat_def svc_Update_def svc_Usage_def svc_Mounts_def svc_View_def svc_Commit_def svc_Walk_def
  by (intro frames; simp)+

lemma countOrphans_keeps [frames]: "sn_frame S obs \<Longrightarrow> keeps obs (countOrphans S c ls n)"
  by (induction ls arbitrary: n) (auto intro!: frames)

lemma lease_list_keeps:
  assumes "lease_laws L store"
  shows "keeps store (ls_List L (Some ns) (labelFilter k v))"
  unfolding keeps_def
proof
  fix w
  show "store (snd (run_state (ls_List L (Some ns) (labelFilter k v)) w)) = store w"
    using list_lawD(1) [OF assms prod.collapse [symmetric]] by metis
qed

lemma svc_scrapes_keep:
  assumes fr: "svc_frame P sn store" and laws: "\<And>m. ss_dedup sn = Some m \<Longrightarrow> lease_laws (cl_LeasesService (dm_client m)) store"
  shows "keeps (leaseSide store) (RegisterScrapeHook sn c)" "keeps (leaseSide store) (handleListLeases sn)"
  unfolding RegisterScrapeHook_def handleListLeases_def countOrphanLeases_def listManagedLeases_def WithNamespace_def
  by (intro frames lease_list_keeps laws svc_frameD(4) [OF fr]; assumption)+


section \<open>The service simulates the lease machine\<close>

lemma sn_frame_untouched: "sn_frame S store \<Longrightarrow> leases_untouched S store"
  by (simp add: sn_frame_def leases_untouched_def keeps_def)

lemma pinTarget_key: "pinTarget key parent = Some (ns, chainID) \<Longrightarrow> \<exists>cid. parseSnapshotKey key = Some (ns, cid)"
  by (auto simp: pinTarget_def split: option.splits if_splits)

lemma lease_step_after:
  assumes "store w = store (world s)" and "lease_step m store N (s\<lparr>world := w\<rparr>) s'"
  shows "(lease_step m store N)\<^sup>*\<^sup>* s s'"
proof -
  have "lease_step m store N s (s\<lparr>world := w\<rparr>)" using assms(1) by (auto intro: lease_step.other)
  then show ?thesis using assms(2) by (rule converse_rtranclp_into_rtranclp [OF _ r_into_rtranclp])
qed

lemma svc_Prepare_simulates:
  assumes fr: "sn_frame (ss_Snapshotter sn) store" and dedup: "ss_dedup sn = Some m" and key: "keyIn N key"
    and run: "run_state (svc_Prepare sn c key parent opts) s = (p, s')"
  shows "(lease_step m store N)\<^sup>*\<^sup>* s s'"
proof (cases "pinTarget key parent")
  case None
  have "keeps (leaseSide store) (svc_Prepare sn c key parent opts)"
    unfolding svc_Prepare_def by (intro frames fr) (simp_all add: None)
  then show ?thesis using run by (blast intro: leaseSide_step)
next
  case (Some nc)
  then obtain ns chainID where target: "pinTarget key parent = Some (ns, chainID)" by (cases nc) simp
  then have ns: "ns \<in> N" using pinTarget_key key by (fastforce simp: keyIn_def)
  obtain w1 pr where w1: "store w1 = store (world s)" and pin: "run_state (pinLayer m ns chainID key) (s\<lparr>world := w1\<rparr>) = (pr, s')"
    by (rule svc_Prepare_run [OF sn_frame_untouched [OF fr] dedup target run])
  show ?thesis by (rule lease_step_after [OF w1 lease_step.pin [OF ns pin]])
qed

lemma svc_Remove_simulates:
  assumes fr: "sn_frame (ss_Snapshotter sn) store" and dedup: "ss_dedup sn = Some m" and key: "keyIn N key"
    and run: "run_state (svc_Remove sn c key) s = (e, s')"
  shows "(lease_step m store N)\<^sup>*\<^sup>* s s'"
proof (cases "parseSnapshotKey key")
  case None
  have "keeps (leaseSide store) (svc_Remove sn c key)"
    unfolding svc_Remove_def by (intro frames fr) (simp_all add: None)
  then show ?thesis using run by (blast intro: leaseSide_step)
next
  case (Some nc)
  then obtain ns cid where parsed: "parseSnapshotKey key = Some (ns, cid)" by (cases nc) simp
  then have ns: "ns \<in> N" using key by (simp add: keyIn_def)
  obtain w1 where w1: "store w1 = store (world s)" and unpin: "run_state (unpinByActiveKey m ns key) (s\<lparr>world := w1\<rparr>) = ((), s')"
    by (rule svc_Remove_run [OF sn_frame_untouched [OF fr] dedup parsed run])
  show ?thesis by (rule lease_step_after [OF w1 lease_step.unpin [OF ns unpin]])
qed

lemma handlers_simulate:
  assumes dedup: "ss_dedup sn = Some m" and k8s: "''k8s.io'' \<in> N"
  shows "run_state (handleDeleteLease sn leaseID) s = (h, s') \<Longrightarrow> (lease_step m store N)\<^sup>*\<^sup>* s s'"
    and "run_state (handleGCLeases sn c) s = (h, s') \<Longrightarrow> (lease_step m store N)\<^sup>*\<^sup>* s s'"
  using lease_step.delete [OF k8s, of m leaseID] lease_step.gc [OF k8s, of m c]
  by (auto simp: handleDeleteLease_def handleGCLeases_def dedup go_run containerdNamespaceK8s_def
      split: if_splits prod.splits intro!: r_into_rtranclp)

lemma svc_step_simulates:
  assumes fr: "svc_frame P (wrapped_service wr) store" and cleaner: "cleaner_frame wr store"
    and dedup: "ss_dedup (wrapped_service wr) = Some m" and k8s: "''k8s.io'' \<in> N"
    and laws: "dedup_laws m store present" and step: "svc_step P wr N s s'"
  shows "(lease_step m store N)\<^sup>*\<^sup>* s s'"
proof -
  have leases: "\<And>d. ss_dedup (wrapped_service wr) = Some d \<Longrightarrow> lease_laws (cl_LeasesService (dm_client d)) store"
    using laws dedup by (simp add: dedup_laws_def)
  have cleanup: "keeps (leaseSide store) (svc_Cleanup cs c)" if "wr = CleanerSnapshotter cs" for cs c
    using cleaner that unfolding cleaner_frame_def svc_Cleanup_def by (intro leaseSide_ext) simp
  note quiet = svc_reads_keep [OF fr] svc_scrapes_keep [OF fr leases]
  have one: "run_state op s = (a, s') \<Longrightarrow> keeps (leaseSide store) op \<Longrightarrow> ?thesis" for op :: "('a node, 'x) state" and a
    by (blast intro: leaseSide_step)
  from step show ?thesis
  proof (cases rule: svc_step.cases)
    case (Cleanup cs c e)
    show ?thesis by (rule one [OF Cleanup(2) cleanup [OF Cleanup(1)]])
  qed (blast intro: quiet one svc_Prepare_simulates [OF svc_frameD(1) [OF fr] dedup]
        svc_Remove_simulates [OF svc_frameD(1) [OF fr] dedup] handlers_simulate [OF dedup k8s])+
qed

text \<open>C10: in every state the service reaches, by any sequence of gRPC calls (Cleanup included), HTTP requests and scrapes
  over keys of finitely many namespaces and with any mix of failures, the gauge of pinned
  snapshots does not exceed the number of managed leases of those namespaces, when it did not
  at the start (with the gauge at zero, say): it never reports a pin that has no lease. (It may
  fall behind, by leases that a failed rollback leaves and by leases of an earlier process.)\<close>

theorem service_gauge_bounded:
  assumes fr: "svc_frame P (wrapped_service wr) store" and cleaner: "cleaner_frame wr store"
    and dedup: "ss_dedup (wrapped_service wr) = Some m" and laws: "dedup_laws m store present"
    and N: "finite N" "''k8s.io'' \<in> N" and ids: "\<forall>ns \<in> N. distinct (map l_ID (store (world s) ns))"
    and start: "pinnedSnapshotsTotal s \<le> managedLeases store N (world s)"
    and reach: "(svc_step P wr N)\<^sup>*\<^sup>* s s'"
  shows "pinnedSnapshotsTotal s' \<le> managedLeases store N (world s')"
proof -
  have "(lease_step m store N)\<^sup>*\<^sup>* s s'"
    using reach by (induction rule: rtranclp_induct)
      (blast intro: rtranclp_trans svc_step_simulates [OF fr cleaner dedup N(2) laws])+
  moreover have "gauge_inv store N s" using N(1) ids start by (simp add: gauge_inv_def)
  ultimately have "gauge_inv store N s'" using lease_machine.reachable laws by blast
  then show ?thesis by (simp add: gauge_inv_def)
qed


text \<open>The reference host keeps its leases apart from snapshots, containers and files.\<close>

lemma host_sn_frame:
  "sn_frame localSnapshotter hostLeases" "sn_frame overlayfsSnapshotter hostLeases"
  by (auto simp: sn_frame_def keeps_def localSnapshotter_def overlayfsSnapshotter_def snapStore_def snapCreate_def
      hostLeases_def go_run Let_def split: option.splits)

lemma host_svc_frame: "svc_frame (hostPackages a) (hostService True) hostLeases"
proof -
  have "client_frame hostClient hostLeases" by (simp add: client_frame_def keeps_def hostClient_def go_run)
  moreover have "fs_frame hostOS hostLeases" by (auto simp: fs_frame_def keeps_def hostOS_def hostLeases_def go_run split: option.splits)
  ultimately show ?thesis
    by (simp add: svc_frame_def hostService_def hostPackages_def hostResolver_def host_sn_frame)
qed

text \<open>The service behind a cleaner that has nothing to remove.\<close>

definition cleanedService :: "host wrapped" where
  "cleanedService = CleanerSnapshotter \<lparr>cs_snapshotter = hostService True, cs_cleaner = (\<lambda>c. State_Monad.return None)\<rparr>"

lemma cleanedService_simps:
  "wrapped_service cleanedService = hostService True" "cleaner_frame cleanedService hostLeases"
  by (simp_all add: cleanedService_def cleaner_frame_def keeps_def go_run)

theorem service_gauge_bounded_witness:
  "\<exists>s'. (svc_step (hostPackages []) cleanedService {''k8s.io''})\<^sup>*\<^sup>* (hostNode leasedHost) s' \<and>
        pinnedSnapshotsTotal s' = 1 \<and> 1 \<le> managedLeases hostLeases {''k8s.io''} (world s')"
proof -
  let ?step = "svc_step (hostPackages []) cleanedService {''k8s.io''}"
  let ?p = "svc_Prepare (hostService True) None ''k8s.io/4/c3'' (''k8s.io/1/'' @ layerID) []"
  let ?s = "snd (run_state ?p (hostNode leasedHost))"
  have key: "keyIn {''k8s.io''} ''k8s.io/4/c3''" by code_simp
  have "run_state (svc_Prepare (wrapped_service cleanedService) None ''k8s.io/4/c3'' (''k8s.io/1/'' @ layerID) [])
      (hostNode leasedHost) = (fst (run_state ?p (hostNode leasedHost)), ?s)"
    by (simp only: cleanedService_simps prod.collapse)
  then have "?step (hostNode leasedHost) ?s" by (rule svc_step.Prepare [OF key])
  then have reach: "?step\<^sup>*\<^sup>* (hostNode leasedHost) ?s"
    by (rule r_into_rtranclp [of ?step])
  have dedup: "ss_dedup (wrapped_service cleanedService) = Some hostDedup"
    by (simp add: cleanedService_simps hostService_def)
  have fr: "svc_frame (hostPackages []) (wrapped_service cleanedService) hostLeases"
    by (simp add: cleanedService_simps host_svc_frame)
  have "managedLeases hostLeases {''k8s.io''} (world (hostNode leasedHost)) = 2" by code_simp
  then have start: "pinnedSnapshotsTotal (hostNode leasedHost) \<le> managedLeases hostLeases {''k8s.io''} (world (hostNode leasedHost))"
    by simp
  have ids: "\<forall>ns \<in> {''k8s.io''}. distinct (map l_ID (hostLeases (world (hostNode leasedHost)) ns))"
    using leasedHost_ids by simp
  have "pinnedSnapshotsTotal ?s = 1" by code_simp
  then show ?thesis
    using service_gauge_bounded [OF fr cleanedService_simps(2) dedup hostDedup_dedup_laws _ _ ids start reach] reach
    by auto
qed

end
