(* ===== verification/Webhook_Props.thy ===== *)
theory Webhook_Props
  imports Webhook
begin

text \<open>
  Properties of the mutating webhook: the JSON patch applied to the pod, owner and PVC
  resolution against their specifications, termination of the wait for the PVC, and what an
  admission response guarantees.
\<close>


section \<open>JSON pointers\<close>

text \<open>RFC 6901: a reference token is decoded by reading \<^verbatim>\<open>~1\<close> as a slash and \<^verbatim>\<open>~0\<close> as a tilde.\<close>

fun unescapeToken :: "string \<Rightarrow> string" where
  "unescapeToken [] = []"
| "unescapeToken [c] = [c]"
| "unescapeToken (c # d # s) =
     (if c = CHR ''~'' \<and> d = CHR ''0'' then CHR ''~'' # unescapeToken s
      else if c = CHR ''~'' \<and> d = CHR ''1'' then CHR ''/'' # unescapeToken s
      else c # unescapeToken (d # s))"

lemma escapeKey_simps [simp]:
  "escapeKey [] = []"
  "escapeKey (c # s) =
     (if c = CHR ''~'' then ''~0'' else if c = CHR ''/'' then ''~1'' else [c]) @ escapeKey s"
  by (simp_all add: escapeKey_def)

lemma unescapeToken_other: "c \<noteq> CHR ''~'' \<Longrightarrow> unescapeToken (c # s) = c # unescapeToken s"
  by (cases s) auto

lemma unescape_escape: "unescapeToken (escapeKey key) = key"
  by (induction key) (auto simp: unescapeToken_other)

lemma escapeKey_no_slash: "CHR ''/'' \<notin> set (escapeKey key)"
  by (induction key) auto

text \<open>The escaping of annotation keys is inverse to RFC 6901 decoding, and the escaped key is a
  single reference token: it contains no slash. So the patch addresses exactly the annotation
  with the configured key, whatever characters the key has.\<close>

theorem escapeKey_roundtrip:
  "unescapeToken (escapeKey key) = key \<and> CHR ''/'' \<notin> set (escapeKey key)"
  by (simp add: unescape_escape escapeKey_no_slash)


section \<open>The digest function of the templates\<close>

abbreviation callFunc :: "string \<Rightarrow> string \<Rightarrow> string" where
  "callFunc g v \<equiv> (case templateFuncs g of Some f \<Rightarrow> f v | None \<Rightarrow> [])"

text \<open>C25: the volume handle in a path. A template that pipes the handle into sha256 renders to exactly one
  path segment of 64 lowercase hexadecimal digits between the text around it, the SHA-256
  digest of the handle, whatever characters and length the handle has.\<close>

theorem digest_segment:
  assumes "template_funcs (tt_render T) data_field [''sha256''] callFunc"
    and "CHR ''{'' \<notin> set a" and "CHR ''{'' \<notin> set b"
  shows "\<exists>h. tt_render T (a @ ''{{.VolumeHandle | sha256}}'' @ b) d = Inr (a @ h @ b) \<and>
    h = sha256 (VolumeHandle d) \<and> length h = 64 \<and> set h \<subseteq> set ''0123456789abcdef''"
proof -
  have "is_ident ''VolumeHandle''" "is_ident ''sha256''" by code_simp+
  from template_funcs.render_call_text [OF assms this, of d "VolumeHandle d"]
  have "tt_render T (a @ ''{{.VolumeHandle | sha256}}'' @ b) d = Inr (a @ sha256 (VolumeHandle d) @ b)"
    by (simp add: data_field_def templateFuncs_def)
  then show ?thesis using sha256_length sha256_hex by blast
qed

lemma webhookTemplates_funcs: "template_funcs (tt_render webhookTemplates) data_field [''sha256''] callFunc"
  unfolding webhookTemplates_def by (rule fragment_funcs.template_funcs_axioms)

section \<open>Applying the patch\<close>

text \<open>
  RFC 6902 on the fields of the pod that the patch addresses: the operation add creates or
  replaces a member of an existing object, a dash appends to an existing array, and replace
  needs an existing target. \<open>None\<close>: the operation does not apply, so the API server rejects the
  patch. (In the model an absent map, slice or pointer is an absent JSON member.)
\<close>

definition pointerTokens :: "string \<Rightarrow> string list" where
  "pointerTokens path = map unescapeToken (tl (split_all path (CHR ''/'')))"

definition addMounts :: "pod \<Rightarrow> volumeMount list option \<Rightarrow> pod option" where
  "addMounts pod ms =
     (case pod_Containers pod of
        [] \<Rightarrow> None
      | c # cs \<Rightarrow> Some (pod\<lparr>pod_Containers := c\<lparr>ct_VolumeMounts := ms\<rparr> # cs\<rparr>))"

fun addMember :: "string list \<Rightarrow> patch_value \<Rightarrow> pod \<Rightarrow> pod option" where
  "addMember [a, b] (VStringMap m) pod =
     (if a = ''metadata'' \<and> b = ''annotations'' then Some (pod\<lparr>pod_Annotations := Some m\<rparr>) else None)"
| "addMember [a, b, k] (VString v) pod =
     (if a = ''metadata'' \<and> b = ''annotations'' then
        map_option (\<lambda>m. pod\<lparr>pod_Annotations := Some (map_put m k v)\<rparr>) (pod_Annotations pod)
      else None)"
| "addMember [a, b] VEmptyList pod =
     (if a = ''spec'' \<and> b = ''volumes'' then Some (pod\<lparr>pod_Volumes := Some []\<rparr>) else None)"
| "addMember [a, b, d] (VVolume v) pod =
     (if a = ''spec'' \<and> b = ''volumes'' \<and> d = ''-'' then
        map_option (\<lambda>vs. pod\<lparr>pod_Volumes := Some (vs @ [v])\<rparr>) (pod_Volumes pod)
      else None)"
| "addMember [a, b, i, d] (VMounts ms) pod =
     (if a = ''spec'' \<and> b = ''containers'' \<and> i = ''0'' \<and> d = ''volumeMounts'' then addMounts pod (Some ms)
      else None)"
| "addMember [a, b, i, d, e] (VMount v) pod =
     (if a = ''spec'' \<and> b = ''containers'' \<and> i = ''0'' \<and> d = ''volumeMounts'' \<and> e = ''-'' then
        (case pod_Containers pod of
           [] \<Rightarrow> None
         | c # _ \<Rightarrow> Option.bind (ct_VolumeMounts c) (\<lambda>ms. addMounts pod (Some (ms @ [v]))))
      else None)"
| "addMember [a, b] (VString v) pod =
     (if a = ''spec'' \<and> b = ''runtimeClassName'' then Some (pod\<lparr>pod_RuntimeClassName := Some v\<rparr>) else None)"
| "addMember _ _ pod = None"

definition applyOp :: "jsonPatchOp \<Rightarrow> pod \<Rightarrow> pod option" where
  "applyOp op pod =
     (let tokens = pointerTokens (op_Path op) in
      if op_Op op = ''add'' then addMember tokens (op_Value op) pod
      else if op_Op op = ''replace'' \<and> tokens = [''spec'', ''runtimeClassName''] \<and> pod_RuntimeClassName pod \<noteq> None
      then addMember tokens (op_Value op) pod
      else None)"

fun applyPatch :: "jsonPatchOp list \<Rightarrow> pod \<Rightarrow> pod option" where
  "applyPatch [] pod = Some pod"
| "applyPatch (op # ops) pod = Option.bind (applyOp op pod) (applyPatch ops)"

lemma applyPatch_append: "applyPatch (xs @ ys) pod = Option.bind (applyPatch xs pod) (applyPatch ys)"
  by (induction xs arbitrary: pod) (auto split: Option.bind_splits)

text \<open>The specification: the pod the patch is meant to produce.\<close>

definition stamp :: "(string \<times> string) list \<Rightarrow> (string, string) gomap \<Rightarrow> (string, string) gomap" where
  "stamp vals m = foldl (\<lambda>m (k, v). map_put m k v) m vals"

definition renderAll ::
  "('t, templateData) text_template \<Rightarrow> templateData \<Rightarrow> (string, 't) gomap \<Rightarrow> (string \<times> string) list" where
  "renderAll T data tmpls =
     map (\<lambda>(k, t). (k, case tt_Execute T t data of Inr v \<Rightarrow> v | Inl _ \<Rightarrow> [])) tmpls"

definition patchedPod :: "('w, 't) handler \<Rightarrow> pod \<Rightarrow> string \<Rightarrow> templateData \<Rightarrow> pod" where
  "patchedPod h pod pvcName data =
     pod\<lparr>pod_Annotations :=
           Some (stamp (renderAll (h_template h) data (h_annotationTmpls h))
                  (case pod_Annotations pod of None \<Rightarrow> [] | Some m \<Rightarrow> m)),
         pod_Volumes :=
           Some ((case pod_Volumes pod of None \<Rightarrow> [] | Some vs \<Rightarrow> vs) @
                 [\<lparr>vol_Name = ''pv-snapshotter--state'', vol_ClaimName = pvcName\<rparr>]),
         pod_Containers :=
           (case pod_Containers pod of
              [] \<Rightarrow> []
            | c # cs \<Rightarrow>
                c\<lparr>ct_VolumeMounts :=
                    Some ((case ct_VolumeMounts c of None \<Rightarrow> [] | Some ms \<Rightarrow> ms) @
                          [\<lparr>vm_Name = ''pv-snapshotter--state'', vm_MountPath = h_stateMountPath h\<rparr>])\<rparr> # cs),
         pod_RuntimeClassName :=
           (if runtimeClassBase h pod = [] then pod_RuntimeClassName pod
            else Some (runtimeClassBase h pod @ h_runtimeClassSuffix h))\<rparr>"

lemma pointerTokens_annotation:
  "pointerTokens (''/metadata/annotations/'' @ escapeKey key) = [''metadata'', ''annotations'', key]"
proof -
  have "split_all (''/metadata/annotations/'' @ escapeKey key) (CHR ''/'') =
      [[], ''metadata'', ''annotations'', escapeKey key]"
    using split_all_append [of "CHR ''/''" "[]" "''metadata/annotations/'' @ escapeKey key"]
      split_all_append [of "CHR ''/''" "''metadata''" "''annotations/'' @ escapeKey key"]
      split_all_append [of "CHR ''/''" "''annotations''" "escapeKey key"]
      split_all_no_sep [OF escapeKey_no_slash, of key]
    by simp
  then show ?thesis by (simp add: pointerTokens_def unescape_escape)
qed

lemma pointerTokens_fixed:
  "pointerTokens ''/metadata/annotations'' = [''metadata'', ''annotations'']"
  "pointerTokens ''/spec/volumes'' = [''spec'', ''volumes'']"
  "pointerTokens ''/spec/volumes/-'' = [''spec'', ''volumes'', ''-'']"
  "pointerTokens ''/spec/containers/0/volumeMounts'' = [''spec'', ''containers'', ''0'', ''volumeMounts'']"
  "pointerTokens ''/spec/containers/0/volumeMounts/-'' = [''spec'', ''containers'', ''0'', ''volumeMounts'', ''-'']"
  "pointerTokens ''/spec/runtimeClassName'' = [''spec'', ''runtimeClassName'']"
  by code_simp+

lemma stamp_simps [simp]: "stamp [] m = m" "stamp ((k, v) # vals) m = stamp vals (map_put m k v)"
  by (simp_all add: stamp_def)

lemma annotationOps_apply:
  assumes "annotationOps T data tmpls = Inr ops" and "pod_Annotations pod = Some m"
  shows "applyPatch ops pod = Some (pod\<lparr>pod_Annotations := Some (stamp (renderAll T data tmpls) m)\<rparr>)"
  using assms
proof (induction tmpls arbitrary: ops pod m)
  case Nil
  then show ?case by (simp add: renderAll_def)
next
  case (Cons kt tmpls)
  obtain k t where kt: "kt = (k, t)" by (cases kt)
  obtain v ops' where "tt_Execute T t data = Inr v" "annotationOps T data tmpls = Inr ops'"
      "ops = \<lparr>op_Op = ''add'', op_Path = ''/metadata/annotations/'' @ escapeKey k, op_Value = VString v\<rparr> # ops'"
    using Cons.prems(1) kt by (auto simp: renderTemplate_def split: sum.splits)
  then show ?case
    using Cons.IH [of ops' "pod\<lparr>pod_Annotations := Some (map_put m k v)\<rparr>"] Cons.prems(2) kt
      pointerTokens_annotation [of k]
    by (simp add: applyOp_def renderAll_def)
qed

lemmas patch_apply = applyPatch_append applyOp_def pointerTokens_fixed addMounts_def stateVolume_def
  stateMount_def statePVCVolumeName_def

lemma mountOps_apply:
  "applyPatch (mountOps h pod0) pod =
     Some (pod\<lparr>pod_Containers :=
           (case pod_Containers pod of
              [] \<Rightarrow> []
            | c # cs \<Rightarrow>
                c\<lparr>ct_VolumeMounts :=
                    Some ((case ct_VolumeMounts c of None \<Rightarrow> [] | Some ms \<Rightarrow> ms) @
                          [\<lparr>vm_Name = ''pv-snapshotter--state'', vm_MountPath = h_stateMountPath h\<rparr>])\<rparr> # cs)\<rparr>)"
  if "pod_Containers pod = pod_Containers pod0"
  using that by (auto simp: mountOps_def patch_apply split: list.splits option.splits)

lemma runtimeClassOps_apply:
  "applyPatch (runtimeClassOps h pod0) pod =
     Some (pod\<lparr>pod_RuntimeClassName :=
           (if runtimeClassBase h pod0 = [] then pod_RuntimeClassName pod0
            else Some (runtimeClassBase h pod0 @ h_runtimeClassSuffix h))\<rparr>)"
  if "pod_RuntimeClassName pod = pod_RuntimeClassName pod0"
  using that by (cases "pod_RuntimeClassName pod0") (auto simp: runtimeClassOps_def patch_apply Let_def)

lemma buildPatch_applies:
  assumes "buildPatch h pod pvcName data = Inr ops"
  shows "applyPatch ops pod = Some (patchedPod h pod pvcName data)"
proof -
  obtain aops where aops: "annotationOps (h_template h) data (h_annotationTmpls h) = Inr aops"
    and ops: "ops = (if pod_Annotations pod = None
                then [\<lparr>op_Op = ''add'', op_Path = ''/metadata/annotations'', op_Value = VStringMap []\<rparr>]
                else []) @ aops @
               (if pod_Volumes pod = None
                then [\<lparr>op_Op = ''add'', op_Path = ''/spec/volumes'', op_Value = VEmptyList\<rparr>]
                else []) @
               [\<lparr>op_Op = ''add'', op_Path = ''/spec/volumes/-'', op_Value = VVolume (stateVolume pvcName)\<rparr>] @
               mountOps h pod @ runtimeClassOps h pod"
    using assms by (auto simp: buildPatch_def split: sum.splits)
  show ?thesis
    unfolding ops patchedPod_def
    by (cases "pod_Annotations pod"; cases "pod_Volumes pod")
       (simp_all add: patch_apply annotationOps_apply [OF aops] mountOps_apply [of _ pod]
          runtimeClassOps_apply [of _ pod])
qed

text \<open>C3: the patch does what it is meant to do. Applied to the pod by the rules of RFC 6902 it never
  fails, and the result is the pod with the rendered annotations stamped over its own, the
  state volume appended to its volumes, the state mount appended in the first container only
  and the RuntimeClass name extended by the suffix; every other field, every other container
  and all existing entries are kept.\<close>

theorem buildPatch_correct:
  assumes "buildPatch h pod pvcName data = Inr ops"
  shows "applyPatch ops pod = Some (patchedPod h pod pvcName data)"
  using assms by (rule buildPatch_applies)


section \<open>A cluster\<close>

text \<open>
  A small cluster for the witnesses: a clock, workload objects by resource and name, and a PVC
  that becomes bound at a given time.
\<close>

record cluster =
  cu_now :: int
  cu_bindAt :: int
  cu_owners :: "((string \<times> string) \<times> (string \<times> ownerReference list)) list"

definition clusterKube :: "cluster kube" where
  "clusterKube =
     \<lparr>kb_GetOwner = (\<lambda>g ns n. State (\<lambda>w.
        (case map_of (cu_owners w) (gvr_Resource g, n) of
           None \<Rightarrow> Inl (Sentinel ErrNotFound) | Some x \<Rightarrow> Inr x, w))),
      kb_GetPVC = (\<lambda>ns n. State (\<lambda>w.
        ((if cu_bindAt w \<le> cu_now w
          then \<lparr>pvc_Name = n, pvc_Phase = ''Bound'', pvc_VolumeName = ''pv-1''\<rparr>
          else \<lparr>pvc_Name = n, pvc_Phase = ''Pending'', pvc_VolumeName = []\<rparr>, None), w))),
      kb_ListPVCs = (\<lambda>ns sel. State (\<lambda>w. (Inr [], w))),
      kb_GetPV = (\<lambda>n. State (\<lambda>w. (Inr \<lparr>pv_CSI_VolumeHandle = Some ''vol-1''\<rparr>, w))),
      kb_ParseSelector = (\<lambda>sel. Inr sel),
      kb_Now = State (\<lambda>w. (cu_now w, w)),
      kb_Wait = (\<lambda>d. State (\<lambda>w. (None, w\<lparr>cu_now := cu_now w + d\<rparr>)))\<rparr>"

definition exampleSetup :: "cluster webhook_setup" where
  "exampleSetup =
     \<lparr>ws_GetConfig = None, ws_typedClient = None, ws_dynamicClient = None, ws_kube = clusterKube,
      ws_isDNS1123Subdomain = (\<lambda>p. []),
      ws_GetString = (\<lambda>f. if f = flagPrefix then defaultPrefix
                          else if f = flagPVCNameTemplate then ''{{.OwnerName}}''
                          else if f = flagRuntimeClassSuffix then ''-pv''
                          else if f = flagStateMountPath then ''/.platform/state'' else []),
      ws_GetInt = (\<lambda>f. 2), ws_GetDuration = (\<lambda>f. 30000000000),
      ws_GetStringMapString = (\<lambda>f. defaultAnnotationTemplates)\<rparr>"

definition exampleHandler :: "(cluster, tnode list) handler" where
  "exampleHandler = projr (New webhookTemplates exampleSetup)"

definition examplePod :: pod where
  "examplePod =
     \<lparr>pod_Name = ''web-0'', pod_Labels = [(''apps.kubernetes.io/pod-index'', ''0'')],
      pod_Annotations = Some [(''team'', ''blue'')],
      pod_OwnerReferences =
        [\<lparr>or_Kind = ''Node'', or_Name = ''n1'', or_Controller = None\<rparr>,
         \<lparr>or_Kind = ''StatefulSet'', or_Name = ''web'', or_Controller = Some True\<rparr>],
      pod_Volumes = None,
      pod_Containers = [\<lparr>ct_Name = ''app'', ct_VolumeMounts = None\<rparr>, \<lparr>ct_Name = ''sidecar'', ct_VolumeMounts = None\<rparr>],
      pod_RuntimeClassName = Some ''runc''\<rparr>"

definition exampleCluster :: cluster where
  "exampleCluster = \<lparr>cu_now = 0, cu_bindAt = 5000000000, cu_owners = [((''statefulsets'', ''web''), (''web'', []))]\<rparr>"

definition exampleData :: templateData where
  "exampleData =
     \<lparr>OwnerName = ''web'', PodName = ''web-0'', PVName = ''pv-1'', VolumeHandle = ''vol-1'', PodIndex = ''0'',
      PodUID = ''{{.PodUID}}'', PodNamespace = ''{{.PodNamespace}}''\<rparr>"

theorem digest_segment_witness:
  "tt_render webhookTemplates ''/csi/{{.VolumeHandle | sha256}}/globalmount'' (exampleData\<lparr>VolumeHandle := ''abc''\<rparr>) =
     Inr ''/csi/ba7816bf8f01cfea414140de5dae2223b00361a396177a9cb410ff61f20015ad/globalmount''"
  using digest_segment [OF webhookTemplates_funcs, of "''/csi/''" "''/globalmount''" "exampleData\<lparr>VolumeHandle := ''abc''\<rparr>"]
  by (simp add: sha256_abc)

theorem buildPatch_correct_witness:
  "\<exists>ops. buildPatch exampleHandler examplePod ''web'' exampleData = Inr ops \<and>
     applyPatch ops examplePod = Some (patchedPod exampleHandler examplePod ''web'' exampleData) \<and>
     pod_RuntimeClassName (patchedPod exampleHandler examplePod ''web'' exampleData) = Some ''runc-pv''"
proof -
  let ?ops = "projr (buildPatch exampleHandler examplePod ''web'' exampleData)"
  have "\<not> isl (buildPatch exampleHandler examplePod ''web'' exampleData)" by code_simp
  then have ops: "buildPatch exampleHandler examplePod ''web'' exampleData = Inr ?ops" by simp
  have "pod_RuntimeClassName (patchedPod exampleHandler examplePod ''web'' exampleData) = Some ''runc-pv''"
    by code_simp
  with buildPatch_correct [OF ops] ops show ?thesis by blast
qed


section \<open>Owner resolution\<close>

text \<open>Reading workload objects: \<open>obj\<close> is what the dynamic client finds, by resource, namespace and name.
  A read may fail at any time; it changes nothing, and what it returns is that object.\<close>

type_synonym owner_view = "gvr \<Rightarrow> string \<Rightarrow> string \<Rightarrow> (string \<times> ownerReference list) option"

definition owner_reads :: "'w kube \<Rightarrow> owner_view \<Rightarrow> bool" where
  "owner_reads K obj \<longleftrightarrow>
     (\<forall>g ns n w r w'. run_state (kb_GetOwner K g ns n) w = (r, w') \<longrightarrow>
        w' = w \<and> (\<forall>x. r = Inr x \<longrightarrow> obj g ns n = Some x))"

text \<open>One hop: from an object to the object of its first controller reference, when that is of a known kind.\<close>

inductive owner_hop :: "owner_view \<Rightarrow> string \<Rightarrow> string \<times> ownerReference list \<Rightarrow> string \<times> ownerReference list \<Rightarrow> bool"
  for obj ns where
  hop: "controllerRefs refs = ref # rest \<Longrightarrow> ownerRefToGVR ref = Inr g \<Longrightarrow>
        obj g ns (or_Name ref) = Some nx \<Longrightarrow> owner_hop obj ns (name, refs) nx"

inductive_cases owner_hopE: "owner_hop obj ns (name, refs) nx"

text \<open>A hop leads to one object only, so the number of hops determines the object reached.\<close>

lemma owner_hop_deterministic:
  assumes "owner_hop obj ns x y" and "owner_hop obj ns x z"
  shows "y = z"
  using assms by (cases x) (auto elim!: owner_hopE)

text \<open>The first controller reference is of a known kind, so a hop is attempted.\<close>

definition known_controller :: "ownerReference list \<Rightarrow> (ownerReference \<times> gvr) option" where
  "known_controller refs =
     (case controllerRefs refs of
        [] \<Rightarrow> None
      | ref # _ \<Rightarrow> (case ownerRefToGVR ref of Inl _ \<Rightarrow> None | Inr g \<Rightarrow> Some (ref, g)))"

text \<open>What resolution from \<open>start\<close> may answer when \<open>left\<close> hops are allowed and the first read is
  reported at depth \<open>depth\<close>.\<close>

definition owner_outcome ::
  "'w kube \<Rightarrow> owner_view \<Rightarrow> string \<Rightarrow> 'w \<Rightarrow> nat \<Rightarrow> nat \<Rightarrow> string \<times> ownerReference list \<Rightarrow> gerr + string \<Rightarrow> bool" where
  "owner_outcome K obj ns w left depth start r \<longleftrightarrow>
     (case r of
        Inr name \<Rightarrow>
          (\<exists>k refs. k \<le> left \<and> (owner_hop obj ns ^^ k) start (name, refs) \<and>
             (k < left \<longrightarrow> known_controller refs = None))
      | Inl e \<Rightarrow>
          (\<exists>k name refs ref g q. k < left \<and> (owner_hop obj ns ^^ k) start (name, refs) \<and>
             known_controller refs = Some (ref, g) \<and>
             run_state (kb_GetOwner K g ns (or_Name ref)) w = (Inl q, w) \<and>
             e = Wrapf ''getting %s/%s (depth %d): %w'' [or_Kind ref, or_Name ref, itoa (depth + k)] q))"

lemma owner_outcome_stop:
  "known_controller refs = None \<Longrightarrow> owner_outcome K obj ns w left depth (name, refs) (Inr name)"
  unfolding owner_outcome_def sum.case by (rule exI [of _ 0], rule exI [of _ refs]) simp

lemma owner_outcome_hop:
  assumes hop: "owner_hop obj ns start nx"
    and rest: "owner_outcome K obj ns w left (depth + 1) nx r"
  shows "owner_outcome K obj ns w (Suc left) depth start r"
proof (cases r)
  case (Inr name)
  then obtain k refs where "k \<le> left" "(owner_hop obj ns ^^ k) nx (name, refs)"
    "k < left \<longrightarrow> known_controller refs = None"
    using rest by (auto simp: owner_outcome_def)
  then show ?thesis unfolding owner_outcome_def Inr sum.case
    using relpowp_Suc_I2 [of "owner_hop obj ns", OF hop]
    by (intro exI [of _ "Suc k"] exI [of _ refs]) simp
next
  case (Inl e)
  then obtain k name refs ref g q where k: "k < left" "(owner_hop obj ns ^^ k) nx (name, refs)"
    and fail: "known_controller refs = Some (ref, g)" "run_state (kb_GetOwner K g ns (or_Name ref)) w = (Inl q, w)"
      "e = Wrapf ''getting %s/%s (depth %d): %w'' [or_Kind ref, or_Name ref, itoa (depth + 1 + k)] q"
    using rest by (auto simp: owner_outcome_def)
  then show ?thesis unfolding owner_outcome_def Inl sum.case
    using relpowp_Suc_I2 [of "owner_hop obj ns", OF hop k(2)]
    by (intro exI [of _ "Suc k"] exI [of _ name] exI [of _ refs] exI [of _ ref] exI [of _ g] exI [of _ q]) simp
qed

lemma ownerLoop_follows:
  assumes reads: "owner_reads K obj"
    and run: "run_state (ownerLoop left depth K ns name refs) w = (r, w')"
  shows "w' = w \<and> owner_outcome K obj ns w left depth (name, refs) r"
  using run
proof (induction left arbitrary: depth name refs)
  case 0
  then show ?case by (auto simp: go_run owner_outcome_def)
next
  case (Suc left)
  show ?case
  proof (cases "known_controller refs")
    case None
    then have "r = Inr name \<and> w' = w"
      using Suc.prems by (auto simp: go_run known_controller_def split: list.splits sum.splits)
    then show ?thesis using owner_outcome_stop [OF None] by simp
  next
    case (Some refg)
    then obtain ref rest g where ref: "controllerRefs refs = ref # rest" "ownerRefToGVR ref = Inr g"
      and known: "known_controller refs = Some (ref, g)"
      by (auto simp: known_controller_def split: list.splits sum.splits)
    obtain x wx where get: "run_state (kb_GetOwner K g ns (or_Name ref)) w = (x, wx)"
      by (cases "run_state (kb_GetOwner K g ns (or_Name ref)) w")
    then have wx: "wx = w" and obj: "x = Inr nx \<Longrightarrow> obj g ns (or_Name ref) = Some nx" for nx
      using reads unfolding owner_reads_def by blast+
    show ?thesis
    proof (cases x)
      case (Inl q)
      then have "w' = w \<and> r = Inl (Wrapf ''getting %s/%s (depth %d): %w'' [or_Kind ref, or_Name ref, itoa depth] q)"
        using Suc.prems ref get wx by (simp add: go_run)
      moreover have "owner_outcome K obj ns w (Suc left) depth (name, refs)
          (Inl (Wrapf ''getting %s/%s (depth %d): %w'' [or_Kind ref, or_Name ref, itoa depth] q))"
        unfolding owner_outcome_def sum.case using known get Inl wx by (intro exI [of _ 0]) simp
      ultimately show ?thesis by simp
    next
      case (Inr nx)
      obtain name1 refs1 where nxt: "nx = (name1, refs1)" by (cases nx)
      have "run_state (ownerLoop left (depth + 1) K ns name1 refs1) w = (r, w')"
        using Suc.prems ref get wx Inr nxt by (simp add: go_run)
      from Suc.IH [OF this] have w: "w' = w" and rest: "owner_outcome K obj ns w left (depth + 1) nx r"
        by (simp_all add: nxt)
      have "owner_hop obj ns (name, refs) nx" using ref obj [OF Inr] by (rule owner_hop.hop)
      from owner_outcome_hop [OF this rest] w show ?thesis by simp
    qed
  qed
qed

text \<open>C28: the resolved owner is the object reached from the pod by following first controller
  references of known kinds, exactly the objects the API server holds, at most maxOwnerDepth
  times; it stops earlier only at an object that has no such reference. An error comes only from
  the read of the next controller of an object so reached: it wraps the API server's error and
  names the kind, the name and the number of hops made. Nothing is written.\<close>

theorem resolveOwner_follows:
  assumes reads: "owner_reads (h_kube h) obj"
    and run: "run_state (resolveOwner h pod ns) w = (r, w')"
  shows "w' = w \<and>
    (case r of
       Inr name \<Rightarrow>
         (\<exists>k refs. k \<le> nat (h_maxOwnerDepth h) \<and>
            (owner_hop obj ns ^^ k) (pod_Name pod, pod_OwnerReferences pod) (name, refs) \<and>
            (k < nat (h_maxOwnerDepth h) \<longrightarrow> known_controller refs = None))
     | Inl e \<Rightarrow>
         (\<exists>k name refs ref g q. k < nat (h_maxOwnerDepth h) \<and>
            (owner_hop obj ns ^^ k) (pod_Name pod, pod_OwnerReferences pod) (name, refs) \<and>
            known_controller refs = Some (ref, g) \<and>
            run_state (kb_GetOwner (h_kube h) g ns (or_Name ref)) w = (Inl q, w) \<and>
            e = Wrapf ''getting %s/%s (depth %d): %w'' [or_Kind ref, or_Name ref, itoa k] q))"
proof (cases "h_maxOwnerDepth h = 0")
  case True
  then show ?thesis using run by (auto simp: resolveOwner_def go_run)
next
  case False
  then have "run_state (ownerLoop (nat (h_maxOwnerDepth h)) 0 (h_kube h) ns (pod_Name pod)
      (pod_OwnerReferences pod)) w = (r, w')" using run by (simp add: resolveOwner_def)
  from ownerLoop_follows [OF reads this] show ?thesis unfolding owner_outcome_def add_0 .
qed

definition exampleOwners :: owner_view where
  "exampleOwners g ns n = map_of (cu_owners exampleCluster) (gvr_Resource g, n)"

definition fixedKube :: "cluster kube" where
  "fixedKube = clusterKube\<lparr>kb_GetOwner := (\<lambda>g ns n. State (\<lambda>w.
     (case exampleOwners g ns n of None \<Rightarrow> Inl (Sentinel ErrNotFound) | Some x \<Rightarrow> Inr x, w)))\<rparr>"

theorem resolveOwner_follows_witness:
  "\<exists>k refs. k \<le> 2 \<and> (owner_hop exampleOwners ''prod'' ^^ k) (pod_Name examplePod, pod_OwnerReferences examplePod) (''web'', refs) \<and>
     (k < 2 \<longrightarrow> known_controller refs = None)"
proof -
  let ?h = "exampleHandler\<lparr>h_kube := fixedKube\<rparr>"
  let ?m = "resolveOwner ?h examplePod ''prod''"
  have reads: "owner_reads (h_kube ?h) exampleOwners"
    by (auto simp: owner_reads_def fixedKube_def split: option.splits)
  have "fst (run_state ?m exampleCluster) = Inr ''web''" by code_simp
  then have run: "run_state ?m exampleCluster = (Inr ''web'', snd (run_state ?m exampleCluster))"
    by (metis prod.collapse)
  have "h_maxOwnerDepth ?h = 2" by code_simp
  with resolveOwner_follows [OF reads run] show ?thesis by simp
qed


section \<open>PVC resolution\<close>

text \<open>C29: a pod that carries the override annotation selects its PVC alone: whatever the global name
  and selector templates are, the result is the same, a value that renders to the empty
  string is an error, and a PVC that is returned is the one the API server returned for the
  rendered name.\<close>

theorem resolvePVC_override:
  assumes key: "h_pvcNameTmplAnnotation h \<noteq> []"
    and override: "podAnnotation pod (h_pvcNameTmplAnnotation h) = Some tmplText"
    and run: "run_state (resolvePVC h ns pod data) w = (r, w')"
  shows "run_state (resolvePVC (h\<lparr>h_pvcNameTmpl := a, h_pvcSelectorTmpl := b\<rparr>) ns pod data) w = (r, w') \<and>
         (tt_render (h_template h) tmplText data = Inr [] \<longrightarrow> (\<exists>e. r = Inl e) \<and> w' = w) \<and>
         (\<forall>p. r = Inr p \<longrightarrow> (\<exists>name. tt_render (h_template h) tmplText data = Inr name \<and> name \<noteq> [] \<and>
                 run_state (kb_GetPVC (h_kube h) ns name) w = ((p, None), w')))"
  using assms
  by (auto simp: resolvePVC_def resolvePVCFromAnnotation_def renderTemplate_def tt_render_def go_run
      split: sum.splits prod.splits option.splits if_splits)

theorem resolvePVC_override_witness:
  "\<exists>p. fst (run_state (resolvePVC exampleHandler ''prod''
        (examplePod\<lparr>pod_Annotations := Some [(''pv-snapshotter.humble-mun.io/pvc-name-template'', ''state-{{.PodIndex}}'')]\<rparr>)
        exampleData) exampleCluster) = Inr p \<and> pvc_Name p = ''state-0''"
proof -
  let ?pod = "examplePod\<lparr>pod_Annotations := Some [(''pv-snapshotter.humble-mun.io/pvc-name-template'', ''state-{{.PodIndex}}'')]\<rparr>"
  let ?m = "resolvePVC exampleHandler ''prod'' ?pod exampleData"
  let ?p = "\<lparr>pvc_Name = ''state-0'', pvc_Phase = ''Pending'', pvc_VolumeName = []\<rparr>"
  have key: "h_pvcNameTmplAnnotation exampleHandler \<noteq> []" by code_simp
  have ov: "podAnnotation ?pod (h_pvcNameTmplAnnotation exampleHandler) = Some ''state-{{.PodIndex}}''" by code_simp
  have "fst (run_state ?m exampleCluster) = Inr ?p" by code_simp
  then have run: "run_state ?m exampleCluster = (Inr ?p, snd (run_state ?m exampleCluster))" by (metis prod.collapse)
  from resolvePVC_override [OF key ov run, of None None] run show ?thesis by (metis fst_conv pvc.select_convs(1))
qed


section \<open>Waiting for the PVC\<close>

text \<open>
  The clock: Now reads it, a wait that was not cancelled advances it by at least the time asked
  for, and no request sets it back.
\<close>

definition clock_laws :: "'w kube \<Rightarrow> ('w \<Rightarrow> int) \<Rightarrow> bool" where
  "clock_laws K clk \<longleftrightarrow>
     (\<forall>w. run_state (kb_Now K) w = (clk w, w)) \<and>
     (\<forall>d w w'. run_state (kb_Wait K d) w = (None, w') \<longrightarrow> clk w + d \<le> clk w') \<and>
     (\<forall>ns n w r w'. run_state (kb_GetPVC K ns n) w = (r, w') \<longrightarrow> clk w \<le> clk w')"

lemma waitLoop_terminates:
  assumes laws: "clock_laws K clk" and "deadline - clk w \<le> int n * boundPollInterval"
  shows "\<exists>r w'. run_state (waitLoop (Suc n) K deadline ns p) w = (Some r, w')"
  using assms(2)
proof (induction n arbitrary: w p)
  case 0
  then show ?case using laws by (simp add: clock_laws_def go_run Let_def)
next
  case (Suc n)
  let ?sleep = "if boundPollInterval > deadline - clk w then deadline - clk w else boundPollInterval"
  have now: "run_state (kb_Now K) w = (clk w, w)" using laws by (simp add: clock_laws_def)
  show ?case
  proof (cases "pvc_Phase p = ClaimBound \<or> deadline - clk w \<le> 0")
    case True
    then show ?thesis using now by (subst waitLoop.simps) (auto simp: go_run Let_def)
  next
    case False
    obtain e w1 where wait: "run_state (kb_Wait K ?sleep) w = (e, w1)" by (cases "run_state (kb_Wait K ?sleep) w")
    obtain p2 e2 w2 where get: "run_state (kb_GetPVC K ns (pvc_Name p)) w1 = ((p2, e2), w2)" by (metis surj_pair)
    show ?thesis
    proof (cases "e = None \<and> e2 = None")
      case True
      then have "clk w + ?sleep \<le> clk w1" "clk w1 \<le> clk w2"
        using wait get laws unfolding clock_laws_def by (blast, metis)
      then have "deadline - clk w2 \<le> int n * boundPollInterval"
        using Suc.prems False by (auto simp: boundPollInterval_def algebra_simps split: if_splits)
      then obtain r w3 where "run_state (waitLoop (Suc n) K deadline ns p2) w2 = (Some r, w3)"
        using Suc.IH by blast
      then show ?thesis using True False now wait get
        by (subst waitLoop.simps) (simp add: go_run Let_def)
    next
      case failed: False
      then show ?thesis using False now wait get
        by (subst waitLoop.simps) (auto simp: go_run Let_def split: option.splits)
    qed
  qed
qed

lemma waitBound_returns:
  assumes laws: "clock_laws (h_kube h) clk" and n: "h_boundTimeout h \<le> int n * boundPollInterval"
  shows "\<exists>r w'. run_state (waitBound (Suc n) h p ns) w = (Some r, w')"
proof -
  have now: "run_state (kb_Now (h_kube h)) w = (clk w, w)" using laws by (simp add: clock_laws_def)
  have "clk w + h_boundTimeout h - clk w \<le> int n * boundPollInterval" using n by simp
  from waitLoop_terminates [OF laws this, of ns p] obtain r w1 where
    loop: "run_state (waitLoop (Suc n) (h_kube h) (clk w + h_boundTimeout h) ns p) w = (Some r, w1)" by blast
  show ?thesis
  proof (cases r)
    case (Inl e)
    then show ?thesis using now loop by (simp add: waitBound_def go_run Let_def del: waitLoop.simps)
  next
    case (Inr q)
    then show ?thesis using now loop
      by (cases "run_state (boundVolume (h_kube h) q) w1") (simp add: waitBound_def go_run Let_def del: waitLoop.simps)
  qed
qed

text \<open>C17: every admission request is answered: the polling loop ends, after at most one fetch per poll
  interval of the bound timeout and one more, whatever the API server answers. With the default
  timeout of 30 seconds and the poll interval of 2 seconds that is n = 15.\<close>

theorem mutate_terminates:
  assumes laws: "clock_laws (h_kube h) clk" and n: "h_boundTimeout h \<le> int n * boundPollInterval"
  shows "\<exists>resp w'. run_state (mutate (Suc n) J h req) w = (Some resp, w')"
proof (cases "js_decodePod J (rq_Object req)")
  case (Inl e)
  then show ?thesis by (simp add: mutate_def go_run)
next
  case (Inr pod)
  obtain ow w1 where ow: "run_state (resolveOwner h pod (rq_Namespace req)) w = (ow, w1)"
    by (cases "run_state (resolveOwner h pod (rq_Namespace req)) w")
  show ?thesis
  proof (cases ow)
    case (Inl e)
    then show ?thesis using Inr ow by (simp add: mutate_def go_run)
  next
    case owner: (Inr owner)
    let ?data = "initialData owner req pod"
    obtain c w2 where c: "run_state (resolvePVC h (rq_Namespace req) pod ?data) w1 = (c, w2)"
      by (cases "run_state (resolvePVC h (rq_Namespace req) pod ?data) w1")
    show ?thesis
    proof (cases c)
      case (Inl e)
      then show ?thesis using Inr ow owner c by (simp add: mutate_def go_run Let_def)
    next
      case pvc: (Inr p)
      obtain r w3 where "run_state (waitBound (Suc n) h p (rq_Namespace req)) w2 = (Some r, w3)"
        using waitBound_returns [OF laws n] by blast
      then show ?thesis using Inr ow owner c pvc
        by (auto simp: mutate_def go_run Let_def split: sum.splits prod.splits)
    qed
  qed
qed

lemma clusterKube_clock: "clock_laws clusterKube cu_now"
  by (simp add: clock_laws_def clusterKube_def)

definition exampleJSON :: json_pkg where
  "exampleJSON =
     \<lparr>js_bindReview = (\<lambda>b. Inl (Errorf ''EOF'' [b])), js_decodePod = (\<lambda>b. Inr examplePod),
      js_encodePatch = (\<lambda>ops. Inr (concat (map op_Path ops)))\<rparr>"

definition exampleRequest :: admissionRequest where
  "exampleRequest = \<lparr>rq_UID = ''req-1'', rq_Name = ''web-0'', rq_Namespace = ''prod'', rq_Object = ''pod''\<rparr>"

lemma exampleHandler_simps:
  "h_kube exampleHandler = clusterKube" "h_boundTimeout exampleHandler = 30000000000"
proof -
  have "\<not> isl (New webhookTemplates exampleSetup)" by code_simp
  then obtain h where h: "New webhookTemplates exampleSetup = Inr h" by (cases "New webhookTemplates exampleSetup") auto
  then have "h_kube h = ws_kube exampleSetup \<and> h_boundTimeout h = ws_GetDuration exampleSetup flagBoundTimeout"
    by (auto simp: New_def split: option.splits sum.splits)
  then show "h_kube exampleHandler = clusterKube" "h_boundTimeout exampleHandler = 30000000000"
    using h by (simp_all add: exampleHandler_def exampleSetup_def)
qed

theorem mutate_terminates_witness:
  "\<exists>resp w'. run_state (mutate 16 exampleJSON exampleHandler exampleRequest) exampleCluster = (Some resp, w')"
  using mutate_terminates [of exampleHandler cu_now 15 exampleJSON exampleRequest exampleCluster]
  by (simp add: exampleHandler_simps clusterKube_clock boundPollInterval_def)


section \<open>The admission response\<close>

text \<open>
  One round of the wait: the claim is not bound, the clock is read, the timer fires, and the claim
  is read again under its own name, in the world the round has reached.
\<close>

inductive poll :: "'w kube \<Rightarrow> string \<Rightarrow> pvc \<times> 'w \<Rightarrow> pvc \<times> 'w \<Rightarrow> bool" for K ns where
  round: "pvc_Phase p \<noteq> ClaimBound \<Longrightarrow> run_state (kb_Now K) w = (t, w0) \<Longrightarrow>
    run_state (kb_Wait K d) w0 = (None, w1) \<Longrightarrow>
    run_state (kb_GetPVC K ns (pvc_Name p)) w1 = ((q, None), w2) \<Longrightarrow> poll K ns (p, w) (q, w2)"

text \<open>A read of a claim returns the claim of the requested name.\<close>

definition pvc_named :: "'w kube \<Rightarrow> bool" where
  "pvc_named K \<longleftrightarrow> (\<forall>ns n w p w'. run_state (kb_GetPVC K ns n) w = ((p, None), w') \<longrightarrow> pvc_Name p = n)"

lemma polls_name:
  assumes "(poll K ns)\<^sup>*\<^sup>* x y" and "pvc_named K"
  shows "pvc_Name (fst y) = pvc_Name (fst x)"
  using assms(1)
proof (induction rule: rtranclp_induct)
  case base
  then show ?case by simp
next
  case (step y z)
  from step.hyps(2) obtain n w1 where "n = pvc_Name (fst y)" "run_state (kb_GetPVC K ns n) w1 = ((fst z, None), snd z)"
    by (cases rule: poll.cases) auto
  then have "pvc_Name (fst z) = pvc_Name (fst y)" using assms(2) unfolding pvc_named_def by blast
  with step.IH show ?case by simp
qed

lemma waitLoop_polls:
  assumes "run_state (waitLoop fuel K deadline ns p) w = (Some (Inr q), w')"
  shows "(poll K ns)\<^sup>*\<^sup>* (p, w) (q, w') \<and> pvc_Phase q = ClaimBound"
  using assms
proof (induction fuel arbitrary: p w)
  case 0
  then show ?case by (simp add: go_run)
next
  case (Suc fuel)
  show ?case
  proof (cases "pvc_Phase p = ClaimBound")
    case True
    then show ?thesis using Suc.prems by (simp add: go_run)
  next
    case False
    then obtain t w0 d w1 p' w2 where "run_state (kb_Now K) w = (t, w0)" "run_state (kb_Wait K d) w0 = (None, w1)"
      "run_state (kb_GetPVC K ns (pvc_Name p)) w1 = ((p', None), w2)"
      and rest: "run_state (waitLoop fuel K deadline ns p') w2 = (Some (Inr q), w')"
      using Suc.prems by (auto simp: go_run Let_def split: if_splits prod.splits option.splits)
    then have "poll K ns (p, w) (p', w2)" using False by (intro poll.round)
    with Suc.IH [OF rest] show ?thesis by (metis converse_rtranclp_into_rtranclp)
  qed
qed

text \<open>The claim \<open>p\<close>, watched from world \<open>w\<close> on, was seen bound to a volume: after reading the clock, some
  rounds of polling that very claim end at a read of it in phase Bound with that volume.\<close>

definition seenBound :: "'w kube \<Rightarrow> string \<Rightarrow> pvc \<Rightarrow> 'w \<Rightarrow> string \<Rightarrow> bool" where
  "seenBound K ns p w pvName \<longleftrightarrow>
     (\<exists>now w0 q w1. run_state (kb_Now K) w = (now, w0) \<and> (poll K ns)\<^sup>*\<^sup>* (p, w0) (q, w1) \<and>
        (pvc_named K \<longrightarrow> pvc_Name q = pvc_Name p) \<and>
        pvc_Phase q = ''Bound'' \<and> pvc_VolumeName q = pvName \<and> pvName \<noteq> [])"

lemma waitBound_volume:
  assumes "run_state (waitBound fuel h p ns) w = (Some (Inr (pvName, vh)), w')"
  shows "seenBound (h_kube h) ns p w pvName"
proof -
  obtain now w1 where now: "run_state (kb_Now (h_kube h)) w = (now, w1)" by (cases "run_state (kb_Now (h_kube h)) w")
  obtain q w2 where loop: "run_state (waitLoop fuel (h_kube h) (now + h_boundTimeout h) ns p) w1 = (Some (Inr q), w2)"
    and vol: "run_state (boundVolume (h_kube h) q) w2 = (Inr (pvName, vh), w')"
    using assms now by (auto simp: waitBound_def go_run Let_def split: prod.splits option.splits sum.splits)
  have "pvc_VolumeName q = pvName \<and> pvName \<noteq> []"
    using vol by (auto simp: boundVolume_def go_run Let_def split: if_splits prod.splits sum.splits option.splits)
  moreover have "(poll (h_kube h) ns)\<^sup>*\<^sup>* (p, w1) (q, w2)" "pvc_Phase q = ''Bound''"
    using waitLoop_polls [OF loop] by (simp_all add: ClaimBound_def)
  ultimately show ?thesis unfolding seenBound_def using now polls_name by fastforce
qed

text \<open>C8: what an admission response guarantees. It echoes the UID of the request. A pod is allowed only
  with a JSON patch, and only after the PVC that its owner resolves to was seen in phase Bound
  with a volume name: it is the claim resolved, or a later read of it under its own name in the
  world the wait had reached, and the volume is the one that read names; the encoded operations are those built for that pod, PVC and volume, and
  applied to the pod they give the intended pod. Every other response is a denial with status
  422 and no patch.\<close>

theorem mutate_response:
  assumes run: "run_state (mutate fuel J h req) w = (Some resp, w')"
  shows "rs_UID resp = rq_UID req \<and>
     (if rs_Allowed resp then
        \<exists>pod owner w1 p w2 pvName vh ops bytes.
          js_decodePod J (rq_Object req) = Inr pod \<and>
          run_state (resolveOwner h pod (rq_Namespace req)) w = (Inr owner, w1) \<and>
          run_state (resolvePVC h (rq_Namespace req) pod (initialData owner req pod)) w1 = (Inr p, w2) \<and>
          run_state (waitBound fuel h p (rq_Namespace req)) w2 = (Some (Inr (pvName, vh)), w') \<and>
          seenBound (h_kube h) (rq_Namespace req) p w2 pvName \<and>
          buildPatch h pod (pvc_Name p) ((initialData owner req pod)\<lparr>PVName := pvName, VolumeHandle := vh\<rparr>) = Inr ops \<and>
          applyPatch ops pod = Some (patchedPod h pod (pvc_Name p)
            ((initialData owner req pod)\<lparr>PVName := pvName, VolumeHandle := vh\<rparr>)) \<and>
          js_encodePatch J ops = Inr bytes \<and> rs_Patch resp = Some bytes \<and> rs_PatchType resp = Some ''JSONPatch''
      else rs_Code resp = Some 422 \<and> rs_Patch resp = None \<and> rs_PatchType resp = None)"
proof (cases "rs_Allowed resp")
  case False
  then show ?thesis using run
    by (auto simp: mutate_def go_run Let_def deny_def split: prod.splits sum.splits option.splits)
next
  case True
  obtain pod owner w1 p w2 pvName vh ops bytes where
    runs: "js_decodePod J (rq_Object req) = Inr pod"
      "run_state (resolveOwner h pod (rq_Namespace req)) w = (Inr owner, w1)"
      "run_state (resolvePVC h (rq_Namespace req) pod (initialData owner req pod)) w1 = (Inr p, w2)"
    and wait: "run_state (waitBound fuel h p (rq_Namespace req)) w2 = (Some (Inr (pvName, vh)), w')"
    and patch: "buildPatch h pod (pvc_Name p)
            ((initialData owner req pod)\<lparr>PVName := pvName, VolumeHandle := vh\<rparr>) = Inr ops"
    and resp: "js_encodePatch J ops = Inr bytes" "rs_UID resp = rq_UID req" "rs_Patch resp = Some bytes"
      "rs_PatchType resp = Some ''JSONPatch''"
    using run True
    by (auto simp: mutate_def go_run Let_def deny_def split: prod.splits sum.splits option.splits)
  show ?thesis
    using True runs wait waitBound_volume [OF wait] patch buildPatch_applies [OF patch] resp by simp
qed

theorem mutate_response_witness:
  "\<exists>resp. fst (run_state (mutate 16 exampleJSON exampleHandler exampleRequest) exampleCluster) = Some resp \<and>
     rs_UID resp = ''req-1'' \<and> rs_Allowed resp"
proof -
  let ?m = "mutate 16 exampleJSON exampleHandler exampleRequest"
  let ?resp = "the (fst (run_state ?m exampleCluster))"
  have some: "fst (run_state ?m exampleCluster) \<noteq> None \<and> rs_Allowed ?resp" by code_simp
  then have run: "run_state ?m exampleCluster = (Some ?resp, snd (run_state ?m exampleCluster))"
    by (metis option.collapse prod.collapse)
  have "rq_UID exampleRequest = ''req-1''" by (simp add: exampleRequest_def)
  with mutate_response [OF run] some run show ?thesis by (metis option.collapse)
qed

end
