(* ===== verification/Config_Props.thy ===== *)
theory Config_Props
  imports Config_Sidecar
begin

text \<open>
  Properties of the config subcommand: the patch of config.toml only appends and is idempotent,
  a runtime class given twice is written twice, the sidecar restarts containerd only after a
  change, the re-executed binary only ever restarts containerd, and the readiness loop.
\<close>


section \<open>The file\<close>

text \<open>
  \<open>content w path\<close>: the bytes of a file. Reading does not change files; opening for append and
  closing keep them; a write appends the text, or on an error some prefix of it.
\<close>

definition file_laws :: "'w file_api \<Rightarrow> ('w \<Rightarrow> string \<Rightarrow> string) \<Rightarrow> bool" where
  "file_laws F content \<longleftrightarrow>
     (\<forall>p w r w'. run_state (f_ReadFile F p) w = (r, w') \<longrightarrow> content w' = content w \<and> (\<forall>raw. r = Inr raw \<longrightarrow> raw = content w p)) \<and>
     (\<forall>p w e w'. run_state (f_OpenAppend F p) w = (e, w') \<longrightarrow> content w' = content w) \<and>
     (\<forall>p w u w'. run_state (f_Close F p) w = (u, w') \<longrightarrow> content w' = content w) \<and>
     (\<forall>p t w w'. run_state (f_WriteString F p t) w = (None, w') \<longrightarrow>
        content w' = (content w)(p := content w p @ t)) \<and>
     (\<forall>p t w e w'. run_state (f_WriteString F p t) w = (Some e, w') \<longrightarrow>
        (\<exists>t'. has_prefix t t' \<and> content w' = (content w)(p := content w p @ t')))"

lemma file_lawsD:
  assumes "file_laws F content"
  shows "run_state (f_ReadFile F p) w = (r, w') \<Longrightarrow> content w' = content w \<and> (\<forall>raw. r = Inr raw \<longrightarrow> raw = content w p)"
    and "run_state (f_OpenAppend F p) w = (e, w') \<Longrightarrow> content w' = content w"
    and "run_state (f_Close F p) w = (u, w') \<Longrightarrow> content w' = content w"
    and "run_state (f_WriteString F p t) w = (None, w') \<Longrightarrow> content w' = (content w)(p := content w p @ t)"
    and "run_state (f_WriteString F p t) w = (Some e', w') \<Longrightarrow>
           \<exists>t'. has_prefix t t' \<and> content w' = (content w)(p := content w p @ t')"
  using assms unfolding file_laws_def by simp_all

lemma appendToFile_run:
  assumes laws: "file_laws F content" and run: "run_state (appendToFile F p t) w = (e, w')"
  shows "\<exists>t'. content w' = (content w)(p := content w p @ t') \<and> (e = None \<longrightarrow> t' = t)"
proof -
  obtain e1 w1 where opn: "run_state (f_OpenAppend F p) w = (e1, w1)" by (cases "run_state (f_OpenAppend F p) w")
  note k1 = file_lawsD(2) [OF laws opn]
  show ?thesis
  proof (cases e1)
    case (Some err)
    then have "content w' = (content w)(p := content w p @ [])" "e \<noteq> None"
      using run opn k1 by (auto simp: appendToFile_def go_run)
    then show ?thesis by blast
  next
    case None
    obtain e2 w2 where wr: "run_state (f_WriteString F p t) w1 = (e2, w2)" by (cases "run_state (f_WriteString F p t) w1")
    obtain u w3 where cl: "run_state (f_Close F p) w2 = (u, w3)" by (cases "run_state (f_Close F p) w2")
    note k3 = file_lawsD(3) [OF laws cl]
    have w': "w' = w3" "e = None \<longleftrightarrow> e2 = None"
      using run opn None wr cl by (auto simp: appendToFile_def go_run split: option.splits)
    show ?thesis
    proof (cases e2)
      case None
      then show ?thesis using file_lawsD(4) [OF laws wr [unfolded None]] k1 k3 w' by auto
    next
      case (Some err)
      obtain t' where "content w2 = (content w1)(p := content w1 p @ t')"
        using file_lawsD(5) [OF laws wr [unfolded Some]] by blast
      then show ?thesis using k1 k3 w' Some by auto
    qed
  qed
qed

lemma Apply_run:
  assumes laws: "file_laws F content" and run: "run_state (Apply TP F params) w = (r, w')"
  shows "\<exists>t. content w' = (content w)(ConfigPath params := content w (ConfigPath params) @ t) \<and>
     (\<forall>modified. r = Inr modified \<longrightarrow>
        (\<exists>tree. toml_Unmarshal TP (content w (ConfigPath params)) = Inr tree \<and>
           modified = (collectMissing tree params \<noteq> []) \<and>
           t = (if modified then buildSnippet TP (SocketPath params) (collectMissing tree params) else [])))"
proof -
  let ?p = "ConfigPath params"
  obtain rd w1 where rd: "run_state (f_ReadFile F ?p) w = (rd, w1)" by (cases "run_state (f_ReadFile F ?p) w")
  have k1: "content w1 = content w" using file_lawsD(1) [OF laws rd] by simp
  have same: "content w = (content w)(?p := content w ?p @ [])" by simp
  show ?thesis
  proof (cases "\<exists>raw tree. rd = Inr raw \<and> toml_Unmarshal TP raw = Inr tree")
    case False
    then have "w' = w1 \<and> (\<exists>e. r = Inl e)"
      using run rd by (cases rd) (auto simp: Apply_def go_run split: sum.splits)
    then show ?thesis using k1 same by (intro exI [of _ "[]"]) auto
  next
    case True
    then obtain raw tree where raw: "rd = Inr raw" "toml_Unmarshal TP raw = Inr tree" by blast
    then have raw': "toml_Unmarshal TP (content w ?p) = Inr tree" using file_lawsD(1) [OF laws rd] by simp
    let ?snip = "buildSnippet TP (SocketPath params) (collectMissing tree params)"
    show ?thesis
    proof (cases "collectMissing tree params = []")
      case True
      then have "w' = w1 \<and> r = Inr False" using run rd raw by (auto simp: Apply_def go_run Let_def)
      then show ?thesis using k1 same raw' True by (intro exI [of _ "[]"]) auto
    next
      case False
      obtain e w2 where app: "run_state (appendToFile F ?p ?snip) w1 = (e, w2)"
        by (cases "run_state (appendToFile F ?p ?snip) w1")
      have "w' = w2 \<and> r = (case e of Some err \<Rightarrow> Inl err | None \<Rightarrow> Inr True)"
        using run rd raw False app by (auto simp: Apply_def go_run Let_def)
      then show ?thesis using appendToFile_run [OF laws app] k1 raw' False by (auto split: option.splits)
    qed
  qed
qed

text \<open>C22: Apply only appends to the configuration file and touches no other file: whatever happens, the
  old content is a prefix of the new one. When it reports a modification it appended exactly
  the block for the missing sections, of which there was at least one; when it reports none,
  no section was missing and the file is unchanged.\<close>

theorem Apply_append_only:
  assumes "file_laws F content" and "run_state (Apply TP F params) w = (r, w')"
  shows "\<exists>t. content w' = (content w)(ConfigPath params := content w (ConfigPath params) @ t) \<and>
     (\<forall>modified. r = Inr modified \<longrightarrow>
        (\<exists>tree. toml_Unmarshal TP (content w (ConfigPath params)) = Inr tree \<and>
           modified = (collectMissing tree params \<noteq> []) \<and>
           t = (if modified then buildSnippet TP (SocketPath params) (collectMissing tree params) else [])))"
  using assms by (rule Apply_run)


section \<open>TOML headers\<close>

definition bareChar :: "char \<Rightarrow> bool" where
  "bareChar c = (c \<in> set ''abcdefghijklmnopqrstuvwxyzABCDEFGHIJKLMNOPQRSTUVWXYZ0123456789-_'')"

definition bareKey :: "string \<Rightarrow> bool" where
  "bareKey k = (k \<noteq> [] \<and> list_all bareChar k)"

text \<open>A key as it is written in a header: bare, or as a basic string without escapes.\<close>

definition quotableKey :: "string \<Rightarrow> bool" where
  "quotableKey k = (CHR 0x22 \<notin> set k \<and> CHR 0x5C \<notin> set k \<and> CHR 0x0A \<notin> set k)"

definition tomlKey :: "string \<Rightarrow> string" where
  "tomlKey k = (if bareKey k then k else dquote @ k @ dquote)"

definition tomlHeader :: "string list \<Rightarrow> string" where
  "tomlHeader path = ''['' @ join (map tomlKey path) ''.'' @ '']''"

text \<open>
  What the code relies on of go-toml, for documents without multi-line strings: a header line of
  a table below \<^verbatim>\<open>plugins\<close> or \<^verbatim>\<open>proxy_plugins\<close> makes that path present in the decoded tree, and
  appending further lines to a document removes no path from it.
\<close>

definition toml_laws :: "toml_pkg \<Rightarrow> bool" where
  "toml_laws TP \<longleftrightarrow>
     (\<forall>text tree path. toml_Unmarshal TP text = Inr tree \<longrightarrow>
        \<not> contains text [CHR 0x22, CHR 0x22, CHR 0x22] \<longrightarrow> \<not> contains text [CHR 0x27, CHR 0x27, CHR 0x27] \<longrightarrow>
        length path \<ge> 2 \<longrightarrow> hd path \<in> {''plugins'', ''proxy_plugins''} \<longrightarrow> list_all quotableKey path \<longrightarrow>
        tomlHeader path \<in> set (split_all text (CHR 0x0A)) \<longrightarrow> hasKey tree path) \<and>
     (\<forall>raw text t0 t1 path. toml_Unmarshal TP raw = Inr t0 \<longrightarrow>
        toml_Unmarshal TP (raw @ newline @ text) = Inr t1 \<longrightarrow> hasKey t0 path \<longrightarrow> hasKey t1 path)"

definition runtimePath :: "string \<Rightarrow> string \<Rightarrow> string list" where
  "runtimePath criKey name = [''plugins'', criKey, ''containerd'', ''runtimes'', name]"

lemma hasKey_Cons2:
  "hasKey t (k # k' # ks) = (case subtable t k of None \<Rightarrow> False | Some sub \<Rightarrow> hasKey sub (k' # ks))"
  by (auto simp: subtable_def split: option.splits toml.splits)

lemma hasKey_single: "hasKey t [k] = (map_of t k \<noteq> None)"
  by (auto split: option.splits)

lemma hasRuntimeEntry_iff:
  "hasRuntimeEntry tree name \<longleftrightarrow>
     hasKey tree (runtimePath ''io.containerd.grpc.v1.cri'' name) \<or>
     hasKey tree (runtimePath ''io.containerd.cri.v1.runtime'' name)"
  by (auto simp: hasRuntimeEntry_def criKeys_def runtimesOf_def runtimePath_def hasKey_Cons2 hasKey_single
      simp del: hasKey.simps split: option.splits)

lemma split_all_app: "split_all (a @ sep # b) sep = split_all a sep @ split_all b sep"
proof (induction a)
  case (Cons c a)
  show ?case
  proof (cases "split_all a sep")
    case (Cons l ls)
    then show ?thesis using Cons.IH by simp
  qed simp
qed simp

lemma split_all_mid: "sep \<notin> set line \<Longrightarrow> line \<in> set (split_all (a @ sep # line @ sep # b) sep)"
  by (simp add: split_all_app split_all_no_sep)

definition hasLine :: "string \<Rightarrow> string \<Rightarrow> bool" where
  "hasLine text line = (\<exists>a b. text = a @ newline @ line @ newline @ b)"

lemma hasLine_lines: "hasLine text line \<Longrightarrow> CHR 0x0A \<notin> set line \<Longrightarrow> line \<in> set (split_all text (CHR 0x0A))"
  using split_all_mid [of "CHR 0x0A" line] by (auto simp: hasLine_def)

lemma hasLine_mid: "hasLine text line \<Longrightarrow> hasLine (a @ text @ b) line"
  unfolding hasLine_def by (metis append.assoc)

lemma hasLine_section: "hasLine (newline @ line @ newline @ b) line"
  unfolding hasLine_def by (metis append_Nil)

lemma join_no_char: "c \<notin> set sep \<Longrightarrow> (\<And>x. x \<in> set xs \<Longrightarrow> c \<notin> set x) \<Longrightarrow> c \<notin> set (join xs sep)"
  by (induction xs sep rule: join.induct) auto

lemma tomlHeader_no_newline: "list_all quotableKey path \<Longrightarrow> CHR 0x0A \<notin> set (tomlHeader path)"
proof -
  assume "list_all quotableKey path"
  then have "CHR 0x0A \<notin> set (join (map tomlKey path) ''.'')"
    by (intro join_no_char) (auto simp: list_all_iff tomlKey_def quotableKey_def)
  then show ?thesis by (simp add: tomlHeader_def)
qed

lemma not_bareChar: "\<not> bareChar (CHR 0x22)" "\<not> bareChar (CHR 0x5C)" "\<not> bareChar (CHR 0x0A)"
  by code_simp+

lemma bare_quotable: "bareKey k \<Longrightarrow> quotableKey k"
  unfolding bareKey_def quotableKey_def list_all_iff using not_bareChar by blast

text \<open>The snippets open with the header of the section they write.\<close>

lemma proxy_header: "hasLine (proxyPluginSnippet socket) (tomlHeader [''proxy_plugins'', ''pv-snapshotter''])"
proof -
  have "tomlHeader [''proxy_plugins'', ''pv-snapshotter''] = ''[proxy_plugins.pv-snapshotter]''" by code_simp
  then show ?thesis
    unfolding proxyPluginSnippet_def by (metis append.assoc hasLine_section)
qed

lemma runtime_header:
  assumes "bareKey name"
  shows "hasLine (runtimeSnippet TP name base) (tomlHeader (runtimePath ''io.containerd.grpc.v1.cri'' name))"
proof -
  have "tomlKey ''plugins'' = ''plugins''" "tomlKey ''containerd'' = ''containerd''" "tomlKey ''runtimes'' = ''runtimes''"
    "tomlKey ''io.containerd.grpc.v1.cri'' = dquote @ ''io.containerd.grpc.v1.cri'' @ dquote" by code_simp+
  then have "tomlHeader (runtimePath ''io.containerd.grpc.v1.cri'' name) = ''['' @ criPrefix @ name @ '']''"
    using assms by (simp add: tomlHeader_def runtimePath_def criPrefix_def tomlKey_def [of name])
  moreover have "\<exists>b. runtimeSnippet TP name base = newline @ (''['' @ criPrefix @ name @ '']'') @ newline @ b"
    by (auto simp: runtimeSnippet_def Let_def)
  ultimately show ?thesis by (metis hasLine_section)
qed

fun sectionPath :: "missingSection \<Rightarrow> string list" where
  "sectionPath ProxyPlugin = [''proxy_plugins'', ''pv-snapshotter'']"
| "sectionPath (Runtime name base) = runtimePath ''io.containerd.grpc.v1.cri'' name"

fun sectionBare :: "missingSection \<Rightarrow> bool" where
  "sectionBare ProxyPlugin = True"
| "sectionBare (Runtime name base) = bareKey name"

lemma buildSnippet_headers:
  assumes "sec \<in> set secs" and "sectionBare sec"
  shows "hasLine (buildSnippet TP socket secs) (tomlHeader (sectionPath sec))"
proof -
  obtain xs ys where secs: "secs = xs @ sec # ys" using assms(1) by (auto dest: split_list)
  have "hasLine (sectionSnippet TP socket sec) (tomlHeader (sectionPath sec))"
    using assms(2) proxy_header runtime_header by (cases sec) simp_all
  then show ?thesis unfolding buildSnippet_def secs
    by (simp add: hasLine_mid [of _ _ "snippetHeader @ concat (map (sectionSnippet TP socket) xs)", simplified])
qed

lemma missingRuntimes_names: "Runtime name b \<in> set (missingRuntimes tree rts) \<Longrightarrow> name \<in> rt_Name ` set rts"
  by (induction tree rts rule: missingRuntimes.induct) (auto split: if_splits)

lemma missingRuntimes_iff:
  "Runtime name b \<in> set (missingRuntimes tree rts) \<longleftrightarrow>
     (\<exists>rt \<in> set rts. rt_Name rt = name \<and> \<not> hasRuntimeEntry tree name \<and> b = lookupBaseRuntime tree (rt_BaseRuntimeName rt))"
  by (induction tree rts rule: missingRuntimes.induct) auto

lemma collectMissing_iff:
  "ProxyPlugin \<in> set (collectMissing tree params) \<longleftrightarrow> \<not> hasKey tree [''proxy_plugins'', ''pv-snapshotter'']"
  "Runtime name b \<in> set (collectMissing tree params) \<longleftrightarrow>
     (\<exists>rt \<in> set (Runtimes params). rt_Name rt = name \<and> \<not> hasRuntimeEntry tree name \<and>
        b = lookupBaseRuntime tree (rt_BaseRuntimeName rt))"
proof -
  have "ProxyPlugin \<notin> set (missingRuntimes tree rts)" for rts by (induction rts) auto
  then show "ProxyPlugin \<in> set (collectMissing tree params) \<longleftrightarrow> \<not> hasKey tree [''proxy_plugins'', ''pv-snapshotter'']"
    unfolding collectMissing_def by (auto simp del: hasKey.simps)
  show "Runtime name b \<in> set (collectMissing tree params) \<longleftrightarrow>
     (\<exists>rt \<in> set (Runtimes params). rt_Name rt = name \<and> \<not> hasRuntimeEntry tree name \<and>
        b = lookupBaseRuntime tree (rt_BaseRuntimeName rt))"
    unfolding collectMissing_def by (auto simp: missingRuntimes_iff)
qed

lemma collectMissing_empty_iff:
  "collectMissing tree params = [] \<longleftrightarrow>
     hasKey tree [''proxy_plugins'', ''pv-snapshotter''] \<and> (\<forall>rt \<in> set (Runtimes params). hasRuntimeEntry tree (rt_Name rt))"
proof -
  have "collectMissing tree params = [] \<longleftrightarrow> (\<forall>sec. sec \<notin> set (collectMissing tree params))" by auto
  also have "\<dots> \<longleftrightarrow> ProxyPlugin \<notin> set (collectMissing tree params) \<and> (\<forall>n b. Runtime n b \<notin> set (collectMissing tree params))"
    by (metis missingSection.exhaust)
  finally show ?thesis unfolding collectMissing_iff by (auto simp del: hasKey.simps)
qed

text \<open>The written file: it still has the paths it had, and it has those of the appended sections.\<close>

lemma appended_keeps:
  assumes toml: "toml_laws TP" and t0: "toml_Unmarshal TP raw = Inr t0"
    and t1: "toml_Unmarshal TP (raw @ buildSnippet TP socket secs) = Inr t1" and path: "hasKey t0 path"
  shows "hasKey t1 path"
proof -
  obtain rest where "buildSnippet TP socket secs = newline @ rest" by (auto simp: buildSnippet_def snippetHeader_def)
  then show ?thesis using toml t0 t1 path unfolding toml_laws_def by metis
qed

lemma appended_adds:
  assumes toml: "toml_laws TP" and t1: "toml_Unmarshal TP (raw @ buildSnippet TP socket secs) = Inr t1"
    and plain: "\<not> contains (raw @ buildSnippet TP socket secs) [CHR 0x22, CHR 0x22, CHR 0x22]"
      "\<not> contains (raw @ buildSnippet TP socket secs) [CHR 0x27, CHR 0x27, CHR 0x27]"
    and sec: "sec \<in> set secs" "sectionBare sec" "list_all quotableKey (sectionPath sec)"
  shows "hasKey t1 (sectionPath sec)"
proof -
  have "hasLine (raw @ buildSnippet TP socket secs) (tomlHeader (sectionPath sec))"
    using hasLine_mid [OF buildSnippet_headers [OF sec(1,2)], where a = raw and b = "[]"] by simp
  then have "tomlHeader (sectionPath sec) \<in> set (split_all (raw @ buildSnippet TP socket secs) (CHR 0x0A))"
    by (rule hasLine_lines [OF _ tomlHeader_no_newline [OF sec(3)]])
  moreover have "length (sectionPath sec) \<ge> 2" "hd (sectionPath sec) \<in> {''plugins'', ''proxy_plugins''}"
    by (cases sec; simp add: runtimePath_def)+
  ultimately show ?thesis using toml t1 plain sec(3) unfolding toml_laws_def by blast
qed

lemma runtime_section_quotable:
  "bareKey name \<Longrightarrow> list_all quotableKey (sectionPath (Runtime name b))"
  using bare_quotable [of name] by (simp add: runtimePath_def) (simp add: quotableKey_def)

lemma appended_complete:
  assumes toml: "toml_laws TP" and names: "\<forall>rt \<in> set (Runtimes params). bareKey (rt_Name rt)"
    and t0: "toml_Unmarshal TP raw = Inr t0"
    and t1: "toml_Unmarshal TP (raw @ buildSnippet TP socket (collectMissing t0 params)) = Inr t1"
    and plain: "\<not> contains (raw @ buildSnippet TP socket (collectMissing t0 params)) [CHR 0x22, CHR 0x22, CHR 0x22]"
      "\<not> contains (raw @ buildSnippet TP socket (collectMissing t0 params)) [CHR 0x27, CHR 0x27, CHR 0x27]"
  shows "collectMissing t1 params = []"
proof -
  note keep = appended_keeps [OF toml t0 t1] and new = appended_adds [OF toml t1 plain]
  have "hasKey t1 [''proxy_plugins'', ''pv-snapshotter'']"
    using keep new [of ProxyPlugin] collectMissing_iff(1) [of t0 params]
    by (auto simp: quotableKey_def simp del: hasKey.simps)
  moreover have "hasRuntimeEntry t1 (rt_Name rt)" if rt: "rt \<in> set (Runtimes params)" for rt
  proof (cases "hasRuntimeEntry t0 (rt_Name rt)")
    case True
    then show ?thesis using keep unfolding hasRuntimeEntry_iff by blast
  next
    case False
    let ?sec = "Runtime (rt_Name rt) (lookupBaseRuntime t0 (rt_BaseRuntimeName rt))"
    have "?sec \<in> set (collectMissing t0 params)" using False rt unfolding collectMissing_iff by blast
    then have "hasKey t1 (sectionPath ?sec)" using new [of ?sec] runtime_section_quotable names rt by simp
    then show ?thesis unfolding hasRuntimeEntry_iff by simp
  qed
  ultimately show ?thesis unfolding collectMissing_empty_iff by blast
qed

lemma Apply_complete:
  assumes files: "file_laws F content" and toml: "toml_laws TP"
    and names: "\<forall>rt \<in> set (Runtimes params). bareKey (rt_Name rt)"
    and run: "run_state (Apply TP F params) w = (Inr modified, w1)"
    and plain: "\<not> contains (content w1 (ConfigPath params)) [CHR 0x22, CHR 0x22, CHR 0x22]"
      "\<not> contains (content w1 (ConfigPath params)) [CHR 0x27, CHR 0x27, CHR 0x27]"
    and t1: "toml_Unmarshal TP (content w1 (ConfigPath params)) = Inr t1"
  shows "collectMissing t1 params = []"
proof -
  let ?p = "ConfigPath params"
  obtain t0 where t0: "toml_Unmarshal TP (content w ?p) = Inr t0" "modified = (collectMissing t0 params \<noteq> [])"
    and w1: "content w1 ?p = content w ?p @ (if modified then buildSnippet TP (SocketPath params) (collectMissing t0 params) else [])"
    using Apply_run [OF files run] by fastforce
  show ?thesis
  proof (cases modified)
    case True
    then show ?thesis using appended_complete [OF toml names t0(1)] t1 plain unfolding w1 by simp
  qed (use t0 t1 w1 in simp)
qed

text \<open>C9: Apply is idempotent: run again on the file it has just written, it finds nothing missing,
  reports no modification and leaves the file as it is. (For runtime names that are bare TOML
  keys and files without multi-line strings.)\<close>

theorem Apply_idempotent:
  assumes files: "file_laws F content" and toml: "toml_laws TP"
    and names: "\<forall>rt \<in> set (Runtimes params). bareKey (rt_Name rt)"
    and run1: "run_state (Apply TP F params) w = (Inr modified, w1)"
    and run2: "run_state (Apply TP F params) w1 = (Inr again, w2)"
    and plain: "\<not> contains (content w1 (ConfigPath params)) [CHR 0x22, CHR 0x22, CHR 0x22]"
      "\<not> contains (content w1 (ConfigPath params)) [CHR 0x27, CHR 0x27, CHR 0x27]"
  shows "again = False \<and> content w2 = content w1"
proof -
  obtain t1 where t1: "toml_Unmarshal TP (content w1 (ConfigPath params)) = Inr t1" "again = (collectMissing t1 params \<noteq> [])"
    and w2: "content w2 = (content w1)(ConfigPath params := content w1 (ConfigPath params) @
        (if again then buildSnippet TP (SocketPath params) (collectMissing t1 params) else []))"
    using Apply_run [OF files run2] by fastforce
  have "collectMissing t1 params = []" by (rule Apply_complete [OF files toml names run1 plain t1(1)])
  then show ?thesis using t1 w2 by simp
qed


subsection \<open>A reader of headers\<close>

text \<open>
  The laws can hold: a decoder that reads the table headers of a document and nothing else. It
  serves the witnesses only.
\<close>

fun treeInsert :: "string list \<Rightarrow> table \<Rightarrow> table" where
  "treeInsert [] t = t"
| "treeInsert (k # ks) t =
     (case map_of t k of
        Some (Table sub) \<Rightarrow> map_put t k (Table (treeInsert ks sub))
      | Some v \<Rightarrow> t
      | None \<Rightarrow> map_put t k (Table (treeInsert ks [])))"

fun onlyTables :: "toml \<Rightarrow> bool" where
  "onlyTables (Table t) = list_all (\<lambda>(k, v). onlyTables v) t"
| "onlyTables _ = False"

lemma onlyTables_get: "onlyTables (Table t) \<Longrightarrow> map_of t k = Some v \<Longrightarrow> onlyTables v"
  by (auto simp: list_all_iff dest!: map_of_SomeD)

lemma onlyTables_put:
  assumes "onlyTables (Table t)" and "onlyTables v"
  shows "onlyTables (Table (map_put t k v))"
proof -
  have "list_all (\<lambda>(k, v). onlyTables v) t \<Longrightarrow> list_all (\<lambda>(k, v). onlyTables v) (map_put t k v)"
    using assms(2) by (induction t k v rule: map_put.induct) auto
  then show ?thesis using assms(1) by simp
qed

lemma treeInsert_tables: "onlyTables (Table t) \<Longrightarrow> onlyTables (Table (treeInsert p t))"
proof (induction p t rule: treeInsert.induct)
  case (2 k ks t)
  show ?case
  proof (cases "map_of t k")
    case None
    then show ?thesis using 2 onlyTables_put by simp
  next
    case (Some v)
    then show ?thesis using 2 onlyTables_get [OF 2(3) Some] onlyTables_put by (cases v) simp_all
  qed
qed simp

lemma treeInsert_path: "onlyTables (Table t) \<Longrightarrow> hasKey (treeInsert p t) p"
proof (induction p t rule: treeInsert.induct)
  case (2 k ks t)
  show ?case
  proof (cases "map_of t k")
    case None
    then show ?thesis using 2 by simp
  next
    case (Some v)
    then show ?thesis using 2 onlyTables_get [OF 2(3) Some] by (cases v) simp_all
  qed
qed simp

lemma treeInsert_mono: "hasKey t q \<Longrightarrow> hasKey (treeInsert p t) q"
proof (induction p t arbitrary: q rule: treeInsert.induct)
  case (2 k ks t)
  show ?case
  proof (cases q)
    case (Cons s qs)
    show ?thesis
    proof (cases "map_of t k")
      case None
      then show ?thesis using 2(3) Cons by (auto split: option.splits)
    next
      case (Some v)
      then show ?thesis using 2 Cons by (cases v) (auto split: option.splits toml.splits)
    qed
  qed simp
qed simp

lemma cut_shorter: "(k, r, True) = str_cut s c \<Longrightarrow> length r < length s"
  using cut_found [of s c k r] by auto

function parseKeys :: "string \<Rightarrow> string list option" where
  "parseKeys s =
     (case s of
        c # r \<Rightarrow>
          if c = CHR 0x22 then
            (case str_cut r (CHR 0x22) of (k, rest, ok) \<Rightarrow>
               if \<not> ok then None
               else (case rest of
                       [] \<Rightarrow> Some [k]
                     | d # r2 \<Rightarrow> if d = CHR ''.'' then map_option ((#) k) (parseKeys r2) else None))
          else (case str_cut s (CHR ''.'') of (k, rest, ok) \<Rightarrow>
                  if ok then map_option ((#) k) (parseKeys rest) else Some [s])
      | [] \<Rightarrow> None)"
  by pat_completeness auto
termination
  by (relation "measure length") (auto dest!: cut_shorter simp del: str_cut.simps)

declare parseKeys.simps [simp del]

lemma bareKey_head: "bareKey k \<Longrightarrow> \<exists>c cs. k = c # cs \<and> c \<noteq> CHR 0x22 \<and> CHR ''.'' \<notin> set k"
proof -
  assume k: "bareKey k"
  have "\<not> bareChar (CHR ''.'')" by code_simp
  then have "CHR ''.'' \<notin> set k" using k by (auto simp: bareKey_def list_all_iff)
  moreover obtain c cs where "k = c # cs" using k by (cases k) (auto simp: bareKey_def)
  moreover have "CHR 0x22 \<notin> set k" using k bare_quotable by (simp add: quotableKey_def)
  ultimately show ?thesis by auto
qed

lemma parseKeys_last: "quotableKey k \<Longrightarrow> parseKeys (tomlKey k) = Some [k]"
proof (cases "bareKey k")
  case True
  then show ?thesis using bareKey_head [OF True]
    by (auto simp: tomlKey_def parseKeys.simps [of k] cut_not_found)
next
  case False
  assume "quotableKey k"
  then show ?thesis using False
    by (simp add: tomlKey_def parseKeys.simps [of "CHR 0x22 # k @ dquote"] quotableKey_def)
qed

lemma parseKeys_more: "quotableKey k \<Longrightarrow> parseKeys (tomlKey k @ CHR ''.'' # r) = map_option ((#) k) (parseKeys r)"
proof (cases "bareKey k")
  case True
  then show ?thesis using bareKey_head [OF True]
    by (auto simp: tomlKey_def parseKeys.simps [of "k @ CHR ''.'' # r"] split: list.splits)
next
  case False
  assume "quotableKey k"
  then show ?thesis using False
    by (simp add: tomlKey_def parseKeys.simps [of "CHR 0x22 # k @ CHR 0x22 # CHR ''.'' # r"] quotableKey_def)
qed

lemma parseKeys_join: "path \<noteq> [] \<Longrightarrow> list_all quotableKey path \<Longrightarrow> parseKeys (join (map tomlKey path) ''.'') = Some path"
proof (induction path)
  case (Cons k path)
  then show ?case
    by (cases path) (simp_all add: parseKeys_last parseKeys_more)
qed simp

definition headerPath :: "string \<Rightarrow> string list option" where
  "headerPath line =
     (if has_prefix line ''['' \<and> has_suffix line '']'' then parseKeys (butlast (tl line)) else None)"

lemma headerPath_header: "path \<noteq> [] \<Longrightarrow> list_all quotableKey path \<Longrightarrow> headerPath (tomlHeader path) = Some path"
  by (simp add: headerPath_def tomlHeader_def has_suffix_iff parseKeys_join)

definition readLine :: "table \<Rightarrow> string \<Rightarrow> table" where
  "readLine t line = (case headerPath line of None \<Rightarrow> t | Some path \<Rightarrow> treeInsert path t)"

definition headerTOML :: toml_pkg where
  "headerTOML =
     \<lparr>toml_Unmarshal = (\<lambda>text. Inr (foldl readLine [] (split_all text (CHR 0x0A)))),
      toml_Marshal = (\<lambda>t. Inr (concat (map (\<lambda>(k, v). case v of Str s \<Rightarrow> k @ '' = '' @ quote s @ newline | _ \<Rightarrow> []) t)))\<rparr>"

lemma readLine_mono: "hasKey t q \<Longrightarrow> hasKey (readLine t line) q"
  by (auto simp: readLine_def treeInsert_mono split: option.splits)

lemma readLines_mono: "hasKey t q \<Longrightarrow> hasKey (foldl readLine t lines) q"
  by (induction lines arbitrary: t) (auto simp: readLine_mono)

lemma readLines_tables: "onlyTables (Table t) \<Longrightarrow> onlyTables (Table (foldl readLine t lines))"
proof (induction lines arbitrary: t)
  case (Cons line lines)
  have "onlyTables (Table (readLine t line))"
    using Cons.prems treeInsert_tables by (simp add: readLine_def split: option.splits)
  then show ?case using Cons.IH by (simp del: onlyTables.simps)
qed simp

lemma headerTOML_laws: "toml_laws headerTOML"
proof -
  have "hasKey (foldl readLine [] lines) path"
    if line: "tomlHeader path \<in> set lines" and path: "path \<noteq> []" "list_all quotableKey path" for lines path
  proof -
    obtain xs ys where lines: "lines = xs @ tomlHeader path # ys" using split_list [OF line] by blast
    let ?t = "foldl readLine [] xs"
    have "onlyTables (Table ?t)" using readLines_tables [of "[]" xs] by simp
    then have "hasKey (readLine ?t (tomlHeader path)) path"
      using treeInsert_path path by (simp add: readLine_def headerPath_header)
    then show ?thesis using readLines_mono lines by simp
  qed
  moreover have "path \<noteq> []" if "2 \<le> length path" for path :: "string list" using that by auto
  ultimately show ?thesis
    unfolding toml_laws_def headerTOML_def by (auto simp: split_all_app intro: readLines_mono)
qed

text \<open>A host with files by path, on which every operation succeeds.\<close>

type_synonym files = "string \<Rightarrow> string"

definition plainFiles :: "files file_api" where
  "plainFiles =
     \<lparr>f_ReadFile = (\<lambda>p. State (\<lambda>w. (Inr (w p), w))),
      f_OpenAppend = (\<lambda>p. State (\<lambda>w. (None, w))),
      f_WriteString = (\<lambda>p t. State (\<lambda>w. (None, w(p := w p @ t)))),
      f_Close = (\<lambda>p. State (\<lambda>w. ((), w)))\<rparr>"

lemma plainFiles_laws: "file_laws plainFiles (\<lambda>w. w)"
  by (simp add: file_laws_def plainFiles_def)

definition exampleParams :: Params where
  "exampleParams =
     \<lparr>ConfigPath = ''/etc/containerd/config.toml'', SocketPath = ''/run/pv.sock'',
      Runtimes = [\<lparr>rt_Name = ''runc-pv'', rt_BaseRuntimeName = ''runc''\<rparr>]\<rparr>"

definition exampleFiles :: files where
  "exampleFiles = (\<lambda>p. ''version = 2'' @ newline)"

lemma exampleApply:
  "\<exists>w1. run_state (Apply headerTOML plainFiles exampleParams) exampleFiles = (Inr True, w1) \<and>
     w1 (ConfigPath exampleParams) =
       exampleFiles (ConfigPath exampleParams) @
       buildSnippet headerTOML ''/run/pv.sock'' [ProxyPlugin, Runtime ''runc-pv'' None]"
proof -
  have "fst (run_state (Apply headerTOML plainFiles exampleParams) exampleFiles) = Inr True \<and>
    snd (run_state (Apply headerTOML plainFiles exampleParams) exampleFiles) (ConfigPath exampleParams) =
       exampleFiles (ConfigPath exampleParams) @
       buildSnippet headerTOML ''/run/pv.sock'' [ProxyPlugin, Runtime ''runc-pv'' None]"
    by code_simp
  then show ?thesis by (metis prod.collapse)
qed

theorem Apply_append_only_witness:
  "\<exists>t. snd (run_state (Apply headerTOML plainFiles exampleParams) exampleFiles) (ConfigPath exampleParams) =
       exampleFiles (ConfigPath exampleParams) @ t \<and> t \<noteq> []"
proof -
  obtain w1 where run: "run_state (Apply headerTOML plainFiles exampleParams) exampleFiles = (Inr True, w1)"
    using exampleApply by blast
  obtain t where t: "w1 = exampleFiles(ConfigPath exampleParams := exampleFiles (ConfigPath exampleParams) @ t)"
    and snip: "\<exists>secs. t = buildSnippet headerTOML (SocketPath exampleParams) secs"
    using Apply_append_only [OF plainFiles_laws run] by auto
  have "t \<noteq> []" using snip by (auto simp: buildSnippet_def snippetHeader_def)
  then show ?thesis using run t by (intro exI [of _ t]) simp
qed

lemma exampleApply_total: "\<exists>again w2. run_state (Apply headerTOML plainFiles exampleParams) w = (Inr again, w2)"
proof -
  obtain tree where "toml_Unmarshal headerTOML (w (ConfigPath exampleParams)) = Inr tree"
    by (simp add: headerTOML_def)
  then show ?thesis
    by (cases "collectMissing tree exampleParams = []")
       (auto simp: Apply_def appendToFile_def plainFiles_def go_run Let_def)
qed

theorem Apply_idempotent_witness:
  "\<exists>w1 w2. run_state (Apply headerTOML plainFiles exampleParams) exampleFiles = (Inr True, w1) \<and>
     run_state (Apply headerTOML plainFiles exampleParams) w1 = (Inr False, w2) \<and> w2 = w1"
proof -
  let ?A = "Apply headerTOML plainFiles exampleParams"
  obtain w1 where run1: "run_state ?A exampleFiles = (Inr True, w1)"
    and w1: "w1 (ConfigPath exampleParams) = exampleFiles (ConfigPath exampleParams) @
       buildSnippet headerTOML ''/run/pv.sock'' [ProxyPlugin, Runtime ''runc-pv'' None]"
    using exampleApply by blast
  obtain again w2 where run2: "run_state ?A w1 = (Inr again, w2)"
    using exampleApply_total by blast
  have names: "\<forall>rt \<in> set (Runtimes exampleParams). bareKey (rt_Name rt)" by code_simp
  have plain: "\<not> contains (w1 (ConfigPath exampleParams)) [CHR 0x22, CHR 0x22, CHR 0x22]"
    "\<not> contains (w1 (ConfigPath exampleParams)) [CHR 0x27, CHR 0x27, CHR 0x27]"
    unfolding w1 by code_simp+
  from Apply_idempotent [where content = "\<lambda>w. w", OF plainFiles_laws headerTOML_laws names run1 run2 plain] run1 run2
  show ?thesis by blast
qed


section \<open>Runtime entries\<close>

text \<open>Base names given twice on the command line give two sections with the same header in the
  appended block, although a table may be defined only once in a TOML document.\<close>

theorem duplicate_runtime_headers:
  assumes twice: "Runtimes params = xs @ rt # ys @ rt' # zs" "rt_Name rt' = rt_Name rt"
    and missing: "\<not> hasRuntimeEntry tree (rt_Name rt)"
  shows "\<exists>a b c. collectMissing tree params = a @ [Runtime (rt_Name rt) (lookupBaseRuntime tree (rt_BaseRuntimeName rt))] @
             b @ [Runtime (rt_Name rt) (lookupBaseRuntime tree (rt_BaseRuntimeName rt'))] @ c"
proof -
  have app: "missingRuntimes tree (us @ vs) = missingRuntimes tree us @ missingRuntimes tree vs" for us vs
    by (induction us) auto
  let ?a = "(if \<not> hasKey tree [''proxy_plugins'', ''pv-snapshotter''] then [ProxyPlugin] else []) @ missingRuntimes tree xs"
  show ?thesis using assms
    by (intro exI [of _ ?a] exI [of _ "missingRuntimes tree ys"] exI [of _ "missingRuntimes tree zs"])
       (simp add: collectMissing_def app del: hasKey.simps)
qed

theorem duplicate_runtime_headers_witness:
  "\<exists>a b c. collectMissing [] (GetParams (\<lambda>f. if f = ''runtime-class-suffix'' then ''-pv'' else []) (\<lambda>f. [''runc'', '' runc''])) =
     a @ [Runtime ''runc-pv'' None] @ b @ [Runtime ''runc-pv'' None] @ c"
proof -
  let ?rt = "\<lparr>rt_Name = ''runc-pv'', rt_BaseRuntimeName = ''runc''\<rparr>"
  let ?p = "GetParams (\<lambda>f. if f = ''runtime-class-suffix'' then ''-pv'' else []) (\<lambda>f. [''runc'', '' runc''])"
  have "Runtimes ?p = [] @ ?rt # [] @ ?rt # []" by code_simp
  moreover have "\<not> hasRuntimeEntry [] (rt_Name ?rt)" "lookupBaseRuntime [] ''runc'' = None" by code_simp+
  ultimately show ?thesis using duplicate_runtime_headers [of ?p "[]" ?rt "[]" ?rt "[]" "[]"] by auto
qed


section \<open>Restarting containerd\<close>

text \<open>The constructor that runs before main is inert in a normal start, when its variable is unset
  or empty; in the child that RestartContainerd starts it never lets the program continue to
  main: the process either becomes systemctl restart containerd, run from the first of the two
  host paths that is executable and after the host's mount namespace was entered, or exits
  with an error.\<close>

theorem nsenter_preamble_gate:
  "(map_of env ''_PV_NSENTER'' \<in> {None, Some []} \<longleftrightarrow> nsenter_preamble H env = ContinueToGo) \<and>
   (case nsenter_preamble H (childEnv env) of
      ContinueToGo \<Rightarrow> False
    | Exit1 msg \<Rightarrow> True
    | ExecReplaced prog args \<Rightarrow>
        ns_open_mnt H = None \<and> ns_setns H = None \<and> args = [''systemctl'', ''restart'', ''containerd''] \<and>
        ns_executable H prog \<and> ns_execv H prog = None \<and>
        (prog = ''/usr/bin/systemctl'' \<or> prog = ''/bin/systemctl'' \<and> \<not> ns_executable H ''/usr/bin/systemctl''))"
proof -
  have "map_of (childEnv env) nsenterEnvKey = Some ''1''" by (simp add: childEnv_def)
  then show ?thesis
    by (auto simp: nsenter_preamble_def nsenterEnvKey_def split: option.splits if_splits)
qed


section \<open>Readiness\<close>

text \<open>One failed round: a probe that does not find the daemon ready, and a pause that is not cancelled.\<close>

inductive retry :: "'w ready_api \<Rightarrow> http_client \<Rightarrow> 'w \<Rightarrow> 'w \<Rightarrow> bool" for R client where
  round: "run_state (probeReadyz R client) w = (Some e, w1) \<Longrightarrow> run_state (rd_Wait R waitPollInterval) w1 = (None, w2) \<Longrightarrow>
    retry R client w w2"

text \<open>How the wait ends in world \<open>w\<close>: the readiness endpoint answers 200, or the pause after a failed probe is
  cancelled with the error that is returned.\<close>

definition wait_ends :: "'w ready_api \<Rightarrow> http_client \<Rightarrow> gerr option \<Rightarrow> 'w \<Rightarrow> 'w \<Rightarrow> bool" where
  "wait_ends R client r w w' \<longleftrightarrow>
     (case r of
        None \<Rightarrow> run_state (rd_Do R client ''http://localhost/readyz'') w = (Inr 200, w')
      | Some err \<Rightarrow> (\<exists>e w1. run_state (probeReadyz R client) w = (Some e, w1) \<and>
          run_state (rd_Wait R waitPollInterval) w1 = (Some err, w')))"

lemma probeReadyz_ready:
  "run_state (probeReadyz R client) w = (None, w') \<Longrightarrow> run_state (rd_Do R client ''http://localhost/readyz'') w = (Inr 200, w')"
  by (auto simp: probeReadyz_def go_run split: option.splits prod.splits sum.splits if_splits)

text \<open>The failed probes of a wait that made \<open>k\<close> rounds and then ended with \<open>r\<close>.\<close>

abbreviation failures :: "gerr option \<Rightarrow> nat \<Rightarrow> nat" where
  "failures r k \<equiv> (case r of None \<Rightarrow> k | Some _ \<Rightarrow> Suc k)"

lemma waitReadyLoop_trace:
  assumes "run_state (waitReadyLoop fuel R client attempts levels) w = (res, w')"
  shows "case res of
      None \<Rightarrow> (retry R client ^^ fuel) w w'
    | Some (r, levels') \<Rightarrow> (\<exists>k wk. k < fuel \<and> (retry R client ^^ k) w wk \<and> wait_ends R client r wk w' \<and>
        levels' = levels @ map retryLevel [attempts..<attempts + failures r k])"
  using assms
proof (induction fuel arbitrary: attempts levels w)
  case 0
  then show ?case by (auto simp: go_run)
next
  case (Suc fuel)
  obtain e w1 where probe: "run_state (probeReadyz R client) w = (e, w1)" by (cases "run_state (probeReadyz R client) w")
  obtain c w2 where wait: "run_state (rd_Wait R waitPollInterval) w1 = (c, w2)" by (cases "run_state (rd_Wait R waitPollInterval) w1")
  show ?case
  proof (cases e)
    case None
    then have "res = Some (None, levels)" "w' = w1" using Suc.prems probe by (auto simp: go_run)
    moreover have "wait_ends R client None w w1" using probeReadyz_ready probe None by (simp add: wait_ends_def)
    ultimately show ?thesis by (auto intro!: exI [of _ 0])
  next
    case failed: (Some x)
    show ?thesis
    proof (cases c)
      case (Some err)
      then have "res = Some (Some err, levels @ [retryLevel attempts])" "w' = w2"
        using Suc.prems failed probe wait by (auto simp: go_run Let_def)
      moreover have "wait_ends R client (Some err) w w2" using probe wait failed Some by (simp add: wait_ends_def)
      ultimately show ?thesis by (auto intro!: exI [of _ 0])
    next
      case None
      have one: "retry R client w w2" using probe wait failed None by (auto intro: retry.round)
      have "run_state (waitReadyLoop fuel R client (attempts + 1) (levels @ [retryLevel attempts])) w2 = (res, w')"
        using Suc.prems failed None probe wait by (simp add: go_run Let_def)
      note rest = Suc.IH [OF this]
      show ?thesis
      proof (cases res)
        case None
        then show ?thesis using rest relpowp_Suc_I2 [of "retry R client", OF one] by simp
      next
        case (Some rl)
        then obtain r k wk where res: "res = Some (r, levels @ retryLevel attempts # map retryLevel [attempts + 1..<attempts + 1 + failures r k])"
          and k: "k < fuel" "(retry R client ^^ k) w2 wk" "wait_ends R client r wk w'"
          using rest by (cases rl) auto
        have "retryLevel attempts # map retryLevel [attempts + 1..<attempts + 1 + failures r k] =
            map retryLevel [attempts..<attempts + failures r (Suc k)]"
          by (simp add: upt_conv_Cons split: option.split)
        then show ?thesis using res k relpowp_Suc_I2 [of "retry R client", OF one k(2)]
          by (auto intro!: exI [of _ "Suc k"] exI [of _ wk])
      qed
    qed
  qed
qed

text \<open>C32: the wait for the daemon ends as soon as the environment lets it, and for the right reason. If no
  \<open>n\<close> rounds in a row can fail (a probe that does not find the daemon ready, then a pause that is not
  cancelled), the loop returns within \<open>n\<close> rounds. It reports the daemon ready only after some number of
  failed rounds that end in a world where the readiness endpoint answers 200 on the daemon's socket,
  and it returns an error only if the pause after a failed probe was cancelled with that error. The
  retry messages it has then logged have the levels 10, 9, \<dots>, 1, 1, \<dots>, one per failed probe.\<close>

theorem WaitUntilReady_returns:
  assumes bound: "\<not> (\<exists>w1. (retry R (unixHTTPClient socketPath) ^^ n) w w1)"
  shows "\<exists>r k wk w'. run_state (WaitUntilReady n R socketPath) w =
      (Some (r, map (\<lambda>i. max 1 (10 - int i)) [0..<(case r of None \<Rightarrow> k | Some _ \<Rightarrow> Suc k)]), w') \<and>
     k < n \<and> (retry R (unixHTTPClient socketPath) ^^ k) w wk \<and>
     (case r of
        None \<Rightarrow> run_state (rd_Do R (unixHTTPClient socketPath) ''http://localhost/readyz'') wk = (Inr 200, w')
      | Some err \<Rightarrow> (\<exists>e w1. run_state (probeReadyz R (unixHTTPClient socketPath)) wk = (Some e, w1) \<and>
          run_state (rd_Wait R waitPollInterval) w1 = (Some err, w')))"
proof -
  obtain res w' where run: "run_state (waitReadyLoop n R (unixHTTPClient socketPath) 0 []) w = (res, w')" by fastforce
  note trace = waitReadyLoop_trace [OF run]
  obtain r levels where res: "res = Some (r, levels)" using trace bound by (cases res) auto
  have "retryLevel = (\<lambda>i. max 1 (10 - int i))"
    by (auto simp: fun_eq_iff retryLevel_def waitRetryBaseLevel_def Let_def)
  then show ?thesis using trace run unfolding res WaitUntilReady_def wait_ends_def by auto
qed

definition startingDaemon :: "nat ready_api" where
  "startingDaemon =
     \<lparr>rd_NewRequest = (\<lambda>url. None),
      rd_Do = (\<lambda>cl url. State (\<lambda>n. (if n = 0 then Inr 200 else Inl (Errorf ''connection refused'' []), n))),
      rd_Wait = (\<lambda>d. State (\<lambda>n. (None, n - 1)))\<rparr>"

lemma startingDaemon_retry: "(retry startingDaemon client ^^ k) n w \<Longrightarrow> k \<le> n \<and> w = n - k"
proof (induction k arbitrary: w)
  case (Suc k)
  then obtain v where "(retry startingDaemon client ^^ k) n v" "retry startingDaemon client v w" by auto
  moreover from this(2) have "0 < v" "w = v - 1"
    by (auto elim!: retry.cases simp: startingDaemon_def probeReadyz_def go_run split: if_splits)
  ultimately show ?case using Suc.IH by fastforce
qed simp

theorem WaitUntilReady_returns_witness:
  "\<exists>r k w'. run_state (WaitUntilReady 13 startingDaemon ''/run/daemon.sock'') 12 =
     (Some (r, map (\<lambda>i. max 1 (10 - int i)) [0..<k]), w') \<and> r = None \<and> k = 12"
proof -
  let ?m = "WaitUntilReady 13 startingDaemon ''/run/daemon.sock''"
  have "\<not> (\<exists>w1. (retry startingDaemon (unixHTTPClient ''/run/daemon.sock'') ^^ 13) 12 w1)"
    using startingDaemon_retry [of 13 "unixHTTPClient ''/run/daemon.sock''" 12] by auto
  note eff = WaitUntilReady_returns [OF this]
  have ready: "map_option fst (fst (run_state ?m 12)) = Some None" "map_option (length \<circ> snd) (fst (run_state ?m 12)) = Some 12"
    by code_simp+
  from eff obtain r k w' where run: "run_state ?m 12 = (Some (r, map (\<lambda>i. max 1 (10 - int i)) [0..<k]), w')" by blast
  then have "r = None" "k = 12" using ready by simp_all
  with run show ?thesis by blast
qed


section \<open>The sidecar\<close>

text \<open>C31: the sidecar restarts containerd exactly when the patch changed the file. It reaches its final
  block only after the daemon answered ready and the patch was applied without error; if it got
  there with a restart, the configuration file had grown by a block for missing sections before
  the child was started, and if without, the file is as it was.\<close>

theorem configRunE_restart:
  assumes files: "file_laws (sc_files S) content"
    and ready: "\<forall>w. content (snd (run_state (WaitUntilReady fuel (sc_ready S) (GetSocketPath (sc_getString S))) w)) = content w"
    and run: "run_state (configRunE fuel S) w = (Some (Inr restarted), w')"
  shows "\<exists>w1 w2 levels modified.
     run_state (WaitUntilReady fuel (sc_ready S) (GetSocketPath (sc_getString S))) w = (Some (None, levels), w1) \<and>
     run_state (Apply (sc_toml S) (sc_files S) (GetParams (sc_getString S) (sc_getStringSlice S))) w1 = (Inr modified, w2) \<and>
     restarted = modified \<and>
     (if restarted then run_state (RestartContainerd (sc_restart S)) w2 = (None, w') \<and> content w2 \<noteq> content w
      else w' = w2 \<and> content w2 = content w)"
proof -
  let ?params = "GetParams (sc_getString S) (sc_getStringSlice S)"
  obtain w1 w2 levels modified where
    wait: "run_state (WaitUntilReady fuel (sc_ready S) (GetSocketPath (sc_getString S))) w = (Some (None, levels), w1)"
    and app: "run_state (Apply (sc_toml S) (sc_files S) ?params) w1 = (Inr modified, w2)"
    and rest: "restarted = modified"
      "if modified then run_state (RestartContainerd (sc_restart S)) w2 = (None, w') else w' = w2"
    using run
    by (auto simp: configRunE_def go_run Let_def split: option.splits prod.splits sum.splits if_splits)
  have "content w1 = content w" using ready wait by (metis snd_conv)
  moreover obtain t tree where "content w2 = (content w1)(ConfigPath ?params := content w1 (ConfigPath ?params) @ t)"
      "t = (if modified then buildSnippet (sc_toml S) (SocketPath ?params) (collectMissing tree ?params) else [])"
    using Apply_run [OF files app] by auto
  moreover have "buildSnippet TP socket secs \<noteq> []" for TP socket secs by (simp add: buildSnippet_def snippetHeader_def)
  ultimately have "if modified then content w2 \<noteq> content w else content w2 = content w"
    by (auto simp: fun_eq_iff)
  then show ?thesis using wait app rest by (auto split: if_splits)
qed

record sidecarWorld =
  sw_files :: files
  sw_starting :: nat
  sw_restarts :: nat

definition exampleSidecar :: "sidecarWorld sidecar" where
  "exampleSidecar =
     \<lparr>sc_baseContext = None,
      sc_ready = \<lparr>rd_NewRequest = (\<lambda>url. None),
        rd_Do = (\<lambda>cl url. State (\<lambda>w. (if sw_starting w = 0 then Inr 200 else Inr 503, w))),
        rd_Wait = (\<lambda>d. State (\<lambda>w. (None, w\<lparr>sw_starting := sw_starting w - 1\<rparr>)))\<rparr>,
      sc_toml = headerTOML,
      sc_files = \<lparr>f_ReadFile = (\<lambda>p. State (\<lambda>w. (Inr (sw_files w p), w))),
        f_OpenAppend = (\<lambda>p. State (\<lambda>w. (None, w))),
        f_WriteString = (\<lambda>p t. State (\<lambda>w. (None, w\<lparr>sw_files := (sw_files w)(p := sw_files w p @ t)\<rparr>))),
        f_Close = (\<lambda>p. State (\<lambda>w. ((), w)))\<rparr>,
      sc_restart = \<lparr>rs_Executable = None, rs_Environ = [],
        rs_Run = (\<lambda>env. State (\<lambda>w. (None, w\<lparr>sw_restarts := sw_restarts w + 1\<rparr>)))\<rparr>,
      sc_getString = (\<lambda>f. if f = ''config-path'' then ''/etc/containerd/config.toml'' else []),
      sc_getStringSlice = (\<lambda>f. [''runc''])\<rparr>"

lemma exampleSidecar_files: "file_laws (sc_files exampleSidecar) sw_files"
  by (simp add: file_laws_def exampleSidecar_def)

lemma exampleSidecar_wait:
  "run_state (waitReadyLoop fuel (sc_ready exampleSidecar) client attempts levels) w = (r, w') \<Longrightarrow> sw_files w' = sw_files w"
proof (induction fuel arbitrary: attempts levels w)
  case (Suc fuel)
  show ?case
  proof (cases "sw_starting w = 0")
    case True
    then show ?thesis using Suc.prems by (auto simp: go_run exampleSidecar_def probeReadyz_def)
  next
    case False
    then have "run_state (waitReadyLoop fuel (sc_ready exampleSidecar) client (attempts + 1) (levels @ [retryLevel attempts]))
        (w\<lparr>sw_starting := sw_starting w - 1\<rparr>) = (r, w')"
      using Suc.prems by (simp add: go_run exampleSidecar_def probeReadyz_def Let_def)
    from Suc.IH [OF this] show ?thesis by simp
  qed
qed (simp add: go_run)

theorem configRunE_restart_witness:
  "\<exists>w1 w2 levels.
     run_state (WaitUntilReady 5 (sc_ready exampleSidecar) (GetSocketPath (sc_getString exampleSidecar))) \<lparr>sw_files = exampleFiles, sw_starting = 2, sw_restarts = 0\<rparr> =
       (Some (None, levels), w1) \<and> sw_files w2 \<noteq> exampleFiles \<and>
     run_state (RestartContainerd (sc_restart exampleSidecar)) w2 =
       (None, snd (run_state (configRunE 5 exampleSidecar) \<lparr>sw_files = exampleFiles, sw_starting = 2, sw_restarts = 0\<rparr>))"
proof -
  let ?w = "\<lparr>sw_files = exampleFiles, sw_starting = 2, sw_restarts = 0\<rparr>"
  have "fst (run_state (configRunE 5 exampleSidecar) ?w) = Some (Inr True)" by code_simp
  then have run: "run_state (configRunE 5 exampleSidecar) ?w =
      (Some (Inr True), snd (run_state (configRunE 5 exampleSidecar) ?w))" by (metis prod.collapse)
  have ready: "\<forall>w. sw_files (snd (run_state (WaitUntilReady 5 (sc_ready exampleSidecar) (GetSocketPath (sc_getString exampleSidecar))) w)) = sw_files w"
    unfolding WaitUntilReady_def using exampleSidecar_wait by (metis prod.collapse)
  from configRunE_restart [OF exampleSidecar_files ready run] show ?thesis by auto
qed

end
