(* ===== verification/Daemon_Props.thy ===== *)
theory Daemon_Props
  imports Daemon Service_Props Webhook_Props Config_Props
begin

text \<open>
  The start-up sequence of the daemon: the handles that RunE opens are released on every path.
  The frames of theory Service_Props are extended to everything the daemon serves.
\<close>


section \<open>Frames of the daemon\<close>

text \<open>What is observed of the world outside the daemon.\<close>

abbreviation outside :: "('w \<Rightarrow> 'k) \<Rightarrow> 'w node \<Rightarrow> 'k" where
  "outside obs s \<equiv> obs (world s)"

lemma outside_metrics [frames]:
  "keeps (outside obs) pinned_Inc" "keeps (outside obs) pinned_Dec"
  "keeps (outside obs) unpinFailures_Inc" "keeps (outside obs) (orphanLeases_Set n)"
  by (simp_all add: keeps_def go_run)

definition leases_frame :: "'w leases_api \<Rightarrow> ('w \<Rightarrow> 'k) \<Rightarrow> bool" where
  "leases_frame L obs \<longleftrightarrow>
     (\<forall>c opts. keeps obs (ls_Create L c opts)) \<and> (\<forall>c l r. keeps obs (ls_AddResource L c l r)) \<and>
     (\<forall>c l. keeps obs (ls_Delete L c l)) \<and> (\<forall>c f. keeps obs (ls_List L c f))"

definition kube_frame :: "'w kube \<Rightarrow> ('w \<Rightarrow> 'k) \<Rightarrow> bool" where
  "kube_frame K obs \<longleftrightarrow>
     (\<forall>g ns n. keeps obs (kb_GetOwner K g ns n)) \<and> (\<forall>ns n. keeps obs (kb_GetPVC K ns n)) \<and>
     (\<forall>ns sel. keeps obs (kb_ListPVCs K ns sel)) \<and> (\<forall>n. keeps obs (kb_GetPV K n)) \<and>
     keeps obs (kb_Now K) \<and> (\<forall>d. keeps obs (kb_Wait K d))"

lemma leases_frameD [frames]:
  assumes "leases_frame L obs"
  shows "keeps obs (ls_Create L c opts)" "keeps obs (ls_AddResource L c l r)" "keeps obs (ls_Delete L c l)"
    "keeps obs (ls_List L c f)"
  using assms by (simp_all add: leases_frame_def)

lemma kube_frameD [frames]:
  assumes "kube_frame K obs"
  shows "keeps obs (kb_GetOwner K g ns n)" "keeps obs (kb_GetPVC K ns n)" "keeps obs (kb_ListPVCs K ns sel)"
    "keeps obs (kb_GetPV K n)" "keeps obs (kb_Now K)" "keeps obs (kb_Wait K d)"
  using assms by (simp_all add: kube_frame_def)

lemma dedup_keeps [frames]:
  assumes "leases_frame (cl_LeasesService (dm_client m)) obs"
  shows "keeps (outside obs) (pinLayer m ns chainID key)" "keeps (outside obs) (deleteLease m ns leaseID)"
  unfolding pinLayer_def deleteLease_def Let_def by (intro frames assms)+

lemma unpinLeases_keeps [frames]: "leases_frame L obs \<Longrightarrow> keeps (outside obs) (unpinLeases L c ls)"
  by (induction ls) (auto intro!: frames)

lemma unpinByActiveKey_keeps [frames]:
  "leases_frame (cl_LeasesService (dm_client m)) obs \<Longrightarrow> keeps (outside obs) (unpinByActiveKey m ns key)"
  unfolding unpinByActiveKey_def Let_def by (intro frames)

lemma gcOrphans_keeps [frames]:
  assumes "leases_frame (cl_LeasesService (dm_client m)) obs" and "sn_frame (dm_localSn m) obs"
  shows "keeps (outside obs) (gcOrphans m c nsCtx ls n)"
  using assms by (induction ls arbitrary: n) (auto intro!: frames)

lemma gcOrphanLeases_keeps [frames]:
  "leases_frame (cl_LeasesService (dm_client m)) obs \<Longrightarrow> sn_frame (dm_localSn m) obs \<Longrightarrow>
   keeps (outside obs) (gcOrphanLeases m c ns)"
  unfolding gcOrphanLeases_def Let_def by (intro frames)


text \<open>The methods, endpoints and the scrape hook of a service leave \<open>obs\<close> alone.\<close>

definition service_frame :: "('w, 't) packages \<Rightarrow> 'w snapshotter \<Rightarrow> ('w \<Rightarrow> 'k) \<Rightarrow> bool" where
  "service_frame P sn obs \<longleftrightarrow>
     svc_frame P sn obs \<and> (\<forall>m. ss_dedup sn = Some m \<longrightarrow> leases_frame (cl_LeasesService (dm_client m)) obs)"

definition grpc_keeps :: "('w, 't) packages \<Rightarrow> 'w wrapped \<Rightarrow> ('w node \<Rightarrow> 'k) \<Rightarrow> bool" where
  "grpc_keeps P wr obs \<longleftrightarrow> (let sn = wrapped_service wr in
     (\<forall>c k. keeps obs (svc_Stat P sn c k)) \<and> (\<forall>c i f. keeps obs (svc_Update sn c i f)) \<and>
     (\<forall>c k. keeps obs (svc_Usage sn c k)) \<and> (\<forall>c k. keeps obs (svc_Mounts P sn c k)) \<and>
     (\<forall>c k p opts. keeps obs (svc_Prepare sn c k p opts)) \<and> (\<forall>c k p opts. keeps obs (svc_View sn c k p opts)) \<and>
     (\<forall>c n k opts. keeps obs (svc_Commit sn c n k opts)) \<and> (\<forall>c k. keeps obs (svc_Remove sn c k)) \<and>
     (\<forall>c fn fs. keeps obs (svc_Walk sn c fn fs)) \<and>
     (\<forall>cs c. wr = CleanerSnapshotter cs \<longrightarrow> keeps obs (svc_Cleanup cs c)))"

definition routes_keep :: "'w route list \<Rightarrow> ('w node \<Rightarrow> 'k) \<Rightarrow> bool" where
  "routes_keep routes obs \<longleftrightarrow> (\<forall>r \<in> set routes. \<forall>rq. keeps obs (ro_Handler r rq))"

lemma service_frameD:
  assumes "service_frame P sn obs"
  shows "svc_frame P sn obs" and "ss_dedup sn = Some m \<Longrightarrow> leases_frame (cl_LeasesService (dm_client m)) obs"
  using assms by (simp_all add: service_frame_def)

lemma svc_keeps:
  assumes "service_frame P sn obs"
  shows "keeps (outside obs) (svc_Stat P sn c key)" "keeps (outside obs) (svc_Update sn c i fps)"
    "keeps (outside obs) (svc_Usage sn c key)" "keeps (outside obs) (svc_Mounts P sn c key)"
    "keeps (outside obs) (svc_Prepare sn c key parent opts)" "keeps (outside obs) (svc_View sn c key parent opts)"
    "keeps (outside obs) (svc_Commit sn c name key opts)" "keeps (outside obs) (svc_Remove sn c key)"
    "keeps (outside obs) (svc_Walk sn c fn fs)"
  using svc_frameD [OF service_frameD(1) [OF assms]] service_frameD(2) [OF assms]
  unfolding svc_Stat_def svc_Update_def svc_Usage_def svc_Mounts_def svc_View_def svc_Commit_def svc_Walk_def
    svc_Prepare_def svc_Remove_def
  by (intro frames; simp)+

lemma endpoints_keep:
  assumes "service_frame P sn obs"
  shows "keeps (outside obs) (handleListLeases sn)" "keeps (outside obs) (handleDeleteLease sn leaseID)"
    "keeps (outside obs) (handleGCLeases sn c)" "keeps (outside obs) (RegisterScrapeHook sn c)"
  using svc_frameD [OF service_frameD(1) [OF assms]] service_frameD(2) [OF assms]
  unfolding handleListLeases_def handleDeleteLease_def handleGCLeases_def RegisterScrapeHook_def
    listManagedLeases_def countOrphanLeases_def
  by (intro frames; simp)+


lemma ownerLoop_keeps [frames]: "kube_frame K obs \<Longrightarrow> keeps obs (ownerLoop n d K ns name refs)"
  by (induction n arbitrary: d name refs) (auto intro!: frames)

lemma waitLoop_keeps [frames]: "kube_frame K obs \<Longrightarrow> keeps obs (waitLoop fuel K deadline ns p)"
  by (induction fuel arbitrary: p) (auto simp: Let_def intro!: frames)

lemma webhook_keeps [frames]:
  assumes "kube_frame (h_kube h) obs"
  shows "keeps obs (handle fuel J h body)"
  unfolding handle_def mutate_def resolveOwner_def resolvePVC_def resolvePVCFromAnnotation_def
    resolvePVCBySelector_def waitBound_def boundVolume_def Let_def
  by (intro frames assms)

lemma New_kube: "New T W = Inr h \<Longrightarrow> h_kube h = ws_kube W"
  by (auto simp: New_def split: option.splits sum.splits)


section \<open>Handles\<close>

text \<open>
  The daemon opens two handles: the native snapshotter and the containerd client. \<open>opened\<close> counts
  the open ones of each kind; a count below the initial one is a handle closed twice.
\<close>

datatype resource = NativeSnapshotter | ContainerdClient

text \<open>There are just these two, so counts of handles can be compared by evaluation.\<close>

instantiation resource :: enum
begin

definition enum_resource :: "resource list" where
  "enum_resource = [NativeSnapshotter, ContainerdClient]"

definition enum_all_resource :: "(resource \<Rightarrow> bool) \<Rightarrow> bool" where
  "enum_all_resource P = (P NativeSnapshotter \<and> P ContainerdClient)"

definition enum_ex_resource :: "(resource \<Rightarrow> bool) \<Rightarrow> bool" where
  "enum_ex_resource P = (P NativeSnapshotter \<or> P ContainerdClient)"

instance
proof
  show "(UNIV :: resource set) = set enum_class.enum" unfolding enum_resource_def by (auto intro: resource.exhaust)
  show "enum_class.enum_all P = Ball (UNIV :: resource set) P" "enum_class.enum_ex P = Bex (UNIV :: resource set) P" for P
    unfolding enum_all_resource_def enum_ex_resource_def by (metis UNIV_I resource.exhaust)+
qed (simp add: enum_resource_def)

end

definition releases :: "('w \<Rightarrow> resource \<Rightarrow> int) \<Rightarrow> resource \<Rightarrow> ('w, 'a) state \<Rightarrow> bool" where
  "releases opened r m \<longleftrightarrow> (\<forall>w. opened (snd (run_state m w)) = (opened w)(r := opened w r - 1))"

text \<open>A constructor opens one handle or fails and opens none; \<open>close\<close> releases what it opened, with
  or without an error, and \<open>ok\<close> is what it promises of the handle besides.\<close>

definition acquires ::
  "('w \<Rightarrow> resource \<Rightarrow> int) \<Rightarrow> resource \<Rightarrow> ('h \<Rightarrow> ('w, 'a) state) \<Rightarrow> ('h \<Rightarrow> bool) \<Rightarrow> ('w, gerr + 'h) state \<Rightarrow> bool" where
  "acquires opened r close ok m \<longleftrightarrow>
     (\<forall>w. case run_state m w of
            (Inl _, w') \<Rightarrow> opened w' = opened w
          | (Inr x, w') \<Rightarrow> opened w' = (opened w)(r := opened w r + 1) \<and> releases opened r (close x) \<and> ok x)"

definition handle_laws :: "'w constructors \<Rightarrow> ('w \<Rightarrow> resource \<Rightarrow> int) \<Rightarrow> bool" where
  "handle_laws K opened \<longleftrightarrow>
     (\<forall>root opts. acquires opened NativeSnapshotter sn_Close
        (\<lambda>sn. sn_frame sn opened \<and> (\<forall>f c. k_asCleaner K sn = Some f \<longrightarrow> keeps opened (f c))) (k_NewSnapshotter K root opts)) \<and>
     (\<forall>path. acquires opened ContainerdClient cl_Close
        (\<lambda>cl. client_frame cl opened \<and> leases_frame (cl_LeasesService cl) opened \<and>
              sn_frame (cl_SnapshotService cl overlayfsSnapshotterName) opened) (k_NewClient K path))"

text \<open>The framework calls what was registered with it: what that keeps, serving keeps.\<close>

definition framework_laws :: "('w, 't) daemon \<Rightarrow> ('w, 'u) packages \<Rightarrow> ('w node \<Rightarrow> 'k) \<Rightarrow> bool" where
  "framework_laws D P obs \<longleftrightarrow>
     (\<forall>flags addr. keeps obs (dm_BaseContext D flags addr)) \<and>
     (\<forall>wr routes hook. grpc_keeps P wr obs \<and> routes_keep routes obs \<and> (\<forall>c. keeps obs (hook c)) \<longrightarrow>
        keeps obs (dm_Start D wr routes hook) \<and> keeps obs (dm_Done D wr routes hook))"

lemma acquiresD:
  assumes "acquires opened r close ok m"
  shows "run_state m w = (Inl e, w') \<Longrightarrow> opened w' = opened w"
    and "run_state m w = (Inr x, w') \<Longrightarrow> opened w' = (opened w)(r := opened w r + 1) \<and> releases opened r (close x) \<and> ok x"
  using assms unfolding acquires_def by (auto dest!: spec [of _ w])

lemma releasesD: "releases opened r m \<Longrightarrow> opened (snd (run_state m w)) = (opened w)(r := opened w r - 1)"
  by (simp add: releases_def)

lemma closeBoth_releases:
  assumes "releases opened NativeSnapshotter (sn_Close sn)" and "releases opened ContainerdClient (cl_Close cl)"
    and "opened w = f(NativeSnapshotter := f NativeSnapshotter + 1, ContainerdClient := f ContainerdClient + 1)"
  shows "opened (snd (run_state (closeBoth snFirst sn cl) w)) = f"
  by (cases snFirst)
     (simp_all add: closeBoth_def go_run split_beta releasesD [OF assms(1)] releasesD [OF assms(2)] assms(3) fun_eq_iff)

lemma svc_Close_closeBoth:
  "world (snd (run_state (svc_Close sn) s)) = snd (run_state (closeBoth False (ss_Snapshotter sn) (ss_client sn)) (world s))"
  by (simp add: svc_Close_def closeBoth_def go_run split_beta)


abbreviation sn_ok :: "'w constructors \<Rightarrow> ('w \<Rightarrow> resource \<Rightarrow> int) \<Rightarrow> 'w snapshotter_api \<Rightarrow> bool" where
  "sn_ok K opened sn \<equiv> sn_frame sn opened \<and> (\<forall>f c. k_asCleaner K sn = Some f \<longrightarrow> keeps opened (f c))"

abbreviation cl_ok :: "('w \<Rightarrow> resource \<Rightarrow> int) \<Rightarrow> 'w client \<Rightarrow> bool" where
  "cl_ok opened cl \<equiv> client_frame cl opened \<and> leases_frame (cl_LeasesService cl) opened \<and>
     sn_frame (cl_SnapshotService cl overlayfsSnapshotterName) opened"

lemma createNativeOverlaySnapshotter_acquires:
  assumes "handle_laws K opened"
  shows "acquires opened NativeSnapshotter sn_Close (sn_ok K opened) (createNativeOverlaySnapshotter (serviceWith V K))"
proof (cases "k_UnmarshalKey K flagOverlaySnapshotterConfig")
  case (Inl e)
  then show ?thesis by (simp add: createNativeOverlaySnapshotter_def acquires_def go_run)
next
  case (Inr cfg)
  then show ?thesis using assms by (simp add: createNativeOverlaySnapshotter_def handle_laws_def split_beta)
qed

lemma newResolver_client: "newResolver d g cl = Inr res \<Longrightarrow> res_client res = cl"
  by (auto simp: newResolver_def split: sum.splits)

text \<open>The four ways in which construction ends.\<close>

definition builtService ::
  "'w constructors \<Rightarrow> string \<Rightarrow> 'w snapshotter_api \<Rightarrow> 'w client \<Rightarrow> 'w resolver \<Rightarrow> 'w snapshotter" where
  "builtService K nodeName sn cl res =
     \<lparr>ss_resolver = res,
      ss_dedup = (if k_shareOverlayfsLowers K then Some (newDedupManager nodeName (res_client res) sn) else None),
      ss_Snapshotter = sn, ss_client = cl\<rparr>"

definition wrapService :: "'w constructors \<Rightarrow> 'w snapshotter \<Rightarrow> 'w wrapped" where
  "wrapService K ss =
     (case k_asCleaner K (ss_Snapshotter ss) of
        Some cleaner \<Rightarrow> CleanerSnapshotter \<lparr>cs_snapshotter = ss, cs_cleaner = cleaner\<rparr>
      | None \<Rightarrow> PlainSnapshotter ss)"

lemma RegisterGRPCService_cases:
  assumes run: "run_state (RegisterGRPCService K snFirst nodeName) w = (r, w')"
  obtains (no_snapshotter) e where "run_state (createNativeOverlaySnapshotter K) w = (Inl e, w')" "r = Inl e"
    | (no_client) sn e w1 w2 where "run_state (createNativeOverlaySnapshotter K) w = (Inr sn, w1)"
        "run_state (k_NewClient K (k_getString K flagContainerdSocket)) w1 = (Inl e, w2)"
        "w' = snd (run_state (sn_Close sn) w2)" "r = Inl e"
    | (no_resolver) sn cl e w1 w2 where "run_state (createNativeOverlaySnapshotter K) w = (Inr sn, w1)"
        "run_state (k_NewClient K (k_getString K flagContainerdSocket)) w1 = (Inr cl, w2)"
        "w' = snd (run_state (closeBoth snFirst sn cl) w2)" "r = Inl e"
    | (built) sn cl res w1 where "run_state (createNativeOverlaySnapshotter K) w = (Inr sn, w1)"
        "run_state (k_NewClient K (k_getString K flagContainerdSocket)) w1 = (Inr cl, w')"
        "newResolver (k_isDNS1123Subdomain K) (k_getString K) cl = Inr res"
        "r = Inr (builtService K nodeName sn cl res, wrapService K (builtService K nodeName sn cl res))"
proof -
  obtain s w1 where s: "run_state (createNativeOverlaySnapshotter K) w = (s, w1)" by fastforce
  obtain c w2 where c: "run_state (k_NewClient K (k_getString K flagContainerdSocket)) w1 = (c, w2)" by fastforce
  note r = run [unfolded RegisterGRPCService_def go_run s prod.case]
  show ?thesis
  proof (cases s; cases c)
    fix sn cl assume "s = Inr sn" "c = Inr cl"
    then show ?thesis
      using r s c that(3,4) by (cases "newResolver (k_isDNS1123Subdomain K) (k_getString K) cl")
        (auto simp: go_run Let_def split_beta builtService_def wrapService_def cong: option.case_cong)
  qed (use r s c that(1,2) in \<open>auto simp: go_run split_beta\<close>)
qed

text \<open>The service that construction gives, of handles that keep their promises.\<close>

lemma built_service:
  assumes "sn_ok K opened sn" "cl_ok opened cl" and "fs_frame (pk_os P) opened"
    and res: "newResolver d g cl = Inr res" and ss: "ss = builtService (serviceWith V K) nodeName sn cl res"
  shows "service_frame P ss opened" and "wrapped_service (wrapService (serviceWith V K) ss) = ss"
    and "wrapService (serviceWith V K) ss = CleanerSnapshotter cs \<Longrightarrow> keeps opened (cs_cleaner cs c)"
  using assms(1-3)
  by (auto simp: ss builtService_def wrapService_def service_frame_def svc_frame_def newResolver_client [OF res]
      newDedupManager_def split: option.splits)

lemma RegisterGRPCService_handles:
  assumes laws: "handle_laws K opened" and fs: "fs_frame (pk_os P) opened"
    and run: "run_state (RegisterGRPCService (serviceWith V K) snFirst nodeName) w = (r, w')"
  shows "case r of
      Inl _ \<Rightarrow> opened w' = opened w
    | Inr (sn, wr) \<Rightarrow>
        opened w' = (opened w)(NativeSnapshotter := opened w NativeSnapshotter + 1, ContainerdClient := opened w ContainerdClient + 1) \<and>
        releases opened NativeSnapshotter (sn_Close (ss_Snapshotter sn)) \<and>
        releases opened ContainerdClient (cl_Close (ss_client sn)) \<and>
        service_frame P sn opened \<and> wrapped_service wr = sn \<and>
        (\<forall>cs c. wr = CleanerSnapshotter cs \<longrightarrow> keeps opened (cs_cleaner cs c))"
proof -
  note new_sn = acquiresD [OF createNativeOverlaySnapshotter_acquires [OF laws]]
  have "acquires opened ContainerdClient cl_Close (cl_ok opened) (k_NewClient K path)" for path
    using laws by (simp add: handle_laws_def)
  note new_cl = acquiresD [OF this]
  from run show ?thesis
  proof (cases rule: RegisterGRPCService_cases)
    case no_snapshotter
    then show ?thesis using new_sn(1) by simp
  next
    case (no_client sn e w1 w2)
    have "opened w2 = opened w1" using new_cl(1) no_client(2) by simp
    then show ?thesis using new_sn(2) [OF no_client(1)] by (simp add: no_client(3,4) releases_def)
  next
    case (no_resolver sn cl e w1 w2)
    show ?thesis
      using new_sn(2) [OF no_resolver(1)] new_cl(2) [OF no_resolver(2) [unfolded With_simps]]
        closeBoth_releases [of opened sn cl w2 "opened w" snFirst] by (simp add: no_resolver(3,4))
  next
    case (built sn cl res w1)
    note sn = new_sn(2) [OF built(1)] and cl = new_cl(2) [OF built(2) [unfolded With_simps]]
    note ss = built_service [where K = K and V = V and nodeName = nodeName and sn = sn, OF _ _ fs built(3) refl]
    have "service_frame P (builtService (serviceWith V K) nodeName sn cl res) opened" using ss(1) sn cl by blast
    then show ?thesis using sn cl ss(2,3) by (simp add: built(4)) (simp add: builtService_def)
  qed
qed


lemma RegisterRoute_keep:
  "service_frame P sn obs \<Longrightarrow> routes_keep (snapshotter_RegisterRoute sn) (outside obs)"
  "kube_frame (h_kube h) obs \<Longrightarrow> routes_keep (webhook_RegisterRoute fuel J h) (outside obs)"
  by (auto simp: routes_keep_def snapshotter_RegisterRoute_def webhook_RegisterRoute_def answerLeases_def
      intro!: endpoints_keep frames)

lemma registeredRoutes_keep:
  assumes fr: "service_frame P sn obs" and kube: "kube_frame (ws_kube (dm_setup D)) obs"
    and routes: "registeredRoutes D V sn = Inr routes"
  shows "routes_keep routes (outside obs)"
proof (cases "routes = snapshotter_RegisterRoute sn")
  case True
  then show ?thesis using RegisterRoute_keep(1) [OF fr] by simp
next
  case False
  then obtain h where h: "New (dm_template D) (webhookWith V (dm_setup D)) = Inr h"
    and rs: "routes = snapshotter_RegisterRoute sn @ webhook_RegisterRoute (dm_fuel D) (dm_json D) h"
    using routes by (auto simp: registeredRoutes_def Let_def split: if_splits sum.splits)
  have "kube_frame (h_kube h) obs" using kube New_kube [OF h] by simp
  then show ?thesis using RegisterRoute_keep(1) [OF fr] RegisterRoute_keep(2) [of h obs "dm_fuel D" "dm_json D"]
    by (auto simp: rs routes_keep_def)
qed

lemma serve_keeps:
  assumes fr: "service_frame P sn obs" and kube: "kube_frame (ws_kube (dm_setup D)) obs"
    and wr: "wrapped_service wr = sn" "\<And>cs c. wr = CleanerSnapshotter cs \<Longrightarrow> keeps obs (cs_cleaner cs c)"
    and laws: "framework_laws D P (outside obs)"
  shows "keeps (outside obs) (serve D V sn wr)"
proof -
  have grpc: "grpc_keeps P wr (outside obs)"
    using svc_keeps [OF fr] wr by (auto simp: grpc_keeps_def svc_Cleanup_def intro: keeps_ext)
  have "keeps (outside obs) (dm_Start D wr routes (RegisterScrapeHook sn)) \<and> keeps (outside obs) (dm_Done D wr routes (RegisterScrapeHook sn))"
    if "registeredRoutes D V sn = Inr routes" for routes
    using laws grpc registeredRoutes_keep [OF fr kube that] endpoints_keep(4) [OF fr] by (simp add: framework_laws_def)
  then show ?thesis unfolding serve_def by (intro frames) simp_all
qed

text \<open>C11: the daemon releases what it opened. Whatever fails on the way (the framework, the overlay
  snapshotter, the containerd client, the annotation prefix, the webhook, the server), and also after
  an ordinary end, the native snapshotter and the containerd client that RunE opened are closed
  exactly once, and none is closed that was not opened.\<close>

theorem rootRunE_no_leak:
  assumes handles: "handle_laws (dm_constructors D) opened" and fs: "fs_frame (pk_os P) opened"
    and kube: "kube_frame (ws_kube (dm_setup D)) opened"
    and framework: "framework_laws D P (\<lambda>s. opened (world s))"
    and run: "run_state (rootRunE D) s = (e, s')"
  shows "opened (world s') = opened (world s)"
proof -
  obtain b s1 where b: "run_state (dm_BaseContext D rootFlags GetUnixSocketPath) s = (b, s1)" by fastforce
  have s1: "opened (world s1) = opened (world s)"
    using framework keepsD [of "outside opened", OF _ b] by (simp add: framework_laws_def)
  show ?thesis
  proof (cases b)
    case (Inl err)
    then show ?thesis using run b s1 by (simp add: rootRunE_def go_run)
  next
    case (Inr base)
    obtain nodeName V where base: "base = (nodeName, V)" by fastforce
    let ?reg = "RegisterGRPCService (serviceWith V (dm_constructors D)) (dm_snFirst D) nodeName"
    obtain r w2 where r: "run_state ?reg (world s1) = (r, w2)" by fastforce
    note reg = RegisterGRPCService_handles [OF handles fs r]
    show ?thesis
    proof (cases r)
      case err: (Inl err)
      then show ?thesis using run b s1 r Inr base reg by (auto simp: rootRunE_def go_run)
    next
      case ok: (Inr x)
      obtain sn wr where x: "x = (sn, wr)" by fastforce
      obtain e1 s3 where serve: "run_state (serve D V sn wr) (s1\<lparr>world := w2\<rparr>) = (e1, s3)" by fastforce
      have "keeps (outside opened) (serve D V sn wr)"
        using reg by (intro serve_keeps [OF _ kube _ _ framework]) (simp_all add: ok x)
      from keepsD [OF this serve] have "opened (world s3) = opened w2" by simp
      then have closed: "opened (snd (run_state (closeBoth False (ss_Snapshotter sn) (ss_client sn)) (world s3))) = opened (world s1)"
        using reg closeBoth_releases [of opened "ss_Snapshotter sn" "ss_client sn" "world s3" "opened (world s1)"] by (simp add: ok x)
      have "s' = snd (run_state (svc_Close sn) s3)"
        using run b r serve Inr base ok x by (auto simp: rootRunE_def go_run split_beta)
      then show ?thesis using closed s1 by (simp add: svc_Close_closeBoth)
    qed
  qed
qed


text \<open>A host on which every query answers not-found and only the handles count, and a server that calls
  every route once before it ends.\<close>

type_synonym handles = "resource \<Rightarrow> int"

abbreviation absent :: "(handles, gerr + 'a) state" where
  "absent \<equiv> State_Monad.return (Inl (Sentinel ErrNotFound))"

abbreviation count :: "resource \<Rightarrow> int \<Rightarrow> 'a \<Rightarrow> (handles, 'a) state" where
  "count r n a \<equiv> State (\<lambda>w. (a, w(r := w r + n)))"

definition idleSnapshotter :: "handles snapshotter_api" where
  "idleSnapshotter =
     \<lparr>sn_Stat = (\<lambda>c k. absent), sn_Update = (\<lambda>c i f. absent), sn_Usage = (\<lambda>c k. absent), sn_Mounts = (\<lambda>c k. absent),
      sn_Prepare = (\<lambda>c k p opts. absent), sn_View = (\<lambda>c k p opts. absent),
      sn_Commit = (\<lambda>c n k opts. State_Monad.return None), sn_Remove = (\<lambda>c k. State_Monad.return None),
      sn_Walk = (\<lambda>c fn fs. State_Monad.return None), sn_Close = count NativeSnapshotter (- 1) None\<rparr>"

definition idleClient :: "handles client" where
  "idleClient =
     \<lparr>cl_Containers = (\<lambda>c f. absent), cl_Info = (\<lambda>c i. absent), cl_Extensions = (\<lambda>c i. absent),
      cl_SnapshotService = (\<lambda>name. idleSnapshotter),
      cl_LeasesService = \<lparr>ls_Create = (\<lambda>c opts. absent), ls_AddResource = (\<lambda>c l r. State_Monad.return None),
        ls_Delete = (\<lambda>c l. State_Monad.return None), ls_List = (\<lambda>c f. absent)\<rparr>,
      cl_Close = count ContainerdClient (- 1) None\<rparr>"

definition idleConstructors :: "handles constructors" where
  "idleConstructors =
     \<lparr>k_UnmarshalKey = (\<lambda>key. Inr \<lparr>RootPath = [], UpperDirLabel = False, SyncRemove = False, SlowChown = False, MountOptions = []\<rparr>),
      k_SupportsIDMappedMounts = Inr True,
      k_NewSnapshotter = (\<lambda>root opts. count NativeSnapshotter 1 (Inr idleSnapshotter)),
      k_asCleaner = (\<lambda>sn. Some (\<lambda>c. State_Monad.return None)),
      k_NewClient = (\<lambda>path. count ContainerdClient 1 (Inr idleClient)),
      k_isDNS1123Subdomain = (\<lambda>p. []), k_getString = (\<lambda>f. []), k_shareOverlayfsLowers = False\<rparr>"

definition idleKube :: "handles kube" where
  "idleKube =
     \<lparr>kb_GetOwner = (\<lambda>g ns n. absent),
      kb_GetPVC = (\<lambda>ns n. State_Monad.return (\<lparr>pvc_Name = n, pvc_Phase = [], pvc_VolumeName = []\<rparr>, Some (Sentinel ErrNotFound))),
      kb_ListPVCs = (\<lambda>ns sel. absent), kb_GetPV = (\<lambda>n. absent), kb_ParseSelector = (\<lambda>sel. Inr sel),
      kb_Now = State_Monad.return 0, kb_Wait = (\<lambda>d. State_Monad.return None)\<rparr>"

fun callAll :: "'w route list \<Rightarrow> ('w node, http_answer list) state" where
  "callAll [] = State_Monad.return []"
| "callAll (r # rs) =
     do {
       a \<leftarrow> ro_Handler r \<lparr>hr_Context = None, hr_leaseID = ''l1'', hr_Body = []\<rparr>;
       as \<leftarrow> callAll rs;
       State_Monad.return (a # as)
     }"

definition idleDaemon :: "gerr option \<Rightarrow> (handles, tnode list) daemon" where
  "idleDaemon started =
     \<lparr>dm_BaseContext = (\<lambda>flags addr. State_Monad.return (Inr (''node-1'', defaultViper))),
      dm_constructors = idleConstructors, dm_snFirst = True,
      dm_setup = \<lparr>ws_GetConfig = None, ws_typedClient = None, ws_dynamicClient = None, ws_kube = idleKube,
        ws_isDNS1123Subdomain = (\<lambda>p. []), ws_GetString = (\<lambda>f. []), ws_GetInt = (\<lambda>f. 0), ws_GetDuration = (\<lambda>f. 0),
        ws_GetStringMapString = (\<lambda>f. [])\<rparr>,
      dm_template = webhookTemplates,
      dm_json = \<lparr>js_bindReview = (\<lambda>b. Inl (Errorf ''EOF'' [])), js_decodePod = (\<lambda>b. Inl (Errorf ''EOF'' [])),
        js_encodePatch = (\<lambda>ops. Inr ''[]'')\<rparr>,
      dm_fuel = 16,
      dm_Start = (\<lambda>wr routes hook. State_Monad.return started),
      dm_Done = (\<lambda>wr routes hook. do { _ \<leftarrow> hook None; _ \<leftarrow> callAll routes; State_Monad.return () })\<rparr>"

lemma callAll_keeps: "routes_keep routes obs \<Longrightarrow> keeps obs (callAll routes)"
  by (induction routes) (auto simp: routes_keep_def intro!: keeps_bind)

lemma idle_frames:
  "sn_frame idleSnapshotter opened" "client_frame idleClient opened" "leases_frame (cl_LeasesService idleClient) opened"
  "kube_frame idleKube opened" "cl_SnapshotService idleClient name = idleSnapshotter"
  by (simp_all add: sn_frame_def client_frame_def leases_frame_def kube_frame_def idleSnapshotter_def idleClient_def idleKube_def)

lemma idle_laws: "handle_laws idleConstructors id"
  by (simp add: handle_laws_def acquires_def releases_def idleConstructors_def idle_frames)
     (simp add: idleSnapshotter_def idleClient_def)

lemma idle_framework: "framework_laws (idleDaemon started) P (\<lambda>s. id (world s))"
  by (auto simp: framework_laws_def idleDaemon_def intro!: keeps_bind callAll_keeps)

text \<open>The ordinary run: the handles are open when the server runs, and closed after it.\<close>

definition idleNode :: "handles node" where
  "idleNode = \<lparr>world = (\<lambda>r. 0), pinnedSnapshotsTotal = 0, unpinFailuresTotal = 0, orphanLeasesTotal = 0\<rparr>"

lemma idle_run:
  "fst (run_state (rootRunE (idleDaemon None)) idleNode) = None"
  "world (snd (run_state (rootRunE (idleDaemon None)) idleNode)) = world idleNode"
  "snd (run_state (RegisterGRPCService (serviceWith defaultViper idleConstructors) True ''node-1'') (world idleNode)) = (\<lambda>r. 1)"
  by code_simp+

theorem rootRunE_no_leak_witness:
  "\<exists>s'. run_state (rootRunE (idleDaemon (Some (Errorf ''address already in use'' [])))) idleNode =
        (Some (Errorf ''address already in use'' []), s') \<and> world s' = (\<lambda>r. 0)"
proof -
  let ?e = "Some (Errorf ''address already in use'' [])"
  let ?os = "\<lparr>os_Stat = (\<lambda>p. State_Monad.return None), sys_Stat_Dev = (\<lambda>p. absent), os_MkdirAll = (\<lambda>p n. State_Monad.return None),
      os_RemoveAll = (\<lambda>p. State_Monad.return None), os_Symlink = (\<lambda>t p. State_Monad.return None)\<rparr> :: handles os_api"
  let ?P = "\<lparr>pk_template = fragment [] (\<lambda>g v. v) map_field, pk_unmarshal = (\<lambda>raw. Inl (Errorf ''EOF'' [])), pk_os = ?os\<rparr>"
  have "fst (run_state (rootRunE (idleDaemon ?e)) idleNode) = ?e" by code_simp
  note run = fst_run [OF this]
  have fs: "fs_frame (pk_os ?P) id" by (simp add: fs_frame_def)
  have handles: "handle_laws (dm_constructors (idleDaemon ?e)) id" and kube: "kube_frame (ws_kube (dm_setup (idleDaemon ?e))) id"
    by (simp_all add: idleDaemon_def idle_laws idle_frames)
  have "world (snd (run_state (rootRunE (idleDaemon ?e)) idleNode)) = (\<lambda>r. 0)"
    using rootRunE_no_leak [OF handles fs kube idle_framework run] by (simp add: idleNode_def)
  with run show ?thesis by blast
qed

end
