(* ===== verification/Configuration.thy ===== *)
theory Configuration
  imports Daemon_Props
begin

text \<open>
  The configuration of the daemon and of the sidecar: what is read is what is registered, the
  defaults of the two commands fit together, and the runtime class that the webhook gives a pod
  is one that the sidecar registers with containerd.
\<close>


section \<open>Reads\<close>

text \<open>C24: every flag value the program reads is a flag that the command registered, read at the type it
  was registered with, and no command registers a name twice (which would panic at start-up): two
  configurations that agree on those flags, at those types, give the same service, the same
  webhook, the same listening socket and the same run of the sidecar, whatever they give for other
  names or at other types. (The section of the overlay snapshotter is no flag; it is decoded
  separately and is the same for both.)\<close>

theorem flag_reads_well_typed:
  "distinct (map fst rootFlags) \<and> distinct (map fst configFlags) \<and>
   ((\<forall>f \<in> set rootFlags. sameRead V V' f) \<longrightarrow>
      New T (webhookWith V W) = New T (webhookWith V' W) \<and> Enabled V = Enabled V' \<and>
      GetUnixSocketPath V = GetUnixSocketPath V' \<and>
      RegisterGRPCService (serviceWith V K) snFirst nodeName = RegisterGRPCService (serviceWith V' K) snFirst nodeName) \<and>
   ((\<forall>f \<in> set configFlags. sameRead V V' f) \<longrightarrow>
      configRunE fuel (sidecarWith V S) = configRunE fuel (sidecarWith V' S))"
proof (intro conjI impI)
  show "distinct (map fst rootFlags)" "distinct (map fst configFlags)" by code_simp+
qed (simp_all add: New_reads RegisterGRPCService_reads configRunE_reads root_getters)

text \<open>Other values for everything but the registered flags.\<close>

definition noisyViper :: viper where
  "noisyViper = defaultViper\<lparr>
     vp_GetString := (\<lambda>n. if n = ''log-level'' \<or> n = flagMaxOwnerDepth then ''7'' else vp_GetString defaultViper n),
     vp_GetBool := (\<lambda>n. n = flagStateMountPath \<or> vp_GetBool defaultViper n)\<rparr>"

theorem flag_reads_well_typed_witness:
  "New webhookTemplates (webhookWith defaultViper exampleSetup) = New webhookTemplates (webhookWith noisyViper exampleSetup) \<and>
   configRunE 5 (sidecarWith defaultViper exampleSidecar) = configRunE 5 (sidecarWith noisyViper exampleSidecar) \<and>
   vp_GetString defaultViper ''log-level'' \<noteq> vp_GetString noisyViper ''log-level''"
proof -
  have root: "\<forall>f \<in> set rootFlags. sameRead defaultViper noisyViper f" by code_simp
  have conf: "\<forall>f \<in> set configFlags. sameRead defaultViper noisyViper f" by code_simp
  have ne: "vp_GetString defaultViper ''log-level'' \<noteq> vp_GetString noisyViper ''log-level''" by code_simp
  show ?thesis
    using flag_reads_well_typed [of defaultViper noisyViper webhookTemplates exampleSetup _ _ _ 5 exampleSidecar] root conf ne by blast
qed


section \<open>Defaults\<close>

lemma default_reads:
  assumes "\<forall>f \<in> set rootFlags. readsDefault V f"
  shows "vp_GetString V flagPrefix = defaultPrefix" "vp_GetString V flagUnixSocketPath = defaultUnixSocketPath"
    "\<not> vp_GetBool V flagShareOverlayfsLowers" "vp_GetString V flagPVCNameTemplate = defaultPVCNameTemplate"
    "vp_GetString V flagPVCSelectorTemplate = defaultPVCSelectorTemplate" "vp_GetInt V flagMaxOwnerDepth = defaultMaxOwnerDepth"
    "vp_GetString V flagRuntimeClassSuffix = defaultRuntimeClassSuffix"
    "vp_GetStringMapString V flagAnnotationTemplates = defaultAnnotationTemplates"
    "vp_GetDuration V flagBoundTimeout = defaultBoundTimeout" "vp_GetBool V flagEnabled = defaultEnabled"
  using assms by (simp_all add: flag_sets)

lemma default_ResolvePrefix:
  assumes "vp_GetString V flagPrefix = defaultPrefix" and "isDNS defaultPrefix = []"
  shows "ResolvePrefix isDNS (vp_GetString V) = Inr defaultPrefix"
  using assms
  by (simp add: ResolvePrefix_def validatePrefix_def has_suffix_def defaultPrefix_def reservedPrefixK8s_def
      reservedPrefixKubernetes_def Let_def)

lemma plain_parses:
  assumes T: "template_engine (tt_render T) data_field" and plain: "list_all plain_node ns"
    and exec: "\<not> isl (exec_nodes (data_field exampleData) (\<lambda>g v. v) ns)"
  shows "\<exists>t. tt_Parse T (print_nodes ns) = Inr t"
proof -
  obtain x where "exec_nodes (data_field exampleData) (\<lambda>g v. v) ns = Inr x" using exec by (metis sum.collapse(2))
  from template_engine.render_plain [OF T plain this] show ?thesis by (auto simp: tt_render_def split: sum.splits)
qed

lemma default_templates_parse:
  assumes T: "template_engine (tt_render T) data_field"
  shows "\<exists>t. tt_Parse T defaultPVCNameTemplate = Inr t" "\<exists>t. tt_Parse T defaultPVCSelectorTemplate = Inr t"
    "\<exists>tmpls. parseAnnotationTemplates T defaultAnnotationTemplates [] = Inr tmpls \<and>
       map fst tmpls = map fst defaultAnnotationTemplates"
proof -
  let ?path = "[TText ''/var/lib/kubelet/pods/'', TField ''PodUID'', TText ''/volumes/kubernetes.io~csi/'', TField ''PVName'', TText ''/mount'']"
  have "\<exists>t. tt_Parse T (print_nodes [TField ''OwnerName'']) = Inr t" by (rule plain_parses [OF T]) code_simp+
  then show "\<exists>t. tt_Parse T defaultPVCNameTemplate = Inr t" by (simp add: defaultPVCNameTemplate_def)
  have "\<exists>t. tt_Parse T (print_nodes []) = Inr t" by (rule plain_parses [OF T]) code_simp+
  then show "\<exists>t. tt_Parse T defaultPVCSelectorTemplate = Inr t" by (simp add: defaultPVCSelectorTemplate_def)
  have "\<exists>t. tt_Parse T (print_nodes ?path) = Inr t" "\<exists>t. tt_Parse T (print_nodes [TField ''PVName'']) = Inr t"
    by (rule plain_parses [OF T], code_simp, code_simp)+
  then show "\<exists>tmpls. parseAnnotationTemplates T defaultAnnotationTemplates [] = Inr tmpls \<and>
       map fst tmpls = map fst defaultAnnotationTemplates"
    by (auto simp: defaultAnnotationTemplates_def)
qed


lemma default_sockets: "defaultUnixSocketPath_config = defaultUnixSocketPath"
  by (simp add: defaultUnixSocketPath_config_def defaultUnixSocketPath_def)

lemma default_suffixes: "defaultRuntimeClassSuffix_config = defaultRuntimeClassSuffix"
  by (simp add: defaultRuntimeClassSuffix_config_def defaultRuntimeClassSuffix_def)

lemma default_New:
  assumes root: "\<forall>f \<in> set rootFlags. readsDefault V f" and T: "template_engine (tt_render T) data_field"
    and dns: "ws_isDNS1123Subdomain W defaultPrefix = []"
    and clients: "ws_GetConfig W = None" "ws_typedClient W = None" "ws_dynamicClient W = None"
  shows "\<exists>h. New T (webhookWith V W) = Inr h \<and> h_runtimeClassSuffix h = defaultRuntimeClassSuffix \<and>
    map fst (h_annotationTmpls h) = map fst defaultAnnotationTemplates"
proof -
  note defaults = default_reads [OF root]
  obtain a b tmpls where "tt_Parse T defaultPVCNameTemplate = Inr a" "tt_Parse T defaultPVCSelectorTemplate = Inr b"
    "parseAnnotationTemplates T defaultAnnotationTemplates [] = Inr tmpls" "map fst tmpls = map fst defaultAnnotationTemplates"
    using default_templates_parse [OF T] by blast
  then show ?thesis
    by (simp add: New_def clients defaults default_ResolvePrefix [of V "ws_isDNS1123Subdomain W", OF defaults(1) dns])
qed

text \<open>The endpoints of a service without dedup.\<close>

lemma endpoints_disabled:
  assumes "ss_dedup sn = None"
  shows "run_state (handleListLeases sn) s = (dedupDisabled, s)" "run_state (handleDeleteLease sn leaseID) s = (dedupDisabled, s)"
    "run_state (handleGCLeases sn c) s = (dedupDisabled, s)"
  using assms by (simp_all add: handleListLeases_def handleDeleteLease_def handleGCLeases_def go_run)

text \<open>C23: the two commands fit together without any flag. With the defaults of both, the sidecar probes
  and registers the very socket the daemon listens on and uses the suffix of the webhook; the webhook
  is enabled and its construction fails for no reason of configuration; it stamps the key that the
  resolver of the service reads; and the dedup path is off, so that every lease endpoint of the
  server answers 501 and changes nothing.\<close>

theorem default_configuration:
  assumes root: "\<forall>f \<in> set rootFlags. readsDefault V f" and conf: "\<forall>f \<in> set configFlags. readsDefault C f"
    and T: "template_engine (tt_render (dm_template D)) data_field"
    and dns: "ws_isDNS1123Subdomain (dm_setup D) defaultPrefix = []" "k_isDNS1123Subdomain (dm_constructors D) defaultPrefix = []"
    and clients: "ws_GetConfig (dm_setup D) = None" "ws_typedClient (dm_setup D) = None" "ws_dynamicClient (dm_setup D) = None"
    and reg: "run_state (RegisterGRPCService (serviceWith V (dm_constructors D)) (dm_snFirst D) nodeName) w = (Inr (svc, wr), w')"
  shows "SocketPath (GetParams (vp_GetString C) (vp_GetStringSlice C)) = GetUnixSocketPath V \<and>
    hc_Address (unixHTTPClient (GetSocketPath (vp_GetString C))) = GetUnixSocketPath V \<and>
    (\<exists>h. New (dm_template D) (webhookWith V (dm_setup D)) = Inr h \<and>
         registeredRoutes D V svc = Inr (snapshotter_RegisterRoute svc @ webhook_RegisterRoute (dm_fuel D) (dm_json D) h) \<and>
         h_runtimeClassSuffix h = vp_GetString C flagRuntimeClassSuffix_config \<and>
         keyTemplate (ss_resolver svc) \<in> fst ` set (h_annotationTmpls h)) \<and>
    (\<forall>r \<in> set (snapshotter_RegisterRoute svc). \<forall>rq s. run_state (ro_Handler r rq) s = (LeaseAnswer dedupDisabled, s))"
proof (intro conjI)
  note defaults = default_reads [OF root]
  show "SocketPath (GetParams (vp_GetString C) (vp_GetStringSlice C)) = GetUnixSocketPath V"
    "hc_Address (unixHTTPClient (GetSocketPath (vp_GetString C))) = GetUnixSocketPath V"
    using conf by (simp_all add: flag_sets GetParams_def GetSocketPath_def unixHTTPClient_def GetUnixSocketPath_def defaults
        default_sockets)
  obtain h where h: "New (dm_template D) (webhookWith V (dm_setup D)) = Inr h" "h_runtimeClassSuffix h = defaultRuntimeClassSuffix"
    and keys: "map fst (h_annotationTmpls h) = map fst defaultAnnotationTemplates"
    using default_New [OF root T dns(1) clients] by blast
  obtain sn cl res where res: "newResolver (k_isDNS1123Subdomain (dm_constructors D)) (vp_GetString V) cl = Inr res"
    and svc: "svc = builtService (serviceWith V (dm_constructors D)) nodeName sn cl res"
    using reg by (cases rule: RegisterGRPCService_cases) auto
  have "fst ` set (h_annotationTmpls h) = fst ` set defaultAnnotationTemplates" using arg_cong [OF keys, of set] by simp
  moreover have "keyTemplate (ss_resolver svc) = ''pv-snapshotter.humble-mun.io/upperdir-path-template''"
    using res default_ResolvePrefix [of V "k_isDNS1123Subdomain (dm_constructors D)", OF defaults(1) dns(2)]
    by (auto simp: svc builtService_def newResolver_def Key_def defaultPrefix_def resolver_consts)
  ultimately have stamped: "keyTemplate (ss_resolver svc) \<in> fst ` set (h_annotationTmpls h)"
    by (simp add: defaultAnnotationTemplates_def)
  have "registeredRoutes D V svc = Inr (snapshotter_RegisterRoute svc @ webhook_RegisterRoute (dm_fuel D) (dm_json D) h)"
    by (simp add: registeredRoutes_def h(1) Enabled_def defaults defaultEnabled_def)
  then show "\<exists>h. New (dm_template D) (webhookWith V (dm_setup D)) = Inr h \<and>
         registeredRoutes D V svc = Inr (snapshotter_RegisterRoute svc @ webhook_RegisterRoute (dm_fuel D) (dm_json D) h) \<and>
         h_runtimeClassSuffix h = vp_GetString C flagRuntimeClassSuffix_config \<and>
         keyTemplate (ss_resolver svc) \<in> fst ` set (h_annotationTmpls h)"
    using h stamped conf by (simp add: flag_sets default_suffixes)
  have "ss_dedup svc = None" by (simp add: svc builtService_def defaults)
  then show "\<forall>r \<in> set (snapshotter_RegisterRoute svc). \<forall>rq s. run_state (ro_Handler r rq) s = (LeaseAnswer dedupDisabled, s)"
    by (simp add: snapshotter_RegisterRoute_def answerLeases_def go_run endpoints_disabled)
qed


theorem default_configuration_witness:
  "\<exists>svc wr w h. run_state (RegisterGRPCService (serviceWith defaultViper idleConstructors) True ''node-1'') (\<lambda>r. 0) = (Inr (svc, wr), w) \<and>
     New webhookTemplates (webhookWith defaultViper (dm_setup (idleDaemon None))) = Inr h \<and>
     registeredRoutes (idleDaemon None) defaultViper svc =
       Inr (snapshotter_RegisterRoute svc @ webhook_RegisterRoute 16 (dm_json (idleDaemon None)) h) \<and>
     keyTemplate (ss_resolver svc) \<in> fst ` set (h_annotationTmpls h)"
proof -
  let ?D = "idleDaemon None"
  let ?r = "run_state (RegisterGRPCService (serviceWith defaultViper (dm_constructors ?D)) (dm_snFirst ?D) ''node-1'') (\<lambda>r. 0)"
  have "\<not> isl (fst ?r)" by code_simp
  then obtain svc wr where reg: "?r = (Inr (svc, wr), snd ?r)" by (metis prod.collapse sum.collapse(2))
  have root: "\<forall>f \<in> set rootFlags. readsDefault defaultViper f" and conf: "\<forall>f \<in> set configFlags. readsDefault defaultViper f"
    by code_simp+
  have T: "template_engine (tt_render (dm_template ?D)) data_field"
    unfolding idleDaemon_def webhookTemplates_def daemon.simps by (rule fragment_engine.template_engine_axioms)
  have idle: "ws_isDNS1123Subdomain (dm_setup ?D) defaultPrefix = []" "k_isDNS1123Subdomain (dm_constructors ?D) defaultPrefix = []"
    "ws_GetConfig (dm_setup ?D) = None" "ws_typedClient (dm_setup ?D) = None" "ws_dynamicClient (dm_setup ?D) = None"
    "dm_constructors ?D = idleConstructors" "dm_snFirst ?D" "dm_template ?D = webhookTemplates" "dm_fuel ?D = 16"
    by (simp_all add: idleDaemon_def idleConstructors_def)
  note fits = default_configuration [OF root conf T idle(1-5) reg, unfolded idle]
  have "run_state (RegisterGRPCService (serviceWith defaultViper idleConstructors) True ''node-1'') (\<lambda>r. 0) = (Inr (svc, wr), snd ?r)"
    using reg idle by simp
  with fits show ?thesis by blast
qed



section \<open>Runtime classes\<close>

lemma runtimeEntries_in:
  "b \<in> trim_space ` set bases \<Longrightarrow> b \<noteq> [] \<Longrightarrow> \<lparr>rt_Name = b @ suffix, rt_BaseRuntimeName = b\<rparr> \<in> set (runtimeEntries bases suffix)"
  by (induction bases suffix rule: runtimeEntries.induct) (auto simp: Let_def)

lemma New_suffix: "New T (webhookWith V W) = Inr h \<Longrightarrow> h_runtimeClassSuffix h = vp_GetString V flagRuntimeClassSuffix"
  by (auto simp: New_def split: option.splits sum.splits)

text \<open>C12: webhook and sidecar agree on the runtime class. When both are given the same suffix and the base
  class of a pod (its own, or the configured default) is among the classes the sidecar was given,
  then the class that the patch gives the pod is an entry of the containerd configuration after
  the sidecar has applied it: an admitted pod never names a runtime handler that containerd does
  not have. (For bare TOML keys and files without multi-line strings.)\<close>

theorem admitted_runtime_configured:
  assumes h: "New T (webhookWith V W) = Inr h"
    and suffix: "vp_GetString C flagRuntimeClassSuffix_config = vp_GetString V flagRuntimeClassSuffix"
    and base: "runtimeClassBase h pod \<in> trim_space ` set (vp_GetStringSlice C flagRuntimeClasses)" "runtimeClassBase h pod \<noteq> []"
    and patch: "buildPatch h pod pvcName d = Inr ops" "applyPatch ops pod = Some pod'"
    and params: "params = GetParams (vp_GetString C) (vp_GetStringSlice C)"
    and files: "file_laws F content" and toml: "toml_laws TP"
    and names: "\<forall>rt \<in> set (Runtimes params). bareKey (rt_Name rt)"
    and run: "run_state (Apply TP F params) w = (Inr modified, w')"
    and plain: "\<not> contains (content w' (ConfigPath params)) [CHR 0x22, CHR 0x22, CHR 0x22]"
      "\<not> contains (content w' (ConfigPath params)) [CHR 0x27, CHR 0x27, CHR 0x27]"
    and tree: "toml_Unmarshal TP (content w' (ConfigPath params)) = Inr tree"
  shows "\<exists>rc. pod_RuntimeClassName pod' = Some rc \<and> hasRuntimeEntry tree rc \<and> hasKey tree [''proxy_plugins'', ''pv-snapshotter'']"
proof -
  let ?rc = "runtimeClassBase h pod @ h_runtimeClassSuffix h"
  have "pod_RuntimeClassName pod' = Some ?rc"
    using buildPatch_applies [OF patch(1)] patch(2) base(2) by (auto simp: patchedPod_def)
  moreover have "\<exists>rt \<in> set (Runtimes params). rt_Name rt = ?rc"
    using runtimeEntries_in [OF base, of "vp_GetString C flagRuntimeClassSuffix_config"]
    by (force simp: params GetParams_def suffix New_suffix [OF h])
  ultimately show ?thesis
    using Apply_complete [where content = content, OF files toml names run plain tree] unfolding collectMissing_empty_iff by auto
qed

text \<open>The configuration of the sidecar of the example: the base class runc.\<close>

definition runcViper :: viper where
  "runcViper = defaultViper\<lparr>vp_GetStringSlice := (\<lambda>n. if n = flagRuntimeClasses then ['' runc''] else [])\<rparr>"

theorem admitted_runtime_configured_witness:
  "\<exists>h ops pod' w' tree. New webhookTemplates (webhookWith defaultViper exampleSetup) = Inr h \<and>
     buildPatch h examplePod ''web'' exampleData = Inr ops \<and> applyPatch ops examplePod = Some pod' \<and>
     run_state (Apply headerTOML plainFiles (GetParams (vp_GetString runcViper) (vp_GetStringSlice runcViper))) exampleFiles = (Inr True, w') \<and>
     toml_Unmarshal headerTOML (w' defaultConfigPath) = Inr tree \<and>
     (\<exists>rc. pod_RuntimeClassName pod' = Some rc \<and> hasRuntimeEntry tree rc)"
proof -
  let ?h = "projr (New webhookTemplates (webhookWith defaultViper exampleSetup))"
  let ?ops = "projr (buildPatch ?h examplePod ''web'' exampleData)"
  let ?params = "GetParams (vp_GetString runcViper) (vp_GetStringSlice runcViper)"
  let ?A = "Apply headerTOML plainFiles ?params"
  have "\<not> isl (New webhookTemplates (webhookWith defaultViper exampleSetup))" by code_simp
  then have h: "New webhookTemplates (webhookWith defaultViper exampleSetup) = Inr ?h" by simp
  have "\<not> isl (buildPatch ?h examplePod ''web'' exampleData)" by code_simp
  then have ops: "buildPatch ?h examplePod ''web'' exampleData = Inr ?ops" by simp
  have suffix: "vp_GetString runcViper flagRuntimeClassSuffix_config = vp_GetString defaultViper flagRuntimeClassSuffix" by code_simp
  have base: "runtimeClassBase ?h examplePod \<in> trim_space ` set (vp_GetStringSlice runcViper flagRuntimeClasses)"
    "runtimeClassBase ?h examplePod \<noteq> []" by code_simp+
  have names: "\<forall>rt \<in> set (Runtimes ?params). bareKey (rt_Name rt)" by code_simp
  have path: "ConfigPath ?params = defaultConfigPath" by code_simp
  have "fst (run_state ?A exampleFiles) = Inr True" by code_simp
  note run = fst_run [OF this]
  have plain: "\<not> contains (snd (run_state ?A exampleFiles) (ConfigPath ?params)) [CHR 0x22, CHR 0x22, CHR 0x22]"
    "\<not> contains (snd (run_state ?A exampleFiles) (ConfigPath ?params)) [CHR 0x27, CHR 0x27, CHR 0x27]" by code_simp+
  obtain tree where tree: "toml_Unmarshal headerTOML (snd (run_state ?A exampleFiles) (ConfigPath ?params)) = Inr tree"
    by (simp add: headerTOML_def)
  note conf = admitted_runtime_configured [where content = "\<lambda>w. w", OF h suffix base ops buildPatch_applies [OF ops] refl
      plainFiles_laws headerTOML_laws names run plain tree]
  show ?thesis using h ops buildPatch_applies [OF ops] run tree conf unfolding path by blast
qed

end
