(* ===== verification/Runtime_Entries.thy ===== *)
theory Runtime_Entries
  imports Config_Props
begin

text \<open>
  The runtime entries that patcher.go appends to config.toml: what the written text says, when
  it is read as TOML, about the new runtime and the base it is cloned from.
\<close>


section \<open>The settings of a new runtime\<close>

lemma deepCopyMap_id: "deepCopyMap t = t"
  by (induction t rule: deepCopyMap.induct) simp_all

text \<open>The base runtime as a lookup along the two plugin paths, the first one that has it.\<close>

fun tableAt :: "table \<Rightarrow> string list \<Rightarrow> table option" where
  "tableAt t [] = Some t"
| "tableAt t (k # ks) = (case subtable t k of None \<Rightarrow> None | Some sub \<Rightarrow> tableAt sub ks)"

definition baseTable :: "table \<Rightarrow> string \<Rightarrow> table option" where
  "baseTable tree base =
     (if base = [] then None
      else case tableAt tree (runtimePath ''io.containerd.grpc.v1.cri'' base) of
        Some t \<Rightarrow> Some t
      | None \<Rightarrow> tableAt tree (runtimePath ''io.containerd.cri.v1.runtime'' base))"

lemma lookupBaseRuntime_spec: "lookupBaseRuntime tree base = baseTable tree base"
  by (simp add: lookupBaseRuntime_def baseTable_def runtimePath_def criKeys_def runtimesOf_def deepCopyMap_id
      split: option.splits)

text \<open>The intended entry: the base's settings, or the minimal ones, with the snapshotter replaced.\<close>

definition clonedEntry :: "table \<Rightarrow> RuntimeEntry \<Rightarrow> string \<Rightarrow> toml option" where
  "clonedEntry tree rt =
     (case baseTable tree (rt_BaseRuntimeName rt) of
        Some t \<Rightarrow> map_of t
      | None \<Rightarrow> [''runtime_type'' \<mapsto> Str ''io.containerd.runc.v2''])
     (''snapshotter'' \<mapsto> Str ''pv-snapshotter'')"

text \<open>The settings of an entry that are not tables.\<close>

definition ownSettings :: "(string \<Rightarrow> toml option) \<Rightarrow> string \<Rightarrow> toml option" where
  "ownSettings m k = (case m k of Some v \<Rightarrow> if is_table v then None else Some v | None \<Rightarrow> None)"

lemma runtimeConfig_cloned:
  "map_of (runtimeConfig (lookupBaseRuntime tree (rt_BaseRuntimeName rt))) = clonedEntry tree rt"
  by (auto simp: runtimeConfig_def clonedEntry_def lookupBaseRuntime_spec split: option.splits)

lemma map_of_scalarsOf: "gomap_ok cfg \<Longrightarrow> map_of (scalarsOf cfg) = ownSettings (map_of cfg)"
proof (induction cfg)
  case (Cons x cfg)
  obtain k v where x: "x = (k, v)" by (cases x)
  have "map_of cfg k = None" using Cons.prems x by (simp add: gomap_ok_def map_of_eq_None_iff)
  moreover have "map_of (scalarsOf cfg) = ownSettings (map_of cfg)" using Cons by (simp add: gomap_ok_def)
  ultimately show ?case by (auto simp: x scalarsOf_def ownSettings_def fun_eq_iff)
qed (simp add: scalarsOf_def ownSettings_def fun_eq_iff)

lemma subtablesOf_iff: "(k, t) \<in> set (subtablesOf cfg) \<longleftrightarrow> (k, Table t) \<in> set cfg"
  by (induction cfg rule: subtablesOf.induct) auto

lemma subtablesOf_keys: "gomap_ok cfg \<Longrightarrow> gomap_ok (subtablesOf cfg)"
proof (induction cfg rule: subtablesOf.induct)
  case (2 k t m)
  then have "k \<notin> fst ` set (subtablesOf m)" by (force simp: gomap_ok_def subtablesOf_iff)
  then show ?case using 2 by (simp add: gomap_ok_def)
qed (simp_all add: gomap_ok_def)

lemma gomap_ok_scalarsOf: "gomap_ok cfg \<Longrightarrow> gomap_ok (scalarsOf cfg)"
  by (simp add: gomap_ok_def scalarsOf_def distinct_map_filter)


section \<open>Reading the text\<close>

text \<open>
  A new layout of the lines of a document: blanks in front of lines, white space removed from
  blank lines, and further empty lines.
\<close>

inductive relaid :: "string list \<Rightarrow> string list \<Rightarrow> bool" where
  none: "relaid [] []"
| blank: "trim_space l = [] \<Longrightarrow> relaid ls ls' \<Longrightarrow> relaid (l # ls) ([] # ls')"
| indented: "set p \<subseteq> {CHR '' ''} \<Longrightarrow> relaid ls ls' \<Longrightarrow> relaid (l # ls) ((p @ l) # ls')"
| extra: "relaid ls ls' \<Longrightarrow> relaid ls ([] # ls')"

definition multiline :: "string \<Rightarrow> bool" where
  "multiline text = (contains text [CHR 0x22, CHR 0x22, CHR 0x22] \<or> contains text [CHR 0x27, CHR 0x27, CHR 0x27])"

text \<open>Values without tables inside, which are written on one line.\<close>

fun plainValue :: "toml \<Rightarrow> bool" where
  "plainValue (Table t) = False"
| "plainValue (Array vs) = list_all plainValue vs"
| "plainValue _ = True"

definition plainTable :: "table \<Rightarrow> bool" where
  "plainTable t = (gomap_ok t \<and> (\<forall>(k, v) \<in> set t. plainValue v))"

text \<open>
  What the code relies on of go-toml here: encoding a table of plain values and decoding the text
  gives the same settings, and the layout of a document without multi-line strings does not
  matter.
\<close>

definition toml_text_laws :: "toml_pkg \<Rightarrow> bool" where
  "toml_text_laws TP \<longleftrightarrow>
     (\<forall>t b. plainTable t \<longrightarrow> toml_Marshal TP t = Inr b \<longrightarrow>
        (\<exists>t'. toml_Unmarshal TP b = Inr t' \<and> map_of t' = map_of t)) \<and>
     (\<forall>x y tree. \<not> multiline x \<longrightarrow> relaid (split_all x (CHR 0x0A)) (split_all y (CHR 0x0A)) \<longrightarrow>
        toml_Unmarshal TP x = Inr tree \<longrightarrow> toml_Unmarshal TP y = Inr tree)"

text \<open>A text that decodes to the given settings; a table that can be encoded, without multi-line strings.\<close>

definition decodesTo :: "toml_pkg \<Rightarrow> string \<Rightarrow> (string \<Rightarrow> toml option) \<Rightarrow> bool" where
  "decodesTo TP text m \<longleftrightarrow> (\<exists>t. toml_Unmarshal TP text = Inr t \<and> map_of t = m)"

definition encodable :: "toml_pkg \<Rightarrow> table \<Rightarrow> bool" where
  "encodable TP t \<longleftrightarrow> plainTable t \<and> (\<exists>b. toml_Marshal TP t = Inr b \<and> \<not> multiline b)"

text \<open>Indenting is such a change of layout.\<close>

lemma split_all_lines_no_newline: "l \<in> set (split_all s sep) \<Longrightarrow> sep \<notin> set l"
proof (induction s arbitrary: l)
  case (Cons c s)
  show ?case
  proof (cases "c = sep")
    case True
    then show ?thesis using Cons by auto
  next
    case False
    obtain x xs where "split_all s sep = x # xs" by (cases "split_all s sep") simp_all
    then show ?thesis using Cons False by auto
  qed
qed simp

lemma indentLines_relaid:
  assumes "set prefix \<subseteq> {CHR '' ''}" and "\<And>l. l \<in> set ls \<Longrightarrow> CHR 0x0A \<notin> set l"
  shows "relaid ls (split_all (indentLines ls prefix) (CHR 0x0A))"
  using assms(2)
proof (induction ls)
  case Nil
  show ?case by (simp add: relaid.none relaid.extra)
next
  case (Cons l ls)
  have rest: "relaid ls (split_all (indentLines ls prefix) (CHR 0x0A))" using Cons by simp
  show ?case
  proof (cases "trim_space l = []")
    case True
    then show ?thesis using relaid.blank [OF True rest] by simp
  next
    case False
    have "CHR 0x0A \<notin> set (prefix @ l)" using assms(1) Cons.prems by auto
    from split_all_append [OF this, of "indentLines ls prefix"] False
    have "split_all (indentLines (l # ls) prefix) (CHR 0x0A) = (prefix @ l) # split_all (indentLines ls prefix) (CHR 0x0A)"
      by simp
    then show ?thesis using relaid.indented [OF assms(1) rest] by simp
  qed
qed

lemma marshalIndented_decodes:
  assumes laws: "toml_text_laws TP" and t: "encodable TP t"
  shows "decodesTo TP (marshalIndented TP t) (map_of t)"
proof -
  obtain b where b: "toml_Marshal TP t = Inr b" "\<not> multiline b" and plain: "plainTable t"
    using t unfolding encodable_def by blast
  obtain t' where t': "toml_Unmarshal TP b = Inr t'" "map_of t' = map_of t"
    using laws plain b(1) unfolding toml_text_laws_def by blast
  have "relaid (split_all b (CHR 0x0A)) (split_all (indentTOML b ''  '') (CHR 0x0A))"
    unfolding indentTOML_def by (rule indentLines_relaid) (auto dest: split_all_lines_no_newline)
  then have "toml_Unmarshal TP (indentTOML b ''  '') = Inr t'"
    using laws b(2) t'(1) unfolding toml_text_laws_def by blast
  then show ?thesis using t'(2) by (auto simp: decodesTo_def marshalIndented_def b(1))
qed

text \<open>The text of one table: its header, its settings, an empty line.\<close>

definition tableText :: "string \<Rightarrow> string \<Rightarrow> string" where
  "tableText header body = ''['' @ header @ '']'' @ newline @ body @ newline"

lemma runtimeSnippet_tables:
  "runtimeSnippet TP name base =
     newline @ tableText (criPrefix @ name) (marshalIndented TP (scalarsOf (runtimeConfig base))) @
     concat (map (\<lambda>(k, b). tableText (criPrefix @ name @ ''.'' @ k) b)
       (map (\<lambda>(k, t). (k, marshalIndented TP t)) (subtablesOf (runtimeConfig base))))"
proof -
  have "map_of (scalarsOf (runtimeConfig base)) ''snapshotter'' \<noteq> None"
  proof -
    have "(''snapshotter'', Str ''pv-snapshotter'') \<in> set (runtimeConfig base)"
      by (rule map_of_SomeD) (simp add: runtimeConfig_def)
    then have "(''snapshotter'', Str ''pv-snapshotter'') \<in> set (scalarsOf (runtimeConfig base))"
      by (simp add: scalarsOf_def)
    then show ?thesis by (metis weak_map_of_SomeI option.distinct(1))
  qed
  then have "scalarsOf (runtimeConfig base) \<noteq> []" by auto
  then show ?thesis
    by (simp add: runtimeSnippet_def tableText_def Let_def o_def case_prod_unfold)
qed

lemma buildSnippet_section:
  assumes "sec \<in> set secs"
  shows "\<exists>pre post. buildSnippet TP socket secs = pre @ sectionSnippet TP socket sec @ post"
proof -
  obtain xs ys where secs: "secs = xs @ sec # ys" using assms by (auto dest: split_list)
  have "buildSnippet TP socket secs =
      (snippetHeader @ concat (map (sectionSnippet TP socket) xs)) @ sectionSnippet TP socket sec @
      (concat (map (sectionSnippet TP socket) ys) @ snippetFooter)"
    by (simp add: buildSnippet_def secs)
  then show ?thesis by blast
qed

text \<open>C30: the entry written for a missing runtime clones its base. When Apply reports a modification, the
  appended text holds for every runtime that was missing the table of that runtime followed by one
  table for each of its sub-tables; read as TOML, the first gives exactly the settings of the base
  runtime (from the first of the two CRI plugin sections that has it, or the minimal runc settings)
  with the snapshotter replaced by pv-snapshotter, and each of the others exactly the settings of
  the base's sub-table of that name. (For settings that go-toml can encode without multi-line
  strings, and sub-tables that hold no further tables.)\<close>

theorem runtime_entry_clones_base:
  assumes files: "file_laws F content" and toml: "toml_text_laws TP"
    and run: "run_state (Apply TP F params) w = (Inr True, w')"
    and tree: "toml_Unmarshal TP (content w (ConfigPath params)) = Inr tree"
    and rt: "rt \<in> set (Runtimes params)" "\<not> hasRuntimeEntry tree (rt_Name rt)"
    and keys: "\<forall>t. baseTable tree (rt_BaseRuntimeName rt) = Some t \<longrightarrow> gomap_ok t"
    and enc: "\<forall>t. gomap_ok t \<and> map_of t = ownSettings (clonedEntry tree rt) \<longrightarrow> encodable TP t"
      "\<forall>k t. clonedEntry tree rt k = Some (Table t) \<longrightarrow> encodable TP t"
  shows "\<exists>pre body subs post.
     content w' (ConfigPath params) = content w (ConfigPath params) @ pre @ newline @
       tableText (criPrefix @ rt_Name rt) body @
       concat (map (\<lambda>(k, b). tableText (criPrefix @ rt_Name rt @ ''.'' @ k) b) subs) @ post \<and>
     decodesTo TP body (ownSettings (clonedEntry tree rt)) \<and>
     distinct (map fst subs) \<and>
     (\<forall>k. k \<in> fst ` set subs \<longleftrightarrow> (\<exists>t. clonedEntry tree rt k = Some (Table t))) \<and>
     (\<forall>k b t. (k, b) \<in> set subs \<longrightarrow> clonedEntry tree rt k = Some (Table t) \<longrightarrow> decodesTo TP b (map_of t))"
proof -
  let ?base = "lookupBaseRuntime tree (rt_BaseRuntimeName rt)"
  let ?cfg = "runtimeConfig ?base" and ?sec = "Runtime (rt_Name rt) (lookupBaseRuntime tree (rt_BaseRuntimeName rt))"
  let ?subs = "map (\<lambda>(k, t). (k, marshalIndented TP t)) (subtablesOf ?cfg)"
  have ok: "gomap_ok ?cfg"
    using keys unfolding runtimeConfig_def lookupBaseRuntime_spec
    by (intro gomap_ok_map_put) (auto simp: gomap_ok_def split: option.splits)
  have entry: "map_of ?cfg = clonedEntry tree rt" by (rule runtimeConfig_cloned)
  then have get: "(k, v) \<in> set ?cfg \<longleftrightarrow> clonedEntry tree rt k = Some v" for k v
    using ok by (metis gomap_ok_def map_of_eq_Some_iff)
  have "?sec \<in> set (collectMissing tree params)" using rt unfolding collectMissing_iff by blast
  then obtain pre post where snip: "buildSnippet TP (SocketPath params) (collectMissing tree params) =
      pre @ sectionSnippet TP (SocketPath params) ?sec @ post"
    using buildSnippet_section by blast
  have "content w' (ConfigPath params) =
      content w (ConfigPath params) @ buildSnippet TP (SocketPath params) (collectMissing tree params)"
    using Apply_run [OF files run] tree by auto
  then have written: "content w' (ConfigPath params) = content w (ConfigPath params) @ pre @ newline @
       tableText (criPrefix @ rt_Name rt) (marshalIndented TP (scalarsOf ?cfg)) @
       concat (map (\<lambda>(k, b). tableText (criPrefix @ rt_Name rt @ ''.'' @ k) b) ?subs) @ post"
    unfolding snip sectionSnippet.simps runtimeSnippet_tables by simp
  have scalars: "map_of (scalarsOf ?cfg) = ownSettings (clonedEntry tree rt)"
    using map_of_scalarsOf [OF ok] entry by simp
  then have body: "decodesTo TP (marshalIndented TP (scalarsOf ?cfg)) (ownSettings (clonedEntry tree rt))"
    using marshalIndented_decodes [OF toml, of "scalarsOf ?cfg"] enc(1) gomap_ok_scalarsOf [OF ok] by simp
  have keys_subs: "map fst ?subs = map fst (subtablesOf ?cfg)" by (simp add: o_def case_prod_unfold)
  have distinct: "distinct (map fst ?subs)" using subtablesOf_keys [OF ok] unfolding keys_subs gomap_ok_def .
  have "fst ` set ?subs = fst ` set (subtablesOf ?cfg)" unfolding set_map [symmetric] keys_subs ..
  then have "k \<in> fst ` set ?subs \<longleftrightarrow> (\<exists>t. (k, t) \<in> set (subtablesOf ?cfg))" for k by force
  then have names: "\<forall>k. k \<in> fst ` set ?subs \<longleftrightarrow> (\<exists>t. clonedEntry tree rt k = Some (Table t))"
    unfolding subtablesOf_iff get by blast
  have tables: "decodesTo TP b (map_of t)" if sub: "(k, b) \<in> set ?subs" and e: "clonedEntry tree rt k = Some (Table t)" for k b t
  proof -
    obtain t' where t': "(k, t') \<in> set (subtablesOf ?cfg)" "b = marshalIndented TP t'" using sub by auto
    then have "t' = t" using get e by (simp add: subtablesOf_iff)
    then show ?thesis using t'(2) marshalIndented_decodes [OF toml, of t] enc(2) e by simp
  qed
  show ?thesis
    by (intro exI [of _ pre] exI [of _ "marshalIndented TP (scalarsOf ?cfg)"] exI [of _ ?subs] exI [of _ post]
        conjI written body distinct names) (intro allI impI tables; assumption)
qed


subsection \<open>A reader of settings\<close>

text \<open>
  The laws can hold: a package that writes one line per string or boolean and reads such lines
  back; every document with a table header it takes for one whose runtime section has the runc
  entry \<open>runcTree\<close>. It serves the witness only.
\<close>

definition valueChar :: "char \<Rightarrow> bool" where
  "valueChar c = (bareChar c \<or> c = CHR ''.'')"

fun valueText :: "toml \<Rightarrow> string option" where
  "valueText (Str s) = (if list_all valueChar s then Some (dquote @ s @ dquote) else None)"
| "valueText (Boolean b) = Some (if b then ''true'' else ''false'')"
| "valueText _ = None"

definition readValue :: "string \<Rightarrow> toml" where
  "readValue s =
     (if s = ''true'' then Boolean True else if s = ''false'' then Boolean False else Str (butlast (tl s)))"

definition settingLine :: "string \<times> toml \<Rightarrow> string" where
  "settingLine kv = fst kv @ '' = '' @ the (valueText (snd kv))"

definition readSetting :: "string \<Rightarrow> string \<times> toml" where
  "readSetting line =
     (let k = takeWhile (\<lambda>c. c \<noteq> CHR '' '') line in (k, readValue (drop (length k + 3) line)))"

definition settingOK :: "string \<times> toml \<Rightarrow> bool" where
  "settingOK kv = (bareKey (fst kv) \<and> valueText (snd kv) \<noteq> None)"

text \<open>The lines of a document that are not blank, without the blanks in front.\<close>

definition canonical :: "string list \<Rightarrow> string list" where
  "canonical ls = filter (\<lambda>l. trim_space l \<noteq> []) (map (dropWhile (\<lambda>c. c = CHR '' '')) ls)"

definition runcTree :: table where
  "runcTree = [(''plugins'', Table [(''io.containerd.cri.v1.runtime'', Table [(''containerd'', Table [(''runtimes'',
     Table [(''runc'', Table [(''runtime_type'', Str ''io.containerd.runc.v2''), (''snapshotter'', Str ''overlayfs''),
       (''options'', Table [(''SystemdCgroup'', Boolean True)])])])])])])]"

definition lineTOML :: toml_pkg where
  "lineTOML =
     \<lparr>toml_Unmarshal = (\<lambda>x. let ls = canonical (split_all x (CHR 0x0A)) in
        if \<exists>l \<in> set ls. has_prefix l ''['' then Inr runcTree else Inr (map readSetting ls)),
      toml_Marshal = (\<lambda>t. if list_all settingOK t then Inr (concat (map (\<lambda>kv. settingLine kv @ newline) t))
        else Inl (Errorf ''unsupported value'' []))\<rparr>"

lemma trim_space_Nil: "trim_space s = [] \<longleftrightarrow> (\<forall>c \<in> set s. is_space c)"
  by (auto simp: trim_space_def dropWhile_eq_Nil_conv dest: set_dropWhileD)
     (metis dropWhile_eq_Nil_conv set_rev hd_dropWhile hd_in_set)

lemma is_space_blank: "is_space (CHR '' '')"
  by (simp add: is_space_def)

lemma trim_space_strip: "trim_space (dropWhile (\<lambda>c. c = CHR '' '') l) = [] \<longleftrightarrow> trim_space l = []"
  unfolding trim_space_Nil using is_space_blank by (induction l) auto

lemma canonical_relaid: "relaid ls ls' \<Longrightarrow> canonical ls' = canonical ls"
proof (induction rule: relaid.induct)
  case (indented p ls ls' l)
  have "dropWhile (\<lambda>c. c = CHR '' '') (p @ l) = dropWhile (\<lambda>c. c = CHR '' '') l"
    using indented(1) by (induction p) auto
  then show ?case using indented by (simp add: canonical_def)
qed (simp_all add: canonical_def trim_space_strip, simp_all add: trim_space_def)

lemma bareKey_chars: "bareKey k \<Longrightarrow> c \<in> set k \<Longrightarrow> c \<noteq> CHR '' '' \<and> c \<noteq> CHR 0x0A \<and> c \<noteq> CHR ''[''"
proof -
  assume "bareKey k" "c \<in> set k"
  moreover have "\<not> bareChar (CHR '' '')" "\<not> bareChar (CHR 0x0A)" "\<not> bareChar (CHR ''['')" by code_simp+
  ultimately show ?thesis by (auto simp: bareKey_def list_all_iff)
qed

lemma valueText_line: "valueText v = Some s \<Longrightarrow> CHR 0x0A \<notin> set s"
proof -
  have "\<not> valueChar (CHR 0x0A)" by code_simp
  then show "valueText v = Some s \<Longrightarrow> ?thesis" by (cases v) (auto simp: list_all_iff split: if_splits)
qed

lemma readValue_text: "valueText v = Some s \<Longrightarrow> readValue s = v"
  by (cases v) (auto simp: readValue_def split: if_splits)

lemma settingLine_read:
  assumes "settingOK kv"
  shows "readSetting (settingLine kv) = kv"
proof -
  obtain k v s where kv: "kv = (k, v)" and k: "bareKey k" and s: "valueText v = Some s"
    using assms by (cases kv) (auto simp: settingOK_def)
  have "takeWhile (\<lambda>c. c \<noteq> CHR '' '') (k @ '' = '' @ s) = k"
    using bareKey_chars [OF k] by (simp add: takeWhile_append2)
  then show ?thesis using readValue_text [OF s] by (simp add: readSetting_def settingLine_def kv s)
qed

lemma settingLine_head:
  assumes "settingOK kv"
  obtains c r where "settingLine kv = c # r" "c \<noteq> CHR '' ''" "c \<noteq> CHR ''[''" "\<not> is_space c"
    "CHR 0x0A \<notin> set (settingLine kv)"
proof -
  obtain k v s where kv: "kv = (k, v)" and k: "bareKey k" and s: "valueText v = Some s"
    using assms by (cases kv) (auto simp: settingOK_def)
  obtain c cs where cs: "k = c # cs" using k by (cases k) (auto simp: bareKey_def)
  have "\<forall>c. is_space c \<longrightarrow> \<not> bareChar c" unfolding is_space_def by code_simp
  then have "\<not> is_space c" using k cs by (auto simp: bareKey_def)
  moreover have "CHR 0x0A \<notin> set (settingLine kv)"
    using bareKey_chars [OF k] valueText_line [OF s] by (auto simp: settingLine_def kv s)
  ultimately show thesis
    using that [of c "cs @ '' = '' @ s"] bareKey_chars [OF k, of c] by (simp add: settingLine_def kv s cs)
qed

lemma canonical_lines:
  assumes "list_all settingOK t"
  shows "canonical (split_all (concat (map (\<lambda>kv. settingLine kv @ newline) t)) (CHR 0x0A)) = map settingLine t"
  using assms
proof (induction t)
  case Nil
  show ?case by (simp add: canonical_def trim_space_def)
next
  case (Cons kv t)
  then have "settingOK kv" by simp
  then obtain c r where line: "settingLine kv = c # r" "c \<noteq> CHR '' ''" "\<not> is_space c" "CHR 0x0A \<notin> set (settingLine kv)"
    by (rule settingLine_head) simp
  have "trim_space (settingLine kv) \<noteq> []" unfolding trim_space_Nil line(1) using line(3) by simp
  moreover have "dropWhile (\<lambda>c. c = CHR '' '') (settingLine kv) = settingLine kv" unfolding line(1) using line(2) by simp
  ultimately show ?case
    using Cons split_all_append [OF line(4)] by (simp add: canonical_def)
qed

lemma lineTOML_laws: "toml_text_laws lineTOML"
proof -
  have "toml_Unmarshal lineTOML b = Inr t" if "toml_Marshal lineTOML t = Inr b" for t b
  proof -
    have ok: "list_all settingOK t" and b: "b = concat (map (\<lambda>kv. settingLine kv @ newline) t)"
      using that by (auto simp: lineTOML_def split: if_splits)
    have "\<not> has_prefix (settingLine kv) ''[''" if "kv \<in> set t" for kv
      using ok that settingLine_head [of kv] by (metis has_prefix_iff append_Cons list.inject list_all_iff)
    moreover have "map readSetting (map settingLine t) = t"
      using ok settingLine_read by (induction t) auto
    ultimately show ?thesis unfolding b lineTOML_def by (simp add: canonical_lines [OF ok] Let_def)
  qed
  moreover have "toml_Unmarshal lineTOML y = toml_Unmarshal lineTOML x"
    if "relaid (split_all x (CHR 0x0A)) (split_all y (CHR 0x0A))" for x y
    using canonical_relaid [OF that] by (simp add: lineTOML_def)
  ultimately show ?thesis unfolding toml_text_laws_def by metis
qed

definition runcFiles :: files where
  "runcFiles = (\<lambda>p. ''[plugins]'' @ newline)"

abbreviation runcEntry :: RuntimeEntry where
  "runcEntry \<equiv> \<lparr>rt_Name = ''runc-pv'', rt_BaseRuntimeName = ''runc''\<rparr>"

lemma runcEntry_cloned:
  "clonedEntry runcTree runcEntry = map_of [(''runtime_type'', Str ''io.containerd.runc.v2''),
     (''snapshotter'', Str ''pv-snapshotter''), (''options'', Table [(''SystemdCgroup'', Boolean True)])]"
  by (simp add: clonedEntry_def baseTable_def runtimePath_def subtable_def runcTree_def fun_eq_iff)

lemma two_settings:
  assumes "gomap_ok t" and "map_of t = map_of [(a, x), (b, y)]" and "a \<noteq> b"
  shows "t = [(a, x), (b, y)] \<or> t = [(b, y), (a, x)]"
proof -
  have "kv \<in> set t \<longleftrightarrow> kv \<in> {(a, x), (b, y)}" for kv
    using map_of_eq_Some_iff [of t "fst kv" "snd kv"] assms by (cases kv) (auto simp: gomap_ok_def split: if_splits)
  then have set_t: "set t = {(a, x), (b, y)}" by blast
  moreover have "distinct t" using assms(1) by (simp add: gomap_ok_def distinct_map)
  ultimately have "length t = 2" using distinct_card [of t] assms(3) by simp
  then obtain p q where "t = [p, q]" by (auto simp: length_Suc_conv numeral_2_eq_2)
  then show ?thesis using set_t assms(3) by (auto simp: doubleton_eq_iff)
qed

lemma encodableI: "plainTable t \<Longrightarrow> toml_Marshal TP t = Inr b \<Longrightarrow> \<not> multiline b \<Longrightarrow> encodable TP t"
  unfolding encodable_def by blast

theorem runtime_entry_clones_base_witness:
  "\<exists>w' body b. run_state (Apply lineTOML plainFiles exampleParams) runcFiles = (Inr True, w') \<and>
     contains (w' ''/etc/containerd/config.toml'') (tableText (criPrefix @ ''runc-pv'') body) \<and>
     decodesTo lineTOML body (map_of [(''runtime_type'', Str ''io.containerd.runc.v2''), (''snapshotter'', Str ''pv-snapshotter'')]) \<and>
     decodesTo lineTOML b [''SystemdCgroup'' \<mapsto> Boolean True]"
proof -
  let ?A = "Apply lineTOML plainFiles exampleParams"
  let ?w' = "snd (run_state ?A runcFiles)"
  have "fst (run_state ?A runcFiles) = Inr True" by code_simp
  note run = fst_run [OF this]
  have path: "ConfigPath exampleParams = ''/etc/containerd/config.toml''" by (simp add: exampleParams_def)
  have tree: "toml_Unmarshal lineTOML (runcFiles (ConfigPath exampleParams)) = Inr runcTree" by code_simp
  have rt: "runcEntry \<in> set (Runtimes exampleParams)" by (simp add: exampleParams_def)
  have missing: "\<not> hasRuntimeEntry runcTree (rt_Name runcEntry)" by code_simp
  have "baseTable runcTree ''runc'' = Some [(''runtime_type'', Str ''io.containerd.runc.v2''), (''snapshotter'', Str ''overlayfs''),
       (''options'', Table [(''SystemdCgroup'', Boolean True)])]" by code_simp
  then have keys: "\<forall>t. baseTable runcTree (rt_BaseRuntimeName runcEntry) = Some t \<longrightarrow> gomap_ok t"
    by (auto simp: gomap_ok_def)
  have own: "ownSettings (clonedEntry runcTree runcEntry) =
      map_of [(''runtime_type'', Str ''io.containerd.runc.v2''), (''snapshotter'', Str ''pv-snapshotter'')]"
    by (simp add: runcEntry_cloned ownSettings_def fun_eq_iff)
  let ?a = "(''runtime_type'', Str ''io.containerd.runc.v2'')" and ?b = "(''snapshotter'', Str ''pv-snapshotter'')"
  have "encodable lineTOML [?a, ?b]" "encodable lineTOML [?b, ?a]"
    by (rule encodableI, code_simp, code_simp, code_simp)+
  then have enc: "\<forall>t. gomap_ok t \<and> map_of t = ownSettings (clonedEntry runcTree runcEntry) \<longrightarrow> encodable lineTOML t"
    unfolding own using two_settings by fastforce
  have "encodable lineTOML [(''SystemdCgroup'', Boolean True)]"
    by (rule encodableI, code_simp, code_simp, code_simp)
  then have sub: "\<forall>k t. clonedEntry runcTree runcEntry k = Some (Table t) \<longrightarrow> encodable lineTOML t"
    by (auto simp: runcEntry_cloned split: if_splits)
  note eff = runtime_entry_clones_base [where content = "\<lambda>w. w", OF plainFiles_laws lineTOML_laws run tree rt missing keys enc sub]
  obtain pre body subs post where text1: "?w' (ConfigPath exampleParams) = runcFiles (ConfigPath exampleParams) @ pre @ newline @
       tableText (criPrefix @ rt_Name runcEntry) body @
       concat (map (\<lambda>(k, b). tableText (criPrefix @ rt_Name runcEntry @ ''.'' @ k) b) subs) @ post"
    and body: "decodesTo lineTOML body (ownSettings (clonedEntry runcTree runcEntry))"
    and names: "\<forall>k. k \<in> fst ` set subs \<longleftrightarrow> (\<exists>t. clonedEntry runcTree runcEntry k = Some (Table t))"
    and subs: "\<forall>k b t. (k, b) \<in> set subs \<longrightarrow> clonedEntry runcTree runcEntry k = Some (Table t) \<longrightarrow> decodesTo lineTOML b (map_of t)"
    using eff by (elim exE conjE) simp
  have entry: "clonedEntry runcTree runcEntry ''options'' = Some (Table [(''SystemdCgroup'', Boolean True)])"
    by (simp add: runcEntry_cloned)
  then have "''options'' \<in> fst ` set subs" using names by blast
  then obtain b where "(''options'', b) \<in> set subs" by force
  then have "decodesTo lineTOML b [''SystemdCgroup'' \<mapsto> Boolean True]" using subs entry by fastforce
  moreover have "contains (?w' (ConfigPath exampleParams)) (tableText (criPrefix @ ''runc-pv'') body)"
    unfolding text1 contains_iff by (metis RuntimeEntry.select_convs(1) append.assoc)
  ultimately show ?thesis using run body unfolding own path by (intro exI conjI)
qed

end
