(* ===== verification/Webhook_Timing.thy ===== *)
theory Webhook_Timing
  imports Webhook_Props
begin

text \<open>
  How long the webhook takes to answer an admission request, in terms of the latency of one
  call to the API server and of how late a timer may fire. Local computation is not counted.
\<close>


section \<open>Durations\<close>

named_theorems timing

text \<open>An operation that takes at most \<open>n\<close> on the clock \<open>clk\<close>, and never sets it back.\<close>

definition takes :: "('w \<Rightarrow> int) \<Rightarrow> int \<Rightarrow> ('w, 'a) state \<Rightarrow> bool" where
  "takes clk n m \<longleftrightarrow> (\<forall>w. clk w \<le> clk (snd (run_state m w)) \<and> clk (snd (run_state m w)) \<le> clk w + n)"

lemma takesD: "takes clk n m \<Longrightarrow> run_state m w = (a, w') \<Longrightarrow> clk w \<le> clk w' \<and> clk w' \<le> clk w + n"
  by (metis takes_def snd_conv)

lemma takes_nonneg: "takes clk n m \<Longrightarrow> 0 \<le> n"
  unfolding takes_def by (metis add_le_cancel_left add.right_neutral order_trans)

lemma takes_mono: "takes clk n m \<Longrightarrow> n \<le> n' \<Longrightarrow> takes clk n' m"
  unfolding takes_def by (meson add_left_mono order_trans)

lemma takes_return [timing]: "0 \<le> n \<Longrightarrow> takes clk n (State_Monad.return a)"
  by (simp add: takes_def go_run)

lemma takes_bind:
  assumes "takes clk n m" and "\<And>a. takes clk k (f a)"
  shows "takes clk (n + k) (State_Monad.bind m f)"
  unfolding takes_def
proof
  fix w
  obtain a w1 where m: "run_state m w = (a, w1)" by fastforce
  have "clk w1 \<le> clk (snd (run_state (f a) w1))" "clk (snd (run_state (f a) w1)) \<le> clk w1 + k"
    using assms(2) by (simp_all add: takes_def)
  then show "clk w \<le> clk (snd (run_state (State_Monad.bind m f) w)) \<and> clk (snd (run_state (State_Monad.bind m f) w)) \<le> clk w + (n + k)"
    using takesD [OF assms(1) m] by (simp add: go_run m)
qed

text \<open>The last action of an operation that only packs up a result takes no time.\<close>

lemma takes_then [timing]: "takes clk n m \<Longrightarrow> (\<And>a. takes clk 0 (f a)) \<Longrightarrow> takes clk n (State_Monad.bind m f)"
  using takes_bind [of clk n m 0 f] by simp

lemma takes_cases [timing]:
  "(b \<Longrightarrow> takes clk n m) \<Longrightarrow> (\<not> b \<Longrightarrow> takes clk n m') \<Longrightarrow> takes clk n (if b then m else m')"
  "(x = None \<Longrightarrow> takes clk n m) \<Longrightarrow> (\<And>a. x = Some a \<Longrightarrow> takes clk n (f a)) \<Longrightarrow>
   takes clk n (case x of None \<Rightarrow> m | Some a \<Rightarrow> f a)"
  "(\<And>a. y = Inl a \<Longrightarrow> takes clk n (g a)) \<Longrightarrow> (\<And>b. y = Inr b \<Longrightarrow> takes clk n (h b)) \<Longrightarrow>
   takes clk n (case y of Inl a \<Rightarrow> g a | Inr b \<Rightarrow> h b)"
  "(\<And>a b. z = (a, b) \<Longrightarrow> takes clk n (k a b)) \<Longrightarrow> takes clk n (case z of (a, b) \<Rightarrow> k a b)"
  "(l = [] \<Longrightarrow> takes clk n m) \<Longrightarrow> (\<And>a as. l = a # as \<Longrightarrow> takes clk n (j a as)) \<Longrightarrow>
   takes clk n (case l of [] \<Rightarrow> m | a # as \<Rightarrow> j a as)"
  by (auto split: option.splits sum.splits prod.splits list.splits)


section \<open>The API server\<close>

text \<open>Every call to the API server takes at most \<open>L\<close>. A timer never fires early, and at most \<open>J\<close> late; an
  early end of the wait is a cancellation.\<close>

definition latency_laws :: "'w kube \<Rightarrow> ('w \<Rightarrow> int) \<Rightarrow> int \<Rightarrow> int \<Rightarrow> bool" where
  "latency_laws K clk L J \<longleftrightarrow> 0 \<le> J \<and>
     (\<forall>g ns n. takes clk L (kb_GetOwner K g ns n)) \<and> (\<forall>ns n. takes clk L (kb_GetPVC K ns n)) \<and>
     (\<forall>ns sel. takes clk L (kb_ListPVCs K ns sel)) \<and> (\<forall>n. takes clk L (kb_GetPV K n)) \<and>
     (\<forall>w. run_state (kb_Now K) w = (clk w, w)) \<and>
     (\<forall>d w r w'. 0 \<le> d \<longrightarrow> run_state (kb_Wait K d) w = (r, w') \<longrightarrow>
        clk w \<le> clk w' \<and> clk w' \<le> clk w + d + J \<and> (r = None \<longrightarrow> clk w + d \<le> clk w'))"

lemma latencyD [timing]:
  assumes "latency_laws K clk L J"
  shows "takes clk L (kb_GetOwner K g ns n)" "takes clk L (kb_GetPVC K ns n)" "takes clk L (kb_ListPVCs K ns sel)"
    "takes clk L (kb_GetPV K n)"
  using assms by (simp_all add: latency_laws_def)

lemma latency_nonneg: "latency_laws K clk L J \<Longrightarrow> 0 \<le> L"
  using takes_nonneg latencyD(2) by blast

lemma latency_jitter: "latency_laws K clk L J \<Longrightarrow> 0 \<le> J"
  by (simp add: latency_laws_def)

lemma ownerLoop_takes:
  assumes laws: "latency_laws K clk L J"
  shows "takes clk (int n * L) (ownerLoop n depth K ns name refs)"
proof (induction n arbitrary: depth name refs)
  case 0
  show ?case by (simp add: takes_return)
next
  case (Suc n)
  have "0 \<le> L + int n * L" using latency_nonneg [OF laws] by simp
  then have "takes clk (L + int n * L) (ownerLoop (Suc n) depth K ns name refs)"
    unfolding ownerLoop.simps
    by (intro timing takes_bind [of clk L] latencyD [OF laws] Suc.IH) (simp_all add: takes_return latency_nonneg [OF laws])
  then show ?case by (simp add: algebra_simps)
qed

lemma resolveOwner_takes:
  assumes laws: "latency_laws (h_kube h) clk L J"
  shows "takes clk (int (nat (h_maxOwnerDepth h)) * L) (resolveOwner h pod ns)"
  unfolding resolveOwner_def using latency_nonneg [OF laws] by (intro timing ownerLoop_takes [OF laws]) simp

lemma resolvePVC_takes:
  assumes laws: "latency_laws (h_kube h) clk L J"
  shows "takes clk L (resolvePVC h ns pod data)"
  unfolding resolvePVC_def resolvePVCFromAnnotation_def resolvePVCBySelector_def
  by (intro timing latencyD [OF laws] latency_nonneg [OF laws] order_refl)

lemma boundVolume_takes:
  assumes laws: "latency_laws K clk L J"
  shows "takes clk L (boundVolume K p)"
  unfolding boundVolume_def Let_def by (intro timing latencyD [OF laws] latency_nonneg [OF laws] order_refl)



section \<open>The wait\<close>

abbreviation timedOut :: "pvc \<Rightarrow> gerr" where
  "timedOut p \<equiv> Errorf ''timed out waiting for PVC %q to be bound (current phase: %s)'' [pvc_Name p, pvc_Phase p]"

text \<open>One round of the wait that goes on: the pause ends by the deadline, up to the lateness of the timer,
  and the fetch adds its latency.\<close>

lemma waitLoop_window:
  assumes laws: "latency_laws K clk L J" and "run_state (waitLoop fuel K deadline ns p) w = (r, w')"
  shows "clk w \<le> clk w' \<and> clk w' \<le> max (clk w) (deadline + J + L) \<and> (r = Some (Inl (timedOut q)) \<longrightarrow> deadline \<le> clk w')"
  using assms(2)
proof (induction fuel arbitrary: p w)
  case 0
  then show ?case by (simp add: go_run)
next
  case (Suc fuel)
  let ?sleep = "if boundPollInterval > deadline - clk w then deadline - clk w else boundPollInterval"
  have now: "run_state (kb_Now K) w = (clk w, w)" using laws by (simp add: latency_laws_def)
  show ?case
  proof (cases "pvc_Phase p = ClaimBound \<or> deadline - clk w \<le> 0")
    case True
    then show ?thesis using Suc.prems now by (auto simp: go_run Let_def split: if_splits)
  next
    case False
    obtain e w1 where wait: "run_state (kb_Wait K ?sleep) w = (e, w1)" by fastforce
    obtain p2 e2 w2 where get: "run_state (kb_GetPVC K ns (pvc_Name p)) w1 = ((p2, e2), w2)" by (metis surj_pair)
    have "0 \<le> ?sleep" using False by (simp add: boundPollInterval_def)
    then have "clk w \<le> clk w1" "clk w1 \<le> clk w + ?sleep + J" using laws wait unfolding latency_laws_def by blast+
    then have w1: "clk w \<le> clk w1" "clk w1 \<le> deadline + J" by (auto split: if_splits)
    have w2: "clk w1 \<le> clk w2" "clk w2 \<le> clk w1 + L" using takesD [OF latencyD(2) [OF laws] get] by auto
    show ?thesis
    proof (cases "e = None \<and> e2 = None")
      case True
      then have "run_state (waitLoop fuel K deadline ns p2) w2 = (r, w')"
        using Suc.prems False now wait get by (simp add: go_run Let_def)
      from Suc.IH [OF this] show ?thesis using w1 w2 by auto
    next
      case failed: False
      then have "(w' = w1 \<or> w' = w2) \<and> (\<exists>fm a x. r = Some (Inl (Wrapf fm a x)))"
        using Suc.prems False now wait get by (auto simp: go_run Let_def split: option.splits)
      then show ?thesis using w1 w2 latency_nonneg [OF laws] latency_jitter [OF laws] by auto
    qed
  qed
qed

text \<open>The window of the wait. It is over when the timeout has passed, up to the lateness of one timer and
  two calls; and it reports a
  timeout only after the whole timeout has passed.\<close>

lemma waitBound_window:
  assumes laws: "latency_laws (h_kube h) clk L J" and run: "run_state (waitBound fuel h p ns) w = (r, w')"
  shows "clk w \<le> clk w' \<and> clk w' \<le> clk w + (max 0 (h_boundTimeout h) + J + 2 * L) \<and>
    (r = Some (Inl (timedOut q)) \<longrightarrow> clk w + h_boundTimeout h \<le> clk w')"
proof -
  have now: "run_state (kb_Now (h_kube h)) w = (clk w, w)" using laws by (simp add: latency_laws_def)
  obtain x w1 where loop: "run_state (waitLoop fuel (h_kube h) (clk w + h_boundTimeout h) ns p) w = (x, w1)" by fastforce
  note win = waitLoop_window [OF laws loop, of q] and run' = run [unfolded waitBound_def go_run now prod.case Let_def loop]
  show ?thesis
  proof (cases "\<exists>p'. x = Some (Inr p')")
    case True
    then obtain p' v where "run_state (boundVolume (h_kube h) p') w1 = (v, w')" "r = Some v"
      using run' by (auto simp: go_run split: prod.splits)
    then show ?thesis using win latency_jitter [OF laws] takesD [OF boundVolume_takes [OF laws], of p' w1 v w']
      by (auto simp: boundVolume_def go_run Let_def split: if_splits sum.splits prod.splits)
  next
    case False
    then have "w' = w1" "r = (case x of Some (Inl e) \<Rightarrow> Some (Inl e) | _ \<Rightarrow> None)"
      using run' by (auto simp: go_run split: option.splits sum.splits)
    then show ?thesis using win latency_nonneg [OF laws] latency_jitter [OF laws] False by (auto split: option.splits sum.splits)
  qed
qed


lemma waitBound_takes:
  "latency_laws (h_kube h) clk L J \<Longrightarrow> takes clk (max 0 (h_boundTimeout h) + J + 2 * L) (waitBound fuel h p ns)"
  unfolding takes_def using waitBound_window by (metis prod.collapse)

lemma mutate_takes:
  assumes laws: "latency_laws (h_kube h) clk L J"
  shows "takes clk (int (nat (h_maxOwnerDepth h)) * L + (L + (max 0 (h_boundTimeout h) + J + 2 * L))) (mutate fuel js h req)"
proof -
  have L: "0 \<le> L" "0 \<le> J" using latency_nonneg [OF laws] latency_jitter [OF laws] by simp_all
  show ?thesis
    unfolding mutate_def Let_def using L
    by (intro takes_cases takes_return takes_bind [OF resolveOwner_takes [OF laws]] takes_bind [OF resolvePVC_takes [OF laws]]
        takes_then [OF waitBound_takes [OF laws]]) simp_all
qed

text \<open>C18: the webhook answers in bounded time. When a call to the API server takes at most L
  and a timer fires at most J late, the answer to an admission request is given after at most the
  bound timeout, one J, and one L for every owner level, for the lookup of the claim, for the last
  fetch of the wait and for the volume: five calls on top of the timeout for the default depth of
  two. (Whatever the cluster answers and for any fuel.)\<close>

theorem mutate_deadline:
  assumes laws: "latency_laws (h_kube h) clk L J" and run: "run_state (mutate fuel js h req) w = (resp, w')"
  shows "clk w' \<le> clk w + max 0 (h_boundTimeout h) + J + (int (nat (h_maxOwnerDepth h)) + 3) * L"
proof -
  have "clk w' \<le> clk w + (int (nat (h_maxOwnerDepth h)) * L + (L + (max 0 (h_boundTimeout h) + J + 2 * L)))"
    using takesD [OF mutate_takes [OF laws] run] by blast
  then show ?thesis by (simp add: algebra_simps)
qed

text \<open>A cluster whose claims bind after five seconds and whose calls take no time.\<close>

lemma clusterKube_latency: "latency_laws clusterKube cu_now 0 0"
  by (simp add: latency_laws_def clusterKube_def takes_def)

theorem mutate_deadline_witness:
  "\<exists>resp w'. run_state (mutate 16 exampleJSON exampleHandler exampleRequest) exampleCluster = (Some resp, w') \<and>
     rs_Allowed resp \<and> cu_now w' = 6000000000 \<and> cu_now w' \<le> 30000000000"
proof -
  let ?r = "run_state (mutate 16 exampleJSON exampleHandler exampleRequest) exampleCluster"
  have "(case fst ?r of Some resp \<Rightarrow> rs_Allowed resp | None \<Rightarrow> False) \<and> cu_now (snd ?r) = 6000000000" by code_simp
  then obtain resp where run: "?r = (Some resp, snd ?r)" and ok: "rs_Allowed resp" "cu_now (snd ?r) = 6000000000"
    by (metis (no_types, lifting) option.case_eq_if option.collapse prod.collapse)
  have laws: "latency_laws (h_kube exampleHandler) cu_now 0 0" by (simp add: exampleHandler_simps clusterKube_latency)
  have "cu_now (snd ?r) \<le> 30000000000"
    using mutate_deadline [OF laws run] by (simp add: exampleHandler_simps exampleCluster_def)
  with run ok show ?thesis by blast
qed

text \<open>C34: a denial for a claim that is not bound comes late: the wait reports the timeout only when the
  whole bound timeout has passed since it started. A caller that gives up after the bound timeout or
  earlier never sees the reason.\<close>

theorem waitBound_timeout_late:
  assumes laws: "latency_laws (h_kube h) clk L J"
    and run: "run_state (waitBound fuel h p ns) w = (Some (Inl (timedOut q)), w')"
  shows "clk w + h_boundTimeout h \<le> clk w'"
  using waitBound_window [OF laws run, of q] by simp

theorem waitBound_timeout_late_witness:
  "\<exists>q w'. run_state (waitBound 16 exampleHandler \<lparr>pvc_Name = ''web'', pvc_Phase = ''Pending'', pvc_VolumeName = []\<rparr> ''prod'')
     (exampleCluster\<lparr>cu_bindAt := 90000000000\<rparr>) = (Some (Inl (timedOut q)), w') \<and> 30000000000 \<le> cu_now w'"
proof -
  let ?p = "\<lparr>pvc_Name = ''web'', pvc_Phase = ''Pending'', pvc_VolumeName = []\<rparr>"
  let ?r = "run_state (waitBound 16 exampleHandler ?p ''prod'') (exampleCluster\<lparr>cu_bindAt := 90000000000\<rparr>)"
  have "fst ?r = Some (Inl (timedOut ?p))" by code_simp
  note run = fst_run [OF this]
  have laws: "latency_laws (h_kube exampleHandler) cu_now 0 0" by (simp add: exampleHandler_simps clusterKube_latency)
  have "30000000000 \<le> cu_now (snd ?r)"
    using waitBound_timeout_late [OF laws run] by (simp add: exampleHandler_simps exampleCluster_def)
  with run show ?thesis by blast
qed

end
