(* ===== verification/Spec2Isabelle.thy ===== *)
theory Spec2Isabelle
  imports Mount_Props Concurrency Configuration Runtime_Entries Webhook_Timing
begin

text \<open>
  \<^bold>\<open>pv-snapshotter.\<close> A containerd proxy snapshotter that puts the writable layer of a container into
  a mounted volume, the admission webhook that prepares the pods for it, and the sidecar that
  registers it with containerd. The development follows the Go packages under src/.

  \<^bold>\<open>Parts and their interaction.\<close> The webhook (src/pkg/webhook) patches a pod at admission: it finds the
  controlling owner, the PVC, waits until that is bound, stamps rendered annotations, adds the
  volume and a mount, and extends the RuntimeClass name. On the node containerd calls the
  snapshotter service (src/pkg/containerd/snapshotter/service.go). Its Mounts asks the resolver
  (resolver.go) for the annotations of the pod, renders the path template a second time, checks
  that the path is a mountpoint and rewrites the overlay options (mount.go). Its Stat, Prepare
  and Remove drive the dedup manager (dedup.go), which shares image layers with overlayfs by
  reference snapshots and pins them by leases. Webhook and resolver agree on annotation keys by
  the prefix (src/pkg/annotation). The config sidecar (src/cmd/daemon/config.go,
  src/pkg/containerd/config) waits for the daemon, appends the missing sections to the
  configuration of containerd and restarts it.

  \<^bold>\<open>Theories.\<close>
  \<^item> Go_Prelude: strings.* functions, maps with an iteration order (\<open>gomap\<close>), errors as values
    (\<open>gerr\<close> with \<open>errors_Is\<close>), the state monad rules \<open>go_run\<close>, and the locale \<open>step_invariant\<close> that
    the lease machine, the interleavings and the mutex instantiate.
  \<^item> Sha256: crypto/sha256 on 32-bit words and its hexadecimal form, for the template function.
  \<^item> Go_Template: text/template as the record \<open>text_template\<close>, the locales \<open>template_engine\<close> and
    \<open>template_funcs\<close> that its clients rely on, and an executable fragment (text, fields, one-function
    pipelines) that satisfies both.
  \<^item> Host_API: containerd's snapshotter, lease and container services, and os/syscall, as records of
    state-passing operations over an arbitrary world \<open>'w\<close>; the rules \<open>frames\<close> for what an operation keeps.
  \<^item> Annotation (prefix.go), Mount_Options (mount.go), Resolver (resolver.go), Dedup (dedup.go),
    Service (service.go and overlay.go), Webhook (mutating.go), Config_Patcher (patcher.go,
    flags.go), Config_Sidecar (wait.go, nsenter.go, config.go): one definition per function,
    loop or block of the source, in the order of the source. Flags: the four RegisterFlags functions
    with types and defaults, and the getters of viper. Daemon (main.go): the routes and RunE.
  \<^item> Leases: the contract of the lease service and the sweep over a list of leases; Lease_Props: the
    locale \<open>lease_remover\<close> that unpinning, deleting and sweeping share, and the lease machine.
  \<^item> Reference_Host: a small concrete host that satisfies all contracts; the witnesses run on it.
  \<^item> Mount_Props, Resolver_Props, Lease_Props, Materialise_Props, Webhook_Props, Webhook_Timing,
    Config_Props, Runtime_Entries (the text of the appended runtime entries, read as TOML): the
    properties of the components. Service_Props: the service as a step relation over all its gRPC
    methods, HTTP endpoints and the scrape hook, which simulates the lease machine. Concurrency: the body of
    statWithLazyMaterialise in small steps, its interleavings and the mutex (locale
    \<open>materialisation\<close>). Daemon_Props: the handles of the daemon. Configuration: flags, defaults, and
    the runtime classes of webhook and sidecar. This theory: the way from admission to the volume.

  \<^bold>\<open>Correspondence.\<close> A method of the service is a state transformer over \<open>node\<close>: the world and the three
  Prometheus metrics. A function that returns a value and an error returns a sum or, where the
  code returns both, a pair; \<open>Panic\<close> is an index out of range. Nil maps, slices and pointers are
  \<open>None\<close> where the code distinguishes them. Library code (containerd, Kubernetes clients, go-toml,
  text/template, encoding/json, IsDNS1123Subdomain, viper, os, the application framework) is a
  parameter; what a theorem needs of it is a named hypothesis (\<open>fs_laws\<close>, \<open>client_laws\<close>, \<open>lease_laws\<close>,
  \<open>stat_laws\<close>, \<open>snap_laws\<close>, \<open>probe_laws\<close>, \<open>owner_reads\<close>, \<open>pvc_named\<close>, \<open>template_engine\<close>, \<open>clock_laws\<close>,
  \<open>latency_laws\<close>, \<open>file_laws\<close>, \<open>toml_laws\<close>, \<open>toml_text_laws\<close>, \<open>handle_laws\<close>, \<open>framework_laws\<close>), and the
  reference host or an example package satisfies it. Calls of such code may fail: container queries
  (\<open>query_error\<close>), API reads, file writes, lease and snapshot operations. Two laws assume more of Stat:
  \<open>stat_total\<close>, used by the exact orphan counts, and \<open>snap_laws\<close>, used for the reference snapshots, let it
  answer for every snapshot that exists; \<open>rollback_ok\<close> lets the removal of a temporary snapshot succeed.

  \<^bold>\<open>What is shown.\<close>
  \<^item> Mounts: the rewriting changes exactly the two options; an answer without error is the native one or
    one over a ready mountpoint; an unmounted path is an error; a resolver failure is not.
  \<^item> Resolver: the queries refine a lookup of the sandbox record, with the origin of every error; the
    data of the template; the keys.
  \<^item> Dedup: materialisation is all or nothing and safe in every interleaving, without deadlock; the
    leases: the sweep deletes only leases whose owner's Stat failed, and all orphans, pin and unpin round trip, and in every state the whole
    service reaches the gauge is bounded by the leases.
  \<^item> Webhook: the patch applies and gives the intended pod, every request is answered, in bounded time,
    a pod is allowed only after its own PVC was polled until bound, the owner chain, the override annotation, the digest.
  \<^item> Sidecar: append only, idempotent, the written entry decodes to the settings of the base runtime, it
    restarts exactly after a change and waits until the readiness endpoint answers 200.
  \<^item> Daemon: every handle is released on every path; what is read is what is registered; the defaults
    of the two commands fit; the runtime class of an admitted pod is one that containerd has.
  \<^item> Across components, below: the two renderings of a template commute, and the writable layer of an
    admitted pod is in its volume unless a containerd query failed, when it stays on the node.
  \<^item> Deviations from documented behaviour are theorems too: the panic of Mounts, the race of the
    probe views, the class of the errors of Stat, wrapped keys, root layers, a custom prefix with
    the default templates, duplicate runtime classes, the status of a missing lease, the late denial.

  \<^bold>\<open>Fuel.\<close> Two loops may run forever and take fuel. The bound wait of the webhook ends within \<open>n + 1\<close>
  iterations when the timeout is at most \<open>n\<close> poll intervals: \<open>n = 15\<close> for the defaults. The
  readiness wait ends within \<open>n\<close> iterations when no \<open>n\<close> rounds of it can fail in a row.
  A goroutine of the interleaving model has returned after at most fourteen steps; the refinement
  theorem runs it for sixteen.

  \<^bold>\<open>Not modelled.\<close> Log output (with extensionKeys of resolver.go, which only serves it), usage texts, the
  cobra command tree and its dispatch to the two RunE functions, gin's matching of paths and the
  transport of gRPC, tests, the Helm chart, the image and the prose. Goroutines are modelled for
  statWithLazyMaterialise only; the other operations are sequential.
\<close>


section \<open>The two renderings of a template\<close>

text \<open>What the webhook leaves of a plain template: every field is replaced by its value, apart from the
  two that pass through.\<close>

definition passThrough :: "string \<Rightarrow> bool" where
  "passThrough f = (f = ''PodUID'' \<or> f = ''PodNamespace'')"

fun admitNode :: "templateData \<Rightarrow> tnode \<Rightarrow> tnode" where
  "admitNode d (TField f) =
     (if passThrough f then TField f
      else case data_field d f of Inr v \<Rightarrow> TText v | Inl _ \<Rightarrow> TField f)"
| "admitNode d n = n"

text \<open>The data of an admission: no value other than the two pass-through fields holds a brace.\<close>

definition admissionData :: "templateData \<Rightarrow> bool" where
  "admissionData d \<longleftrightarrow>
     PodUID d = ''{{.PodUID}}'' \<and> PodNamespace d = ''{{.PodNamespace}}'' \<and>
     (\<forall>v \<in> {OwnerName d, PodName d, PVName d, VolumeHandle d, PodIndex d}. CHR ''{'' \<notin> set v)"

lemma admissionData_field:
  assumes "admissionData d" and "data_field d f = Inr v"
  shows "if passThrough f then v = print_node (TField f) else CHR ''{'' \<notin> set v"
  using assms by (auto simp: admissionData_def data_field_def passThrough_def split: if_splits)

lemma exec_admitted:
  assumes d: "admissionData d" and plain: "list_all plain_node ns"
    and exec: "exec_nodes (data_field d) call ns = Inr s"
  shows "s = print_nodes (map (admitNode d) ns) \<and> list_all plain_node (map (admitNode d) ns) \<and>
    (\<exists>x. exec_nodes (map_field vars) call (map (admitNode d) ns) = Inr x \<and>
         exec_nodes (\<lambda>f. if passThrough f then map_field vars f else data_field d f) call ns = Inr x)"
  using plain exec
proof (induction ns arbitrary: s)
  case Nil
  then show ?case by simp
next
  case (Cons n ns)
  show ?case
  proof (cases n)
    case (TText a)
    then show ?thesis using Cons by (auto split: sum.splits)
  next
    case (TField f)
    then obtain v y where v: "data_field d f = Inr v" and y: "exec_nodes (data_field d) call ns = Inr y" "s = v @ y"
      using Cons.prems by (auto split: sum.splits)
    obtain u where "map_field vars f = Inr u" by (simp add: map_field_def)
    then show ?thesis using Cons.IH [OF _ y(1)] Cons.prems y(2) v TField admissionData_field [OF d v]
      by (cases "passThrough f") (auto split: sum.splits)
  qed (use Cons.prems in simp)
qed

lemma render_twice:
  assumes T1: "template_engine (tt_render T1) data_field" and T2: "template_engine (tt_render T2) map_field"
    and d: "admissionData d" and plain: "list_all plain_node ns"
    and exec: "exec_nodes (data_field d) call ns = Inr s"
  shows "tt_render T1 (print_nodes ns) d = Inr s"
    and "tt_render T2 s vars =
      exec_nodes (\<lambda>f. if passThrough f then map_field vars f else data_field d f) call ns"
proof -
  obtain x where s: "s = print_nodes (map (admitNode d) ns)" "list_all plain_node (map (admitNode d) ns)"
    and x: "exec_nodes (map_field vars) call (map (admitNode d) ns) = Inr x"
      "exec_nodes (\<lambda>f. if passThrough f then map_field vars f else data_field d f) call ns = Inr x"
    using exec_admitted [OF d plain exec] by blast
  show "tt_render T1 (print_nodes ns) d = Inr s" by (rule template_engine.render_plain [OF T1 plain exec])
  show "tt_render T2 s vars =
      exec_nodes (\<lambda>f. if passThrough f then map_field vars f else data_field d f) call ns"
    using template_engine.render_plain [OF T2 s(2) x(1)] by (simp add: s(1) x(2))
qed

text \<open>C19: the two renderings commute. A template of text and fields that the webhook renders at admission
  and the resolver renders again on the node gives what one rendering would give that took the
  UID and namespace of the pod from the node and all other fields from the admission.\<close>

theorem two_layer_rendering:
  assumes T1: "template_engine (tt_render T1) data_field" and T2: "template_engine (tt_render T2) map_field"
    and d: "d = (initialData ownerName req pod)\<lparr>PVName := pvName, VolumeHandle := vh\<rparr>"
    and braces: "\<forall>v \<in> {ownerName, rq_Name req, pvName, vh, map_get (pod_Labels pod) podIndexLabel}. CHR ''{'' \<notin> set v"
    and plain: "list_all plain_node ns" and exec: "exec_nodes (data_field d) call ns = Inr s"
  shows "(\<exists>t. tt_Parse T1 (print_nodes ns) = Inr t \<and> renderTemplate T1 (Some t) d = Inr s) \<and>
    (\<exists>x. renderUpperdirTemplate T2 r s cfg key = (x, None) \<and>
       exec_nodes (\<lambda>f. if passThrough f then map_field (templateVars r cfg) f else data_field d f) call ns = Inr x)"
proof -
  have data: "admissionData d" using braces by (simp add: d admissionData_def initialData_def)
  note twice = render_twice [OF T1 T2 data plain exec]
  obtain x where x: "exec_nodes (\<lambda>f. if passThrough f then map_field (templateVars r cfg) f else data_field d f) call ns = Inr x"
    using exec_admitted [OF data plain exec] by blast
  have "tt_render T2 s (templateVars r cfg) = Inr x" using twice(2) x by simp
  then show ?thesis using twice(1) x
    by (auto simp: tt_render_def renderTemplate_def renderUpperdirTemplate_def split: sum.splits)
qed

text \<open>The package of the resolver, restricted to the fragment.\<close>

abbreviation nodeTemplates :: "(tnode list, (string, string) gomap) text_template" where
  "nodeTemplates \<equiv> fragment [] (\<lambda>g v. v) map_field"

lemma engines: "template_engine (tt_render webhookTemplates) data_field"
  "template_engine (tt_render nodeTemplates) map_field"
  unfolding webhookTemplates_def by (rule fragment_engine.template_engine_axioms)+

theorem two_layer_rendering_witness:
  "renderUpperdirTemplate nodeTemplates hostResolver ''/pods/{{.PodUID}}/pv-1'' (podConfig []) ''k'' =
     (''/pods/u1/pv-1'', None)"
proof -
  let ?req = "\<lparr>rq_UID = ''req-1'', rq_Name = ''web-0'', rq_Namespace = ''prod'', rq_Object = ''pod''\<rparr>"
  let ?d = "(initialData ''web'' ?req examplePod)\<lparr>PVName := ''pv-1'', VolumeHandle := ''vol-1''\<rparr>"
  let ?ns = "[TText ''/pods/'', TField ''PodUID'', TText ''/'', TField ''PVName'']"
  have braces: "\<forall>v \<in> {''web'', rq_Name ?req, ''pv-1'', ''vol-1'', map_get (pod_Labels examplePod) podIndexLabel}. CHR ''{'' \<notin> set v"
    by code_simp
  have plain: "list_all plain_node ?ns" by code_simp
  have exec: "exec_nodes (data_field ?d) (\<lambda>g v. v) ?ns = Inr ''/pods/{{.PodUID}}/pv-1''" by code_simp
  have merged: "exec_nodes (\<lambda>f. if passThrough f then map_field (templateVars hostResolver (podConfig [])) f else data_field ?d f)
      (\<lambda>g v. v) ?ns = Inr ''/pods/u1/pv-1''" by code_simp
  from two_layer_rendering [OF engines refl braces plain exec, of hostResolver "podConfig []" "''k''"]
  show ?thesis unfolding merged by auto
qed


section \<open>From admission to the volume\<close>

text \<open>The pod that results from an admission with the default annotation templates, for the volume
  \<open>pvName\<close>.\<close>

definition admitted ::
  "('t, templateData) text_template \<Rightarrow> 'w webhook_setup \<Rightarrow> pod \<Rightarrow> string \<Rightarrow> string \<Rightarrow> templateData \<Rightarrow> pod \<Rightarrow> bool" where
  "admitted T W pod pvcName pvName d pod' \<longleftrightarrow>
     (\<exists>h ops. New T W = Inr h \<and> ws_GetStringMapString W flagAnnotationTemplates = defaultAnnotationTemplates \<and>
        PVName d = pvName \<and> buildPatch h pod pvcName d = Inr ops \<and> applyPatch ops pod = Some pod')"

definition ownAnnotations :: "pod \<Rightarrow> (string, string) gomap" where
  "ownAnnotations pod = (case pod_Annotations pod of None \<Rightarrow> [] | Some m \<Rightarrow> m)"

abbreviation defaultPathTemplate :: string where
  "defaultPathTemplate \<equiv> ''/var/lib/kubelet/pods/{{.PodUID}}/volumes/kubernetes.io~csi/{{.PVName}}/mount''"

text \<open>The annotations of an admitted pod: its own, with the two rendered ones stamped over them.\<close>

lemma admitted_annotations:
  assumes "admitted T W pod pvcName pvName d pod'"
  shows "\<exists>a b. ownAnnotations pod' =
      map_put (map_put (ownAnnotations pod) ''pv-snapshotter.humble-mun.io/upperdir-path-template'' a)
        ''pv-snapshotter.humble-mun.io/var.PVName'' b \<and>
      (\<forall>x. tt_render T defaultPathTemplate d = Inr x \<longrightarrow> a = x)"
proof -
  obtain h ops where h: "New T W = Inr h" "ws_GetStringMapString W flagAnnotationTemplates = defaultAnnotationTemplates"
    and ops: "buildPatch h pod pvcName d = Inr ops" "applyPatch ops pod = Some pod'"
    using assms unfolding admitted_def by blast
  obtain t u where t: "tt_Parse T defaultPathTemplate = Inr t" and
    tmpls: "h_template h = T" "h_annotationTmpls h =
      [(''pv-snapshotter.humble-mun.io/upperdir-path-template'', t), (''pv-snapshotter.humble-mun.io/var.PVName'', u)]"
    using h by (auto simp: New_def defaultAnnotationTemplates_def split: option.splits sum.splits)
  have "pod' = patchedPod h pod pvcName d" using buildPatch_applies [OF ops(1)] ops(2) by simp
  then show ?thesis
    using t by (auto simp: ownAnnotations_def patchedPod_def tmpls renderAll_def tt_render_def split: sum.splits)
qed

text \<open>Where the kubelet mounts a CSI volume of a pod.\<close>

definition csiMountPath :: "string \<Rightarrow> string \<Rightarrow> string" where
  "csiMountPath uid pvName =
     ''/var/lib/kubelet/pods/'' @ uid @ ''/volumes/kubernetes.io~csi/'' @ pvName @ ''/mount''"

lemma resolver_keys:
  assumes "newResolver isDNS getString cl = Inr r"
  shows "keyLiteral r = getString flagPrefix @ ''/upperdir-path''"
    and "keyTemplate r = getString flagPrefix @ ''/upperdir-path-template''"
    and "keyVarPrefix r = getString flagPrefix @ ''/var.''" and "res_client r = cl"
  using assms by (auto simp: newResolver_def ResolvePrefix_def Key_def resolver_consts Let_def
      split: sum.splits option.splits)

lemma default_path:
  assumes T1: "template_engine (tt_render T1) data_field" and T2: "template_engine (tt_render T2) map_field"
    and adm: "admitted T1 W pod pvcName pvName d pod'" and d: "admissionData d"
    and r: "newResolver isDNS getString cl = Inr r" "getString flagPrefix = defaultPrefix"
    and own: "gomap_ok (ownAnnotations pod)"
      "map_of (ownAnnotations pod) (Key defaultPrefix ''upperdir-path'') = None"
      "map_of (ownAnnotations pod) (Key defaultPrefix ''var.PodUID'') = None"
    and cfg: "psc_Annotations cfg = ownAnnotations pod'" "psc_Metadata cfg = Some md"
  shows "upperdirFromConfig T2 r cfg key = (csiMountPath (om_UID md) pvName, None)"
proof -
  let ?ns = "[TText ''/var/lib/kubelet/pods/'', TField ''PodUID'', TText ''/volumes/kubernetes.io~csi/'',
      TField ''PVName'', TText ''/mount'']"
  let ?s = "''/var/lib/kubelet/pods/{{.PodUID}}/volumes/kubernetes.io~csi/'' @ pvName @ ''/mount''"
  have pv: "PVName d = pvName" using adm unfolding admitted_def by blast
  have plain: "list_all plain_node ?ns" by code_simp
  have exec: "exec_nodes (data_field d) (\<lambda>g v. v) ?ns = Inr ?s"
    using d by (simp add: data_field_def admissionData_def pv)
  have first: "tt_render T1 defaultPathTemplate d = Inr ?s"
    using render_twice(1) [OF T1 T2 d plain exec] by simp
  obtain b where ann: "psc_Annotations cfg =
      map_put (map_put (ownAnnotations pod) ''pv-snapshotter.humble-mun.io/upperdir-path-template'' ?s)
        ''pv-snapshotter.humble-mun.io/var.PVName'' b"
    using admitted_annotations [OF adm] first cfg(1) by auto
  have "gomap_ok (psc_Annotations cfg)" unfolding ann by (intro gomap_ok_map_put own(1))
  then have "map_of (templateVars r cfg) ''PodUID'' = Some (om_UID md)"
    using templateVars_lookup [of cfg r "''PodUID''"] own(3) resolver_keys(3) [OF r(1)]
    by (simp add: ann r(2) cfg(2) builtinVars_def Key_def defaultPrefix_def)
  then have second: "tt_render T2 ?s (templateVars r cfg) = Inr (csiMountPath (om_UID md) pvName)"
    using render_twice(2) [OF T1 T2 d plain exec, of "templateVars r cfg"]
    by (simp add: passThrough_def map_field_def data_field_def pv csiMountPath_def)
  show ?thesis
    using second own(2) resolver_keys(1,2) [OF r(1)]
    by (auto simp: upperdirFromConfig_def renderUpperdirTemplate_def tt_render_def ann r(2) map_get_def
        Key_def defaultPrefix_def Let_def split: sum.splits)
qed

text \<open>The default templates lead to the volume. For a pod admitted with the default annotation
  templates and the default prefix, which carries no literal path and no var.PodUID of its own,
  the resolver on the node computes the directory where the kubelet mounts that volume for that
  pod: the UID is the one the node knows, the volume the one the webhook saw bound.\<close>

theorem default_templates_path:
  assumes "template_engine (tt_render T1) data_field" and "template_engine (tt_render T2) map_field"
    and "admitted T1 W pod pvcName pvName d pod'" and "admissionData d"
    and "newResolver isDNS getString cl = Inr r" and "getString flagPrefix = defaultPrefix"
    and "gomap_ok (ownAnnotations pod)"
    and "map_of (ownAnnotations pod) (Key defaultPrefix ''upperdir-path'') = None"
    and "map_of (ownAnnotations pod) (Key defaultPrefix ''var.PodUID'') = None"
    and "psc_Annotations cfg = ownAnnotations pod'" and "psc_Metadata cfg = Some md"
  shows "upperdirFromConfig T2 r cfg key = (csiMountPath (om_UID md) pvName, None)"
  using assms by (rule default_path)

text \<open>The admission of the example pod, and the resolver of its node.\<close>

definition admittedPod :: pod where
  "admittedPod = patchedPod exampleHandler examplePod ''web'' exampleData"

lemma example_admitted: "admitted webhookTemplates exampleSetup examplePod ''web'' ''pv-1'' exampleData admittedPod"
proof -
  have "\<not> isl (New webhookTemplates exampleSetup)" "\<not> isl (buildPatch exampleHandler examplePod ''web'' exampleData)"
    by code_simp+
  then obtain ops where "New webhookTemplates exampleSetup = Inr exampleHandler"
    "buildPatch exampleHandler examplePod ''web'' exampleData = Inr ops"
    unfolding exampleHandler_def by (metis sum.collapse(2))
  then show ?thesis using buildPatch_applies
    by (fastforce simp: admitted_def admittedPod_def exampleSetup_def exampleData_def)
qed

lemma example_own: "gomap_ok (ownAnnotations examplePod)"
  "map_of (ownAnnotations examplePod) (Key defaultPrefix ''upperdir-path'') = None"
  "map_of (ownAnnotations examplePod) (Key defaultPrefix ''var.PodUID'') = None"
  by code_simp+

lemma example_data: "admissionData exampleData"
  by (simp add: admissionData_def exampleData_def)

lemma example_resolver: "newResolver (\<lambda>p. []) (\<lambda>f. defaultPrefix) hostClient = Inr hostResolver"
  by (simp add: newResolver_def ResolvePrefix_def validatePrefix_def has_suffix_def hostResolver_def defaultPrefix_def
      reservedPrefixK8s_def reservedPrefixKubernetes_def Let_def)

theorem default_templates_path_witness:
  "upperdirFromConfig nodeTemplates hostResolver (podConfig (ownAnnotations admittedPod)) ''k8s.io/2/c1'' =
     (''/var/lib/kubelet/pods/u1/volumes/kubernetes.io~csi/pv-1/mount'', None)"
  using default_templates_path [OF engines example_admitted example_data example_resolver refl example_own,
      of "podConfig (ownAnnotations admittedPod)" "\<lparr>om_Name = ''web-0'', om_UID = ''u1'', om_Namespace = ''prod''\<rparr>"
        "''k8s.io/2/c1''"]
  by (simp add: podConfig_def csiMountPath_def)

text \<open>C2: end to end. The pod of the container was admitted with the default templates and its volume is
  mounted by the kubelet: when Mounts answers without error for the active snapshot of that
  container, the native mounts have their upperdir and workdir in that volume, the directory is
  a mountpoint, and both subdirectories exist. The one exception is a containerd query about the
  container or its sandbox that failed: then, and only then, the native mounts are returned
  unchanged and the writable layer stays on the node. No other directory is ever used.\<close>

theorem admitted_pod_writes_to_volume:
  assumes T1: "template_engine (tt_render T1) data_field" and T2: "template_engine (tt_render (pk_template P)) map_field"
    and adm: "admitted T1 W pod pvcName pvName d pod'" and d: "admissionData d"
    and r: "newResolver isDNS getString cl = Inr (ss_resolver sn)" "getString flagPrefix = defaultPrefix"
    and own: "gomap_ok (ownAnnotations pod)"
      "map_of (ownAnnotations pod) (Key defaultPrefix ''upperdir-path'') = None"
      "map_of (ownAnnotations pod) (Key defaultPrefix ''var.PodUID'') = None"
    and client: "client_laws cl view" and fs: "fs_laws (pk_os P) dev isdir"
    and key: "parseSnapshotKey key = Some (ns, cid)"
    and native: "run_state (sn_Mounts (ss_Snapshotter sn) c key) (world s) = (Inr native, w1)"
    and pcfg: "podConfigOf (pk_unmarshal P) (view w1 ns) cid = Some cfg"
      "psc_Annotations cfg = ownAnnotations pod'" "psc_Metadata cfg = Some md"
    and run: "run_state (svc_Mounts P sn c key) s = (Returns (mounts, None), s')"
  shows "(mounts = replaceUpperdirOptions native (csiMountPath (om_UID md) pvName) \<and>
      dev (world s') (csiMountPath (om_UID md) pvName) \<noteq> dev (world s') (parentPath (csiMountPath (om_UID md) pvName)) \<and>
      isdir (world s') (csiMountPath (om_UID md) pvName @ ''/upper'') \<and>
      isdir (world s') (csiMountPath (om_UID md) pvName @ ''/work'')) \<or>
    (mounts = native \<and> world s' = w1 \<and>
      (\<exists>i q. asked (view w1 ns) cid i \<and> query_error cl ns w1 i q))"
proof -
  let ?path = "csiMountPath (om_UID md) pvName"
  have cfg: "upperdirFromConfig (pk_template P) (ss_resolver sn) cfg key = (?path, None)"
    by (rule default_path [OF T1 T2 adm d r own pcfg(2,3)])
  have cl: "res_client (ss_resolver sn) = cl" by (rule resolver_keys(4) [OF r(1)])
  then have laws: "client_laws (res_client (ss_resolver sn)) view" using client by simp
  obtain path e w2 where path: "run_state (resolvePath P sn key) w1 = ((path, e), w2)" by (metis surj_pair)
  from resolveAtMountsTime_spec [OF laws key path] have w2: "w2 = w1"
    and ans: "lookup_answer (pk_template P) (pk_unmarshal P) (ss_resolver sn) view key ns cid w1 (path, e)" by auto
  show ?thesis
  proof (cases e)
    case None
    then have p: "path = ?path" using ans by (simp add: lookup_answer_def pcfg(1) cfg)
    have ne: "?path \<noteq> []" by (simp add: csiMountPath_def)
    from svc_Mounts_ok [OF fs run] native path have
      "mounts = replaceUpperdirOptions native ?path" "dev (world s') ?path \<noteq> dev (world s') (parentPath ?path)"
      "isdir (world s') (?path @ ''/upper'')" "isdir (world s') (?path @ ''/work'')"
      using ne p by auto
    then show ?thesis by blast
  next
    case (Some err)
    then have p: "path = []" and "\<exists>i q. asked (view w1 ns) cid i \<and> query_error cl ns w1 i q"
      using ans pcfg(1) cfg cl
      by (auto simp: lookup_answer_def lookup_error_def podConfigOf_def split: option.splits)
    moreover have "mounts = native \<and> world s' = w1" using run native path p w2 by (auto simp: svc_Mounts_run)
    ultimately show ?thesis by blast
  qed
qed

definition kubeletHost :: host where
  "kubeletHost = podHost\<lparr>ho_dirs :=
     [(''/'', 1), (''/var/lib/kubelet/pods/u1/volumes/kubernetes.io~csi/pv-1'', 1),
      (''/var/lib/kubelet/pods/u1/volumes/kubernetes.io~csi/pv-1/mount'', 7)]\<rparr>"

theorem admitted_pod_writes_to_volume_witness:
  "\<exists>mounts s'. run_state (svc_Mounts (hostPackages (ownAnnotations admittedPod)) (hostService False) None ''k8s.io/2/c1'')
       (hostNode kubeletHost) = (Returns (mounts, None), s') \<and>
     ''upperdir=/var/lib/kubelet/pods/u1/volumes/kubernetes.io~csi/pv-1/mount/upper'' \<in> set (m_Options (hd mounts)) \<and>
     hostDir (world s') ''/var/lib/kubelet/pods/u1/volumes/kubernetes.io~csi/pv-1/mount/upper''"
proof -
  let ?P = "hostPackages (ownAnnotations admittedPod)"
  let ?m = "svc_Mounts ?P (hostService False) None ''k8s.io/2/c1''"
  let ?mounts = "[\<lparr>m_Type = ''overlay'', m_Source = ''overlay'', m_Target = [],
      m_Options = [''workdir=/var/lib/kubelet/pods/u1/volumes/kubernetes.io~csi/pv-1/mount/work'',
        ''upperdir=/var/lib/kubelet/pods/u1/volumes/kubernetes.io~csi/pv-1/mount/upper'',
        ''lowerdir=/pv/snapshots/k8s.io/1/'' @ layerID @ ''/fs'']\<rparr>]"
  let ?md = "\<lparr>om_Name = ''web-0'', om_UID = ''u1'', om_Namespace = ''prod''\<rparr>"
  have "fst (run_state ?m (hostNode kubeletHost)) = Returns (?mounts, None)" by code_simp
  note run = fst_run [OF this]
  have T2: "template_engine (tt_render (pk_template ?P)) map_field"
    using engines(2) by (simp add: hostPackages_def)
  have r: "newResolver (\<lambda>p. []) (\<lambda>f. defaultPrefix) hostClient = Inr (ss_resolver (hostService False))"
    using example_resolver by (simp add: hostService_def)
  have fs: "fs_laws (pk_os ?P) hostDev hostDir" by (simp add: hostPackages_def hostOS_laws)
  have key: "parseSnapshotKey ''k8s.io/2/c1'' = Some (''k8s.io'', ''c1'')" by code_simp
  have native: "run_state (sn_Mounts (ss_Snapshotter (hostService False)) None ''k8s.io/2/c1'') (world (hostNode kubeletHost)) =
      (Inr (snapMounts ''/pv'' ''k8s.io/2/c1''
        \<lparr>i_Kind = KindActive, i_Name = ''k8s.io/2/c1'', i_Parent = ''k8s.io/1/'' @ layerID, i_Labels = []\<rparr>), kubeletHost)"
    by (simp add: podHost_native kubeletHost_def)
  have cfg: "podConfigOf (pk_unmarshal ?P) (hostView kubeletHost ''k8s.io'') ''c1'' = Some (podConfig (ownAnnotations admittedPod))"
    by (simp add: podConfigOf_def sandboxRaw_def hostView_def kubeletHost_def podHost_def hostPackages_def map_get_def)
  note eff = admitted_pod_writes_to_volume [OF engines(1) T2 example_admitted example_data r refl example_own
      hostClient_laws fs key native cfg _ _ run, of ?md]
  have "hostDir (world (snd (run_state ?m (hostNode kubeletHost)))) (csiMountPath ''u1'' ''pv-1'' @ ''/upper'')"
    using eff by (simp add: podConfig_def snapMounts_def)
  with run show ?thesis
    by (intro exI [of _ ?mounts] exI [of _ "snd (run_state ?m (hostNode kubeletHost))"]) (simp add: csiMountPath_def)
qed

text \<open>C38: the default templates name the default prefix. When the prefix is configured to anything else,
  for the webhook and the snapshotter alike, the annotations that the default templates stamp
  are not the ones the resolver reads: a pod that brings none of its own gets no path, and its
  writable layer stays on the node.\<close>

theorem custom_prefix_ignores_defaults:
  assumes adm: "admitted T1 W pod pvcName pvName d pod'"
    and r: "newResolver isDNS getString cl = Inr r" "getString flagPrefix \<noteq> defaultPrefix"
    and own: "map_of (ownAnnotations pod) (keyLiteral r) = None" "map_of (ownAnnotations pod) (keyTemplate r) = None"
    and cfg: "psc_Annotations cfg = ownAnnotations pod'"
  shows "upperdirFromConfig T2 r cfg key = ([], None)"
proof -
  let ?t = "''pv-snapshotter.humble-mun.io/upperdir-path-template''" and ?v = "''pv-snapshotter.humble-mun.io/var.PVName''"
  have last: "rev x \<noteq> rev y \<Longrightarrow> x \<noteq> y" for x y :: string by blast
  have "keyLiteral r \<noteq> ?t" "keyLiteral r \<noteq> ?v" "keyTemplate r \<noteq> ?v"
    unfolding resolver_keys [OF r(1)] by (rule last, simp)+
  moreover have "keyTemplate r \<noteq> ?t"
    using r(2) append_same_eq [of "getString flagPrefix" "''/upperdir-path-template''" defaultPrefix]
    unfolding resolver_keys [OF r(1)] by (simp add: defaultPrefix_def)
  ultimately show ?thesis
    using admitted_annotations [OF adm] own by (auto simp: upperdirFromConfig_def map_get_def cfg Let_def)
qed

theorem custom_prefix_ignores_defaults_witness:
  "\<exists>r. newResolver (\<lambda>p. []) (\<lambda>f. ''storage.example.com'') hostClient = Inr r \<and>
     upperdirFromConfig nodeTemplates r (podConfig (ownAnnotations admittedPod)) ''k8s.io/2/c1'' = ([], None)"
proof -
  have "\<not> isl (newResolver (\<lambda>p. []) (\<lambda>f. ''storage.example.com'') hostClient)" by code_simp
  then obtain r where r: "newResolver (\<lambda>p. []) (\<lambda>f. ''storage.example.com'') hostClient = Inr r"
    by (metis sum.collapse(2))
  have ne: "''storage.example.com'' \<noteq> defaultPrefix" by (simp add: defaultPrefix_def)
  have own: "map_of (ownAnnotations examplePod) (keyLiteral r) = None" "map_of (ownAnnotations examplePod) (keyTemplate r) = None"
    by (simp_all add: ownAnnotations_def examplePod_def resolver_keys [OF r])
  from custom_prefix_ignores_defaults [OF example_admitted r ne own, of "podConfig (ownAnnotations admittedPod)"] r
  show ?thesis by (simp add: podConfig_def)
qed

end
